(* ===== verification/Prelude.thy ===== *)
theory Prelude
  imports Main "HOL-Library.Char_ord" "HOL-Library.List_Lexorder" "HOL-Library.Word"
    "HOL-Library.Multiset"
begin

text \<open>
  Shared ground of the development: Go's strings and byte slices, results that may be an error
  or a panic, and Go's maps with string keys.

  A Go string or byte slice is a list of bytes; HOL's \<open>char\<close> is exactly a byte, and its order
  (theories Char_ord and List_Lexorder) is Go's byte-wise string order.  A Go map with string
  keys is a strictly sorted association list, so that two maps are equal (what
  \<open>reflect.DeepEqual\<close> tests) exactly if their models are equal.
\<close>

section \<open>Collections of rules\<close>

named_theorems outcome_simps "evaluation of results"
named_theorems gomap_simps "lookup after map operations"

section \<open>Types\<close>

type_synonym bytes = string
type_synonym int32 = "32 word"
type_synonym int64 = "64 word"
type_synonym uint8 = "8 word"
type_synonym uint16 = "16 word"
type_synonym uint32 = "32 word"
type_synonym uint64 = "64 word"

section \<open>Results of fallible code\<close>

text \<open>
  \<open>Ok x\<close> is a normal return, \<open>Err e\<close> a returned non-nil error, \<open>Panic\<close> a run-time panic
  (nil dereference, index out of range, or an explicit call of \<open>panic\<close>).
\<close>

datatype ('e, 'a) outcome = Ok 'a | Err 'e | Panic

fun obind :: "('e, 'a) outcome \<Rightarrow> ('a \<Rightarrow> ('e, 'b) outcome) \<Rightarrow> ('e, 'b) outcome" where
  "obind (Ok x) f = f x"
| "obind (Err e) f = Err e"
| "obind Panic f = Panic"

declare obind.simps [outcome_simps]

lemma obind_Ok_iff: "obind r f = Ok y \<longleftrightarrow> (\<exists>x. r = Ok x \<and> f x = Ok y)"
  by (cases r) auto

lemma obind_Panic_iff: "obind r f = Panic \<longleftrightarrow> r = Panic \<or> (\<exists>x. r = Ok x \<and> f x = Panic)"
  by (cases r) auto

lemma obind_assoc: "obind (obind r f) g = obind r (\<lambda>x. obind (f x) g)"
  by (cases r) auto

lemma obind_Ok_right [simp]: "obind r Ok = r"
  by (cases r) auto

lemma obind_cong [fundef_cong]:
  "r = r' \<Longrightarrow> (\<And>x. r' = Ok x \<Longrightarrow> f x = f' x) \<Longrightarrow> obind r f = obind r' f'"
  by (cases r') auto

text \<open>A loop over a slice whose body may fail; it collects the results in order.\<close>

fun omap :: "('a \<Rightarrow> ('e, 'b) outcome) \<Rightarrow> 'a list \<Rightarrow> ('e, 'b list) outcome" where
  "omap f [] = Ok []"
| "omap f (x # xs) = obind (f x) (\<lambda>y. obind (omap f xs) (\<lambda>ys. Ok (y # ys)))"

lemma omap_cong [fundef_cong]:
  "xs = ys \<Longrightarrow> (\<And>x. x \<in> set ys \<Longrightarrow> f x = g x) \<Longrightarrow> omap f xs = omap g ys"
  by (induction ys arbitrary: xs) auto

lemma omap_Ok [simp]: "omap (\<lambda>x. Ok (f x)) xs = Ok (map f xs)"
  by (induction xs) auto

lemma omap_Ok_iff:
  "omap f xs = Ok ys \<longleftrightarrow> list_all2 (\<lambda>x y. f x = Ok y) xs ys"
  by (induction xs arbitrary: ys) (auto simp: obind_Ok_iff list_all2_Cons1)

lemma omap_total: "(\<And>x. x \<in> set xs \<Longrightarrow> \<exists>y. f x = Ok y) \<Longrightarrow> \<exists>ys. omap f xs = Ok ys"
proof (induction xs)
  case Nil
  then show ?case by simp
next
  case (Cons x xs)
  then obtain y ys where "f x = Ok y" and "omap f xs = Ok ys" by (metis list.set_intros)
  then show ?case by simp
qed

lemma omap_ex_iff: "(\<exists>ys. omap f xs = Ok ys) \<longleftrightarrow> (\<forall>x \<in> set xs. \<exists>y. f x = Ok y)"
  by (induction xs) (auto simp: obind_Ok_iff)

text \<open>The loop as a plain map, when every body returns normally.\<close>

lemma omap_map_Ok: "(\<And>x. x \<in> set xs \<Longrightarrow> f x = Ok (g x)) \<Longrightarrow> omap f xs = Ok (map g xs)"
  by (induction xs) auto

text \<open>A loop whose body only checks: it stops at the first error.\<close>

fun oeach :: "('a \<Rightarrow> ('e, unit) outcome) \<Rightarrow> 'a list \<Rightarrow> ('e, unit) outcome" where
  "oeach f [] = Ok ()"
| "oeach f (x # xs) = obind (f x) (\<lambda>_. oeach f xs)"

lemma oeach_Ok_iff: "oeach f xs = Ok () \<longleftrightarrow> (\<forall>x \<in> set xs. f x = Ok ())"
  by (induction xs) (auto simp: obind_Ok_iff)

lemma oeach_no_Panic: "(\<And>x. x \<in> set xs \<Longrightarrow> f x \<noteq> Panic) \<Longrightarrow> oeach f xs \<noteq> Panic"
  by (induction xs) (auto simp: obind_Panic_iff)

text \<open>A loop that updates a state and may fail.\<close>

fun ofold :: "('a \<Rightarrow> 's \<Rightarrow> ('e, 's) outcome) \<Rightarrow> 'a list \<Rightarrow> 's \<Rightarrow> ('e, 's) outcome" where
  "ofold f [] s = Ok s"
| "ofold f (x # xs) s = obind (f x s) (ofold f xs)"

lemma ofold_append: "ofold f (xs @ ys) s = obind (ofold f xs s) (ofold f ys)"
  by (induction xs arbitrary: s) (auto simp: obind_assoc intro: obind_cong)

lemma ofold_invariant:
  assumes "ofold f xs s = Ok s'" and "P s"
    and "\<And>x s s'. x \<in> set xs \<Longrightarrow> P s \<Longrightarrow> f x s = Ok s' \<Longrightarrow> P s'"
  shows "P s'"
  using assms
proof (induction xs arbitrary: s)
  case (Cons x xs)
  from Cons.prems(1) obtain t where "f x s = Ok t" and "ofold f xs t = Ok s'"
    by (auto simp: obind_Ok_iff)
  with Cons.prems Cons.IH [of t] show ?case by (metis list.set_intros)
qed simp

lemma ofold_no_Panic:
  assumes "P s"
    and "\<And>x s s'. x \<in> set xs \<Longrightarrow> P s \<Longrightarrow> f x s = Ok s' \<Longrightarrow> P s'"
    and "\<And>x s. x \<in> set xs \<Longrightarrow> P s \<Longrightarrow> f x s \<noteq> Panic"
  shows "ofold f xs s \<noteq> Panic"
  using assms
proof (induction xs arbitrary: s)
  case (Cons x xs)
  then show ?case by (auto simp: obind_Panic_iff)
qed simp

text \<open>A guard: an early return of an error.\<close>

definition oguard :: "bool \<Rightarrow> 'e \<Rightarrow> ('e, unit) outcome" where
  "oguard bad e = (if bad then Err e else Ok ())"

lemma oguard_Ok_iff [simp]: "oguard bad e = Ok () \<longleftrightarrow> \<not> bad"
  by (simp add: oguard_def)

lemma oguard_no_Panic [simp]: "oguard bad e \<noteq> Panic"
  by (simp add: oguard_def)

section \<open>Maps with string keys\<close>

type_synonym 'v gomap = "(string \<times> 'v) list"

abbreviation gm_get :: "'v gomap \<Rightarrow> string \<Rightarrow> 'v option" where
  "gm_get \<equiv> map_of"

fun gm_put :: "string \<Rightarrow> 'v \<Rightarrow> 'v gomap \<Rightarrow> 'v gomap" where
  "gm_put k v [] = [(k, v)]"
| "gm_put k v ((k', v') # m) =
     (if k = k' then (k, v) # m
      else if k < k' then (k, v) # (k', v') # m
      else (k', v') # gm_put k v m)"

definition gm_del :: "string \<Rightarrow> 'v gomap \<Rightarrow> 'v gomap" where
  "gm_del k m = filter (\<lambda>p. fst p \<noteq> k) m"

abbreviation gm_keys :: "'v gomap \<Rightarrow> string list" where
  "gm_keys m \<equiv> map fst m"

definition gm_ok :: "'v gomap \<Rightarrow> bool" where
  "gm_ok m \<longleftrightarrow> sorted_wrt (<) (gm_keys m)"

lemma gm_get_put [gomap_simps, simp]:
  "gm_get (gm_put k v m) k' = (if k' = k then Some v else gm_get m k')"
  by (induction m) auto

lemma gm_get_del [gomap_simps, simp]:
  "gm_get (gm_del k m) k' = (if k' = k then None else gm_get m k')"
  by (induction m) (auto simp: gm_del_def)

lemma set_keys_put [simp]: "fst ` set (gm_put k v m) = insert k (fst ` set m)"
proof -
  have "dom (gm_get (gm_put k v m)) = insert k (dom (gm_get m))"
    by (auto simp: dom_def split: if_splits)
  then show ?thesis by (simp add: dom_map_of_conv_image_fst)
qed

lemma set_keys_del [simp]: "fst ` set (gm_del k m) = fst ` set m - {k}"
  by (auto simp: gm_del_def)

lemma gm_ok_Nil [simp]: "gm_ok []"
  by (simp add: gm_ok_def)

lemma gm_ok_Cons: "gm_ok (p # m) \<longleftrightarrow> (\<forall>k \<in> fst ` set m. fst p < k) \<and> gm_ok m"
  by (auto simp: gm_ok_def)

lemma gm_ok_put [simp]: "gm_ok m \<Longrightarrow> gm_ok (gm_put k v m)"
proof (induction m)
  case Nil
  then show ?case by (simp add: gm_ok_def)
next
  case (Cons p m)
  obtain k' v' where p: "p = (k', v')" by (cases p)
  from Cons.prems have ok: "gm_ok m" and lt: "\<forall>x \<in> fst ` set m. k' < x"
    by (auto simp: gm_ok_Cons p)
  show ?case
  proof (cases "k < k'")
    case True
    with lt have "\<forall>x \<in> fst ` set m. k < x" by auto
    with True ok lt show ?thesis by (auto simp: gm_ok_Cons p)
  next
    case False
    with Cons.IH [OF ok] ok lt show ?thesis by (auto simp: gm_ok_Cons p)
  qed
qed

lemma gm_ok_del [simp]: "gm_ok m \<Longrightarrow> gm_ok (gm_del k m)"
  by (auto simp: gm_ok_def gm_del_def sorted_wrt_map intro: sorted_wrt_filter)

lemma gm_ok_distinct: "gm_ok m \<Longrightarrow> distinct (gm_keys m)"
  by (induction m) (auto simp: gm_ok_Cons image_def)

lemma gm_get_in: "gm_ok m \<Longrightarrow> (k, v) \<in> set m \<longleftrightarrow> gm_get m k = Some v"
  by (simp add: gm_ok_distinct)

lemma gm_get_None_iff: "gm_get m k = None \<longleftrightarrow> k \<notin> fst ` set m"
  by (simp add: map_of_eq_None_iff)

text \<open>The representation is canonical: equal lookups mean equal maps.\<close>

lemma gm_ext:
  assumes "gm_ok m" and "gm_ok n" and eq: "\<And>k. gm_get m k = gm_get n k"
  shows "m = n"
proof -
  have "map_of m = map_of n" using eq by (rule ext)
  then have "set m = set n"
    using map_of_inject_set assms(1,2) gm_ok_distinct by blast
  then have "set (map fst m) = set (map fst n)" by simp
  with assms(1,2) have "map fst m = map fst n"
    unfolding gm_ok_def by (simp add: strict_sorted_equal)
  moreover have "inj_on fst (set m \<union> set n)"
    using \<open>set m = set n\<close> gm_ok_distinct [OF assms(1)] by (simp add: distinct_map)
  ultimately show ?thesis by (meson map_inj_on)
qed

lemma gm_length_put:
  "length (gm_put k v m) = length m + (if gm_get m k = None then 1 else 0)" if "gm_ok m"
  using that
proof (induction m)
  case Nil
  then show ?case by simp
next
  case (Cons p m)
  then have "gm_ok m" and "k < fst p \<Longrightarrow> k \<notin> fst ` set m"
    by (auto simp: gm_ok_Cons)
  with Cons.IH show ?case by (cases p) (auto simp: gm_get_None_iff)
qed

lemma gm_length_del:
  "gm_ok m \<Longrightarrow> length (gm_del k m) = length m - (if gm_get m k = None then 0 else 1)"
proof (induction m)
  case Nil
  then show ?case by (simp add: gm_del_def)
next
  case (Cons p m)
  then have ok: "gm_ok m" and nin: "fst p \<notin> fst ` set m"
    by (auto simp: gm_ok_Cons)
  show ?case
  proof (cases "fst p = k")
    case True
    with nin have "filter (\<lambda>q. fst q \<noteq> k) m = m" by (auto simp: filter_id_conv image_iff)
    with True show ?thesis by (cases p) (simp add: gm_del_def)
  next
    case False
    have "length m > 0" if "gm_get m k \<noteq> None"
      using that by (cases m) auto
    with False Cons.IH [OF ok] show ?thesis by (cases p) (auto simp: gm_del_def)
  qed
qed

section \<open>The interface of keyed stores\<close>

text \<open>
  What the clients of a map rely on; the operations of \<open>vc.svcs\<close>, \<open>vc.secrets\<close> and the spec's
  maps all use it through this contract.
\<close>

locale keyed_store =
  fixes get :: "'m \<Rightarrow> 'k \<Rightarrow> 'v option"
    and put :: "'k \<Rightarrow> 'v \<Rightarrow> 'm \<Rightarrow> 'm"
    and del :: "'k \<Rightarrow> 'm \<Rightarrow> 'm"
    and ok :: "'m \<Rightarrow> bool"
  assumes get_put: "get (put k v m) k' = (if k' = k then Some v else get m k')"
    and get_del: "get (del k m) k' = (if k' = k then None else get m k')"
    and ok_put: "ok m \<Longrightarrow> ok (put k v m)"
    and ok_del: "ok m \<Longrightarrow> ok (del k m)"
    and get_ext: "ok m \<Longrightarrow> ok n \<Longrightarrow> (\<And>k. get m k = get n k) \<Longrightarrow> m = n"
begin

lemma put_put: "ok m \<Longrightarrow> put k v (put k w m) = put k v m"
  by (rule get_ext) (simp_all add: ok_put get_put)

lemma put_swap: "ok m \<Longrightarrow> k \<noteq> l \<Longrightarrow> put k v (put l w m) = put l w (put k v m)"
  by (rule get_ext) (auto simp: ok_put get_put)

lemma put_same: "ok m \<Longrightarrow> get m k = Some v \<Longrightarrow> put k v m = m"
  by (rule get_ext) (auto simp: ok_put get_put)

lemma del_put: "ok m \<Longrightarrow> get m k = None \<Longrightarrow> del k (put k v m) = m"
  by (rule get_ext) (auto simp: ok_put ok_del get_put get_del)

lemma fold_put_frame: "k \<notin> fst ` set kvs \<Longrightarrow> get (fold (\<lambda>(k, v). put k v) kvs m) k = get m k"
  by (induction kvs arbitrary: m) (auto simp: get_put)

lemma fold_put_ok: "ok m \<Longrightarrow> ok (fold (\<lambda>(k, v). put k v) kvs m)"
  by (induction kvs arbitrary: m) (auto simp: ok_put)

end

interpretation gm: keyed_store "gm_get :: 'v gomap \<Rightarrow> string \<Rightarrow> 'v option" gm_put gm_del gm_ok
  by unfold_locales (auto intro: gm_ext)

text \<open>Rebuilding a map from its own pairs gives the map back.\<close>

definition gm_of_list :: "(string \<times> 'v) list \<Rightarrow> 'v gomap" where
  "gm_of_list kvs = fold (\<lambda>(k, v) m. gm_put k v m) kvs []"

lemma gm_get_fold:
  "gm_get (fold (\<lambda>(k, v). gm_put k v) kvs m) k
     = (case map_of (rev kvs) k of None \<Rightarrow> gm_get m k | Some v \<Rightarrow> Some v)"
proof (induction kvs arbitrary: m)
  case (Cons p kvs)
  then show ?case
    by (cases p) (auto simp: map_add_def split: option.split)
qed simp

lemma gm_get_of_list: "gm_get (gm_of_list kvs) k = map_of (rev kvs) k"
  by (simp add: gm_of_list_def gm_get_fold split: option.split)

lemma gm_ok_of_list [simp]: "gm_ok (gm_of_list kvs)"
  unfolding gm_of_list_def by (rule gm.fold_put_ok) simp

lemma gm_keys_of_list: "set (gm_keys (gm_of_list kvs)) = fst ` set kvs"
proof -
  have "dom (map_of (gm_of_list kvs)) = dom (map_of (rev kvs))"
    by (auto simp: dom_def gm_get_of_list)
  then show ?thesis by (simp add: dom_map_of_conv_image_fst)
qed

definition gm_map :: "('v \<Rightarrow> 'w) \<Rightarrow> 'v gomap \<Rightarrow> 'w gomap" where
  "gm_map f m = map (\<lambda>(k, v). (k, f v)) m"

lemma gm_map_keys [simp]: "gm_keys (gm_map f m) = gm_keys m"
  by (simp add: gm_map_def case_prod_unfold)

lemma gm_ok_map [simp]: "gm_ok (gm_map f m) = gm_ok m"
  by (simp add: gm_ok_def)

lemma gm_get_map [simp]: "gm_get (gm_map f m) k = map_option f (gm_get m k)"
  by (induction m) (auto simp: gm_map_def)

lemma gm_map_comp: "gm_map f (gm_map g m) = gm_map (f \<circ> g) m"
  by (simp add: gm_map_def case_prod_unfold)

lemma gm_map_cong:
  "(\<And>k v. (k, v) \<in> set m \<Longrightarrow> f v = g v) \<Longrightarrow> gm_map f m = gm_map g m"
  by (auto simp: gm_map_def)

section \<open>Lists\<close>

lemma list_eq_by_append:
  assumes "xs @ us = ys @ vs" and "length xs = length ys"
  shows "xs = ys \<and> us = vs"
  using assms by simp

lemma find_SomeD: "find P xs = Some x \<Longrightarrow> P x \<and> x \<in> set xs"
  by (induction xs) (auto split: if_splits)

lemma takeWhile_eq_self: "(\<And>x. x \<in> set xs \<Longrightarrow> P x) \<Longrightarrow> takeWhile P xs = xs"
  by (induction xs) auto

lemma concat_map_length_const:
  "(\<And>x. x \<in> set xs \<Longrightarrow> length (f x) = n) \<Longrightarrow> length (concat (map f xs)) = n * length xs"
  by (induction xs) auto

end
