(* ===== verification/CrdTypes.thy ===== *)
theory CrdTypes
  imports Prelude
begin

text \<open>
  The custom resources of \<open>pkg/apis/varnishingress/v1alpha1/types.go\<close>: \<open>VarnishConfig\<close> and
  \<open>BackendConfig\<close>.  The enumerated fields are string types in the source, so a value of the
  model is any string and the constants below are abbreviations.  A pointer to a scalar or a
  struct is an option.  Field names carry a prefix for their struct; the JSON tags and the
  \<open>TypeMeta\<close> are left out, except \<open>Kind\<close>.
\<close>

section \<open>Object metadata\<close>

text \<open>The part of \<open>metav1.ObjectMeta\<close> the program reads.\<close>

record ObjectMeta =
  om_Namespace :: string
  om_Name :: string
  om_UID :: string
  om_ResourceVersion :: string
  om_Labels :: "string gomap"
  om_Annotations :: "string gomap"

definition meta_key :: "ObjectMeta \<Rightarrow> string" where
  "meta_key m = om_Namespace m @ ''/'' @ om_Name m"

section \<open>Constants of the string types\<close>

abbreviation "vcr_Basic \<equiv> ''basic''"
abbreviation "vcr_Proxy \<equiv> ''proxy''"

abbreviation "vcr_Whitelist \<equiv> ''whitelist''"
abbreviation "vcr_Blacklist \<equiv> ''blacklist''"

abbreviation "vcr_Equal \<equiv> ''equal''"
abbreviation "vcr_NotEqual \<equiv> ''not-equal''"
abbreviation "vcr_Match \<equiv> ''match''"
abbreviation "vcr_NotMatch \<equiv> ''not-match''"
abbreviation "vcr_Prefix \<equiv> ''prefix''"
abbreviation "vcr_NotPrefix \<equiv> ''not-prefix''"
abbreviation "vcr_Exists \<equiv> ''exists''"
abbreviation "vcr_NotExists \<equiv> ''not-exists''"
abbreviation "vcr_Greater \<equiv> ''greater''"
abbreviation "vcr_GreaterEqual \<equiv> ''greater-equal''"
abbreviation "vcr_Less \<equiv> ''less''"
abbreviation "vcr_LessEqual \<equiv> ''less-equal''"

abbreviation "vcr_None \<equiv> ''none''"
abbreviation "vcr_Start \<equiv> ''start''"
abbreviation "vcr_Both \<equiv> ''both''"

abbreviation "vcr_Replace \<equiv> ''replace''"
abbreviation "vcr_Sub \<equiv> ''sub''"
abbreviation "vcr_Suball \<equiv> ''suball''"
abbreviation "vcr_Rewrite \<equiv> ''rewrite''"
abbreviation "vcr_Append \<equiv> ''append''"
abbreviation "vcr_Prepend \<equiv> ''prepend''"
abbreviation "vcr_Delete \<equiv> ''delete''"

abbreviation "vcr_Recv \<equiv> ''recv''"
abbreviation "vcr_Pipe \<equiv> ''pipe''"
abbreviation "vcr_Pass \<equiv> ''pass''"
abbreviation "vcr_Hash \<equiv> ''hash''"
abbreviation "vcr_Purge \<equiv> ''purge''"
abbreviation "vcr_Miss \<equiv> ''miss''"
abbreviation "vcr_Hit \<equiv> ''hit''"
abbreviation "vcr_Deliver \<equiv> ''deliver''"
abbreviation "vcr_Synth \<equiv> ''synth''"
abbreviation "vcr_BackendFetch \<equiv> ''backend_fetch''"
abbreviation "vcr_BackendResponse \<equiv> ''backend_response''"
abbreviation "vcr_BackendError \<equiv> ''backend_error''"

abbreviation "vcr_Unique \<equiv> ''unique''"
abbreviation "vcr_First \<equiv> ''first''"
abbreviation "vcr_Last \<equiv> ''last''"
abbreviation "vcr_Exact \<equiv> ''exact''"
abbreviation "vcr_Longest \<equiv> ''longest''"
abbreviation "vcr_Shortest \<equiv> ''shortest''"

abbreviation "vcr_RecvSynth \<equiv> ''synth''"

section \<open>VarnishConfig\<close>

record ProbeSpec =
  ps_URL :: string
  ps_Request :: "string list"
  ps_ExpResponse :: "int32 option"
  ps_Timeout :: string
  ps_Interval :: string
  ps_Initial :: "int32 option"
  ps_Window :: "int32 option"
  ps_Threshold :: "int32 option"

record SelfShardSpec =
  ss_Max2ndTTL :: string
  ss_Probe :: ProbeSpec

record CfgCondition =
  cc_Comparand :: string
  cc_Compare :: string
  cc_Value :: string

record AuthSpec =
  as_Realm :: string
  as_SecretName :: string
  as_Type :: string
  as_UTF8 :: bool
  as_Conditions :: "CfgCondition list"

record CfgResultHdr =
  crh_Header :: string
  crh_Success :: string
  crh_Failure :: string

record CfgACLAddress =
  caa_Address :: string
  caa_MaskBits :: "int32 option"
  caa_Negate :: bool

record ACLSpec =
  aclS_Name :: string
  aclS_ACLType :: string
  aclS_Comparand :: string
  aclS_ResultHdr :: "CfgResultHdr option"
  aclS_FailStatus :: "int32 option"
  aclS_Addresses :: "CfgACLAddress list"
  aclS_Conditions :: "CfgCondition list"

record CfgRewriteRule =
  crr_Value :: string
  crr_Rewrite :: string

record CfgMatchFlags =
  cmf_MaxMem :: "uint64 option"
  cmf_Anchor :: string
  cmf_CaseSensitive :: "bool option"
  cmf_UTF8 :: bool
  cmf_PosixSyntax :: bool
  cmf_LongestMatch :: bool
  cmf_Literal :: bool
  cmf_NeverCapture :: bool
  cmf_PerlClasses :: bool
  cmf_WordBoundary :: bool

record RewriteSpec =
  rs_Rules :: "CfgRewriteRule list"
  rs_MatchFlags :: "CfgMatchFlags option"
  rs_Target :: string
  rs_Source :: string
  rs_Method :: string
  rs_Compare :: string
  rs_VCLSub :: string
  rs_Select :: string

record ReqCondition =
  rc_Values :: "string list"
  rc_MatchFlags :: "CfgMatchFlags option"
  rc_Count :: "int64 option"
  rc_Comparand :: string
  rc_Compare :: string

record CfgDisposition =
  cd_Action :: string
  cd_Status :: "int64 option"
  cd_Reason :: string

record RequestDispSpec =
  rd_Conditions :: "ReqCondition list"
  rd_Disposition :: CfgDisposition

record VarnishConfigSpec =
  vcs_Services :: "string list"
  vcs_SelfSharding :: "SelfShardSpec option"
  vcs_VCL :: string
  vcs_Auth :: "AuthSpec list"
  vcs_ACLs :: "ACLSpec list"
  vcs_Rewrites :: "RewriteSpec list"
  vcs_ReqDispositions :: "RequestDispSpec list"

record VarnishConfig =
  vcfg_Kind :: string
  vcfg_Meta :: ObjectMeta
  vcfg_Spec :: VarnishConfigSpec

section \<open>BackendConfig\<close>

record DirectorSpec =
  ds_Type :: string
  ds_Warmup :: "int32 option"
  ds_Rampup :: string

record BackendConfigSpec =
  bcs_Services :: "string list"
  bcs_Probe :: "ProbeSpec option"
  bcs_Director :: "DirectorSpec option"
  bcs_HostHeader :: string
  bcs_ConnectTimeout :: string
  bcs_FirstByteTimeout :: string
  bcs_BetweenBytesTimeout :: string
  bcs_MaxConnections :: "int32 option"
  bcs_ProxyHeader :: "int32 option"

record BackendConfig =
  bcfg_Meta :: ObjectMeta
  bcfg_Spec :: BackendConfigSpec

end
