(* ===== verification/GoLib.thy ===== *)
theory GoLib
  imports Prelude
begin

text \<open>
  The parts of Go's standard library that the controller calls: number formatting
  (\<open>strconv.Itoa\<close>, \<open>big.Int.Text(62)\<close>, the \<open>%02x\<close> verb), big-endian byte order
  (\<open>encoding/binary\<close>), FNV-1a (\<open>hash/fnv\<close>), string helpers (\<open>strings\<close>) and
  \<open>sort.Stable\<close>.
\<close>

section \<open>Codecs\<close>

text \<open>An encoder with a decoder that undoes it on a domain: the encoder is injective there.\<close>

locale codec =
  fixes enc :: "'a \<Rightarrow> 'b" and dec :: "'b \<Rightarrow> 'a" and dm :: "'a \<Rightarrow> bool"
  assumes dec_enc: "dm x \<Longrightarrow> dec (enc x) = x"
begin

lemma enc_inject: "dm x \<Longrightarrow> dm y \<Longrightarrow> enc x = enc y \<longleftrightarrow> x = y"
  by (metis dec_enc)

lemma enc_inj_on: "inj_on enc {x. dm x}"
  by (rule inj_onI) (simp add: enc_inject)

lemma enc_distinct_map: "list_all dm xs \<Longrightarrow> distinct (map enc xs) \<longleftrightarrow> distinct xs"
  by (induction xs) (auto simp: enc_inject list_all_iff)

end

section \<open>Positional notation\<close>

fun digits :: "nat \<Rightarrow> nat \<Rightarrow> nat list" where
  "digits b n = (if b < 2 \<or> n < b then [n] else digits b (n div b) @ [n mod b])"

declare digits.simps [simp del]

definition undigits :: "nat \<Rightarrow> nat list \<Rightarrow> nat" where
  "undigits b ds = foldl (\<lambda>a d. a * b + d) 0 ds"

lemma undigits_snoc [simp]: "undigits b (ds @ [d]) = undigits b ds * b + d"
  by (simp add: undigits_def)

lemma undigits_single [simp]: "undigits b [d] = d"
  by (simp add: undigits_def)

lemma undigits_digits: "undigits b (digits b n) = n"
proof (induction b n rule: digits.induct)
  case (1 b n)
  show ?case
  proof (cases "b < 2 \<or> n < b")
    case True
    then show ?thesis by (simp add: digits.simps [of b n])
  next
    case False
    then have "undigits b (digits b n) = n div b * b + n mod b"
      using "1.IH" by (simp add: digits.simps [of b n])
    then show ?thesis by simp
  qed
qed

lemma digits_less: "2 \<le> b \<Longrightarrow> d \<in> set (digits b n) \<Longrightarrow> d < b"
proof (induction b n rule: digits.induct)
  case (1 b n)
  show ?case
  proof (cases "n < b")
    case True
    with "1.prems" show ?thesis by (simp add: digits.simps [of b n])
  next
    case False
    with "1.prems" have "d \<in> set (digits b (n div b)) \<or> d = n mod b"
      by (auto simp: digits.simps [of b n])
    with "1.IH" "1.prems"(1) False show ?thesis by auto
  qed
qed

lemma digits_nonempty [simp]: "digits b n \<noteq> []"
  by (simp add: digits.simps)

lemma digits_length:
  "2 \<le> b \<Longrightarrow> 0 < k \<Longrightarrow> n < b ^ k \<Longrightarrow> length (digits b n) \<le> k"
proof (induction k arbitrary: n)
  case 0
  then show ?case by simp
next
  case (Suc k)
  show ?case
  proof (cases "n < b")
    case True
    then show ?thesis by (simp add: digits.simps [of b n])
  next
    case False
    have "0 < k"
    proof (rule ccontr)
      assume "\<not> 0 < k"
      with Suc.prems(3) False show False by simp
    qed
    moreover have "n div b < b ^ k"
      using Suc.prems(1,3) by (simp add: less_mult_imp_div_less mult.commute)
    ultimately have "length (digits b (n div b)) \<le> k"
      using Suc.IH Suc.prems(1) by blast
    with False Suc.prems(1) show ?thesis by (simp add: digits.simps [of b n])
  qed
qed

definition digit_chars :: string where
  "digit_chars = ''0123456789abcdefghijklmnopqrstuvwxyzABCDEFGHIJKLMNOPQRSTUVWXYZ''"

definition digit_char :: "nat \<Rightarrow> char" where
  "digit_char d = digit_chars ! d"

definition char_digit :: "char \<Rightarrow> nat" where
  "char_digit c = length (takeWhile (\<lambda>x. x \<noteq> c) digit_chars)"

lemma length_digit_chars [simp]: "length digit_chars = 62"
  by (simp add: digit_chars_def)

lemma distinct_digit_chars: "distinct digit_chars"
  by code_simp

lemma char_digit_char: "d < 62 \<Longrightarrow> char_digit (digit_char d) = d"
proof -
  assume d: "d < 62"
  have nth: "\<forall>i < d. digit_chars ! i \<noteq> digit_chars ! d"
    using d distinct_digit_chars by (simp add: nth_eq_iff_index_eq)
  have "takeWhile (\<lambda>x. x \<noteq> digit_chars ! d) digit_chars = take d digit_chars"
    using nth d by (intro takeWhile_eq_take_P_nth) auto
  then show ?thesis using d by (simp add: char_digit_def digit_char_def)
qed

text \<open>\<open>text_base b n\<close> is \<open>n\<close> written in base \<open>b\<close>, as \<open>strconv\<close> and \<open>math/big\<close> write it.\<close>

definition text_base :: "nat \<Rightarrow> nat \<Rightarrow> string" where
  "text_base b n = map digit_char (digits b n)"

definition parse_base :: "nat \<Rightarrow> string \<Rightarrow> nat" where
  "parse_base b s = undigits b (map char_digit s)"

lemma parse_text_base:
  assumes "2 \<le> b" and "b \<le> 62"
  shows "parse_base b (text_base b n) = n"
proof -
  have "map (char_digit \<circ> digit_char) (digits b n) = digits b n"
    using digits_less [OF assms(1), of _ n] assms(2) char_digit_char
    by (intro map_idI) (metis comp_apply order_less_le_trans)
  then show ?thesis by (simp add: parse_base_def text_base_def undigits_digits)
qed

interpretation base10: codec "text_base 10" "parse_base 10" "\<lambda>_. True"
  by unfold_locales (simp add: parse_text_base)

interpretation base62: codec "text_base 62" "parse_base 62" "\<lambda>_. True"
  by unfold_locales (simp add: parse_text_base)

lemma text_base_length: "2 \<le> b \<Longrightarrow> 0 < k \<Longrightarrow> n < b ^ k \<Longrightarrow> length (text_base b n) \<le> k"
  by (simp add: text_base_def digits_length)

lemma text_base_nonempty [simp]: "text_base b n \<noteq> []"
  by (simp add: text_base_def)

definition is_alnum :: "char \<Rightarrow> bool" where
  "is_alnum c \<longleftrightarrow> CHR ''A'' \<le> c \<and> c \<le> CHR ''Z'' \<or> CHR ''a'' \<le> c \<and> c \<le> CHR ''z''
     \<or> CHR ''0'' \<le> c \<and> c \<le> CHR ''9''"

lemma digit_chars_alnum: "list_all is_alnum digit_chars"
  by code_simp

lemma text_base_alnum:
  "2 \<le> b \<Longrightarrow> b \<le> 62 \<Longrightarrow> list_all is_alnum (text_base b n)"
proof -
  assume b: "2 \<le> b" "b \<le> 62"
  have "is_alnum (digit_char d)" if "d \<in> set (digits b n)" for d
  proof -
    have "d < length digit_chars" using digits_less [OF b(1) that] b(2) by simp
    then show ?thesis
      using digit_chars_alnum by (simp add: digit_char_def list_all_length)
  qed
  then show ?thesis by (simp add: text_base_def list_all_iff)
qed

text \<open>\<open>strconv.Itoa\<close> and the \<open>%d\<close> verb.\<close>

definition itoa :: "int \<Rightarrow> string" where
  "itoa i = (if i < 0 then ''-'' @ text_base 10 (nat (- i)) else text_base 10 (nat i))"

definition itoa32 :: "int32 \<Rightarrow> string" where
  "itoa32 w = itoa (sint w)"

definition utoa :: "'a::len word \<Rightarrow> string" where
  "utoa w = text_base 10 (unat w)"

lemma utoa_inject: "utoa v = utoa w \<longleftrightarrow> v = w" for v w :: "'a::len word"
  by (simp add: utoa_def base10.enc_inject unsigned_word_eqI word_unat_eq_iff)

lemma digit_char_not_minus: "d < 62 \<Longrightarrow> digit_char d \<noteq> CHR ''-''"
proof
  assume "d < 62" and eq: "digit_char d = CHR ''-''"
  then have "CHR ''-'' \<in> set digit_chars"
    unfolding digit_char_def by (metis length_digit_chars nth_mem)
  then show False by (simp add: digit_chars_def)
qed

lemma text_base_no_minus: "CHR ''-'' \<notin> set (text_base 10 n)"
proof
  assume "CHR ''-'' \<in> set (text_base 10 n)"
  then obtain d where "d \<in> set (digits 10 n)" and d: "digit_char d = CHR ''-''"
    by (auto simp: text_base_def)
  then have "d < 10" using digits_less [of 10 d n] by simp
  with d show False using digit_char_not_minus [of d] by simp
qed

lemma itoa_inject: "itoa i = itoa j \<longleftrightarrow> i = j"
proof
  assume eq: "itoa i = itoa j"
  have ne: "CHR ''-'' # s \<noteq> text_base 10 n" for s n
    using text_base_no_minus [of n] by (metis list.set_intros(1))
  have "i < 0 \<longleftrightarrow> j < 0"
    using eq ne ne [symmetric] by (cases "i < 0"; cases "j < 0") (simp_all add: itoa_def)
  with eq show "i = j"
    by (auto simp: itoa_def base10.enc_inject eq_nat_nat_iff split: if_splits)
qed simp

lemma itoa32_inject: "itoa32 v = itoa32 w \<longleftrightarrow> v = w"
  unfolding itoa32_def itoa_inject by (auto intro: signed_word_eqI [where ?'a = int])

section \<open>The verb \<open>%02x\<close> on a byte\<close>

definition hex02 :: "char \<Rightarrow> string" where
  "hex02 c = [digit_char (of_char c div 16), digit_char (of_char c mod 16)]"

definition unhex02 :: "char \<Rightarrow> char \<Rightarrow> char" where
  "unhex02 x y = char_of (char_digit x * 16 + char_digit y)"

lemma of_char_less_256 [simp]: "of_char c < (256 :: nat)"
  by (cases c) simp

lemma hex02_digits: "of_char c div 16 < (16 :: nat)" "of_char c mod 16 < (16 :: nat)"
  using of_char_less_256 [of c] by (auto simp: less_mult_imp_div_less)

lemma unhex_hex02: "hex02 c = [x, y] \<Longrightarrow> unhex02 x y = c"
proof -
  assume "hex02 c = [x, y]"
  then have x: "x = digit_char (of_char c div 16)" and y: "y = digit_char (of_char c mod 16)"
    by (simp_all add: hex02_def)
  have "char_digit x = of_char c div 16" and "char_digit y = of_char c mod 16"
    using hex02_digits [of c] by (simp_all add: x y char_digit_char)
  then have "char_digit x * 16 + char_digit y = (of_char c :: nat)"
    by simp
  then show ?thesis by (simp add: unhex02_def)
qed

lemma hex02_alnum: "list_all is_alnum (hex02 c)"
proof -
  have "of_char c div 16 < length digit_chars" "of_char c mod 16 < length digit_chars"
    using hex02_digits [of c] by simp_all
  then show ?thesis
    using digit_chars_alnum unfolding hex02_def digit_char_def list.pred_inject
    by (simp add: list_all_length)
qed

section \<open>Big-endian byte order\<close>

fun be_bytes :: "nat \<Rightarrow> nat \<Rightarrow> bytes" where
  "be_bytes 0 n = []"
| "be_bytes (Suc k) n = be_bytes k (n div 256) @ [char_of (n mod 256)]"

definition be_num :: "bytes \<Rightarrow> nat" where
  "be_num bs = undigits 256 (map of_char bs)"

lemma length_be_bytes [simp]: "length (be_bytes k n) = k"
  by (induction k arbitrary: n) auto

lemma be_num_bytes: "n < 256 ^ k \<Longrightarrow> be_num (be_bytes k n) = n"
proof (induction k arbitrary: n)
  case 0
  then show ?case by (simp add: be_num_def undigits_def)
next
  case (Suc k)
  then have "n div 256 < 256 ^ k" by (simp add: less_mult_imp_div_less mult.commute)
  from Suc.IH [OF this] show ?case by (simp add: be_num_def)
qed

lemma be_num_less: "be_num bs < 256 ^ length bs"
proof (induction bs rule: rev_induct)
  case Nil
  then show ?case by (simp add: be_num_def undigits_def)
next
  case (snoc c bs)
  then have "be_num bs * 256 + of_char c < 256 ^ length bs * 256"
    using of_char_less_256 [of c] by linarith
  then show ?case by (simp add: be_num_def mult.commute)
qed

interpretation be: codec "be_bytes k" be_num "\<lambda>n. n < 256 ^ k" for k
  by unfold_locales (rule be_num_bytes)

definition put_uint16 :: "uint16 \<Rightarrow> bytes" where "put_uint16 w = be_bytes 2 (unat w)"
definition put_uint32 :: "uint32 \<Rightarrow> bytes" where "put_uint32 w = be_bytes 4 (unat w)"
definition put_uint64 :: "uint64 \<Rightarrow> bytes" where "put_uint64 w = be_bytes 8 (unat w)"

lemma unat_less_256_power: "unat (w :: 'a::len word) < 256 ^ k" if "LENGTH('a) = 8 * k"
proof -
  have "(2 :: nat) ^ LENGTH('a) = 256 ^ k" using that by (simp add: power_mult)
  then show ?thesis using unsigned_less [of w, where ?'a = nat] by simp
qed

lemma length_put_uint [simp]:
  "length (put_uint16 a) = 2" "length (put_uint32 b) = 4" "length (put_uint64 c) = 8"
  by (simp_all add: put_uint16_def put_uint32_def put_uint64_def)

lemma put_uint16_inject [simp]: "put_uint16 v = put_uint16 w \<longleftrightarrow> v = w"
  using be.enc_inject [of "unat v" 2 "unat w"] unat_less_256_power [of 2 v]
    unat_less_256_power [of 2 w]
  by (simp add: put_uint16_def word_unat_eq_iff)

lemma put_uint32_inject [simp]: "put_uint32 v = put_uint32 w \<longleftrightarrow> v = w"
  using be.enc_inject [of "unat v" 4 "unat w"] unat_less_256_power [of 4 v]
    unat_less_256_power [of 4 w]
  by (simp add: put_uint32_def word_unat_eq_iff)

lemma put_uint64_inject [simp]: "put_uint64 v = put_uint64 w \<longleftrightarrow> v = w"
  using be.enc_inject [of "unat v" 8 "unat w"] unat_less_256_power [of 8 v]
    unat_less_256_power [of 8 w]
  by (simp add: put_uint64_def word_unat_eq_iff)

section \<open>FNV-1a, 32 bits\<close>

unbundle bit_operations_syntax

definition fnv32a :: "bytes \<Rightarrow> uint32" where
  "fnv32a bs = foldl (\<lambda>h c. (h XOR word_of_nat (of_char c)) * 16777619) 2166136261 bs"

section \<open>Strings\<close>

definition HasPrefix :: "string \<Rightarrow> string \<Rightarrow> bool" where
  "HasPrefix s p \<longleftrightarrow> take (length p) s = p"

definition HasSuffix :: "string \<Rightarrow> string \<Rightarrow> bool" where
  "HasSuffix s p \<longleftrightarrow> length p \<le> length s \<and> drop (length s - length p) s = p"

text \<open>\<open>strings.Replace(s, "x", "y", -1)\<close> for one-byte strings.\<close>

definition replace_char :: "char \<Rightarrow> char \<Rightarrow> string \<Rightarrow> string" where
  "replace_char x y s = map (\<lambda>c. if c = x then y else c) s"

fun Join :: "string list \<Rightarrow> string \<Rightarrow> string" where
  "Join [] sep = []"
| "Join [s] sep = s"
| "Join (s # ss) sep = s @ sep @ Join ss sep"

lemma HasPrefix_append [simp]: "HasPrefix (p @ s) p"
  by (simp add: HasPrefix_def)

lemma HasPrefix_iff: "HasPrefix s p \<longleftrightarrow> (\<exists>t. s = p @ t)"
  by (auto simp: HasPrefix_def) (metis append_take_drop_id)

end
