(* ===== verification/CfgValidate.thy ===== *)
theory CfgValidate
  imports CrdTypes GoLib
begin

text \<open>
  The validation of custom resources: \<open>validateProbe\<close> (\<open>pkg/controller/utils.go\<close>),
  \<open>validateRewrites\<close> and \<open>validateReqDisps\<close> (\<open>pkg/controller/varnishconfig.go\<close>).  Each error
  message is a constructor with the values it prints.  For each validator there is a declarative
  predicate, and a lemma that the validator accepts exactly what satisfies it.
\<close>

datatype cfg_error =
    ThresholdAboveWindow
  | TargetNotDeletable string
  | MixedContexts string string
  | SelectNotPermitted string string
  | FlagsOnFixedString
  | DuplicateValue string
  | EmptyRewrite
  | SynthWithoutStatus
  | NoValuesOrCount string
  | ValuesAndCount string
  | IllegalValuesCompare string string
  | IllegalValuesComparand string "string list"
  | IllegalCountCompare string int64
  | IllegalCountComparand string int64

section \<open>Probes\<close>

definition validateProbe :: "ProbeSpec option \<Rightarrow> (cfg_error, unit) outcome" where
  "validateProbe probe =
     (case probe of
        None \<Rightarrow> Ok ()
      | Some p \<Rightarrow>
          (case (ps_Window p, ps_Threshold p) of
             (Some w, Some t) \<Rightarrow> oguard (sint t > sint w) ThresholdAboveWindow
           | _ \<Rightarrow> Ok ()))"

section \<open>Rewrites\<close>

text \<open>The inner loop over the rules, with the set \<open>vals\<close> of the values seen.\<close>

fun check_rules :: "string \<Rightarrow> string list \<Rightarrow> CfgRewriteRule list \<Rightarrow> (cfg_error, unit) outcome" where
  "check_rules method vals [] = Ok ()"
| "check_rules method vals (r # rs) =
     obind (oguard (crr_Value r \<in> set vals) (DuplicateValue (crr_Value r))) (\<lambda>_.
     obind (oguard (method \<noteq> vcr_Delete \<and> crr_Rewrite r = []) EmptyRewrite) (\<lambda>_.
     check_rules method (crr_Value r # vals) rs))"

definition non_case_flags :: "CfgMatchFlags \<Rightarrow> bool" where
  "non_case_flags f \<longleftrightarrow>
     (cmf_MaxMem f \<noteq> None \<and> cmf_MaxMem f \<noteq> Some 0)
     \<or> (cmf_Anchor f \<noteq> [] \<and> cmf_Anchor f \<noteq> vcr_None)
     \<or> cmf_UTF8 f \<or> cmf_PosixSyntax f \<or> cmf_LongestMatch f \<or> cmf_Literal f
     \<or> cmf_NeverCapture f \<or> cmf_PerlClasses f \<or> cmf_WordBoundary f"

definition validateRewrite :: "RewriteSpec \<Rightarrow> (cfg_error, unit) outcome" where
  "validateRewrite rw =
     obind (oguard (rs_Method rw = vcr_Delete \<and> HasSuffix (rs_Target rw) ''.url'')
              (TargetNotDeletable (rs_Target rw))) (\<lambda>_.
     obind (oguard (rs_Source rw \<noteq> []
                \<and> HasPrefix (rs_Target rw) ''be'' \<noteq> HasPrefix (rs_Source rw) ''be'')
              (MixedContexts (rs_Target rw) (rs_Source rw))) (\<lambda>_.
     obind (oguard (rs_Compare rw \<noteq> vcr_Prefix
                \<and> rs_Select rw \<in> {vcr_Exact, vcr_Longest, vcr_Shortest})
              (SelectNotPermitted (rs_Select rw) (rs_Compare rw))) (\<lambda>_.
     obind (oguard (rs_Compare rw \<noteq> vcr_Match
                \<and> (case rs_MatchFlags rw of None \<Rightarrow> False | Some f \<Rightarrow> non_case_flags f))
              FlagsOnFixedString) (\<lambda>_.
     check_rules (rs_Method rw) [] (rs_Rules rw)))))"

definition validateRewrites :: "RewriteSpec list \<Rightarrow> (cfg_error, unit) outcome" where
  "validateRewrites rewrites = oeach validateRewrite rewrites"

text \<open>What an accepted rewrite satisfies.\<close>

definition rewrite_valid :: "RewriteSpec \<Rightarrow> bool" where
  "rewrite_valid rw \<longleftrightarrow>
     (rs_Method rw = vcr_Delete \<longrightarrow> \<not> HasSuffix (rs_Target rw) ''.url'')
     \<and> (rs_Source rw = [] \<or> HasPrefix (rs_Target rw) ''be'' = HasPrefix (rs_Source rw) ''be'')
     \<and> (rs_Select rw \<in> {vcr_Exact, vcr_Longest, vcr_Shortest} \<longrightarrow> rs_Compare rw = vcr_Prefix)
     \<and> (\<forall>f. rs_MatchFlags rw = Some f \<and> non_case_flags f \<longrightarrow> rs_Compare rw = vcr_Match)
     \<and> distinct (map crr_Value (rs_Rules rw))
     \<and> (rs_Method rw \<noteq> vcr_Delete \<longrightarrow> (\<forall>r \<in> set (rs_Rules rw). crr_Rewrite r \<noteq> []))"

lemma check_rules_Ok_iff:
  "check_rules m vals rs = Ok () \<longleftrightarrow>
     distinct (map crr_Value rs) \<and> set (map crr_Value rs) \<inter> set vals = {}
     \<and> (m \<noteq> vcr_Delete \<longrightarrow> (\<forall>r \<in> set rs. crr_Rewrite r \<noteq> []))"
  by (induction rs arbitrary: vals) (auto simp: obind_Ok_iff)

lemma check_rules_no_Panic [simp]: "check_rules m vals rs \<noteq> Panic"
  by (induction rs arbitrary: vals) (auto simp: obind_Panic_iff)

lemma validateRewrite_Ok_iff: "validateRewrite rw = Ok () \<longleftrightarrow> rewrite_valid rw"
  unfolding validateRewrite_def rewrite_valid_def
  by (simp add: obind_Ok_iff check_rules_Ok_iff split: option.split) blast

lemma validateRewrites_Ok_iff:
  "validateRewrites rws = Ok () \<longleftrightarrow> (\<forall>rw \<in> set rws. rewrite_valid rw)"
  by (simp add: validateRewrites_def oeach_Ok_iff validateRewrite_Ok_iff)

lemma validateRewrites_no_Panic: "validateRewrites rws \<noteq> Panic"
  by (auto simp: validateRewrites_def validateRewrite_def obind_Panic_iff
        intro!: oeach_no_Panic)

section \<open>Request dispositions\<close>

definition ordering_compare :: "string \<Rightarrow> bool" where
  "ordering_compare c \<longleftrightarrow> c \<in> {vcr_Greater, vcr_GreaterEqual, vcr_Less, vcr_LessEqual}"

definition string_compare :: "string \<Rightarrow> bool" where
  "string_compare c \<longleftrightarrow>
     c \<in> {vcr_Match, vcr_NotMatch, vcr_Prefix, vcr_NotPrefix, vcr_Exists, vcr_NotExists}"

definition numeric_comparand :: "string \<Rightarrow> bool" where
  "numeric_comparand c \<longleftrightarrow> c \<in> {''req.esi_level'', ''req.restarts''}"

definition string_comparand :: "string \<Rightarrow> bool" where
  "string_comparand c \<longleftrightarrow>
     c \<in> {''req.url'', ''req.method'', ''req.proto''} \<or> HasPrefix c ''req.http''"

definition validateCondition :: "ReqCondition \<Rightarrow> (cfg_error, unit) outcome" where
  "validateCondition cond =
     obind (oguard (rc_Values cond = [] \<and> rc_Count cond = None
                \<and> rc_Compare cond \<noteq> vcr_Exists \<and> rc_Compare cond \<noteq> vcr_NotExists)
              (NoValuesOrCount (rc_Comparand cond))) (\<lambda>_.
     obind (oguard (rc_Values cond \<noteq> [] \<and> rc_Count cond \<noteq> None)
              (ValuesAndCount (rc_Comparand cond))) (\<lambda>_.
     obind (if rc_Values cond \<noteq> []
            then obind (oguard (ordering_compare (rc_Compare cond))
                          (IllegalValuesCompare (rc_Comparand cond) (rc_Compare cond))) (\<lambda>_.
                 oguard (numeric_comparand (rc_Comparand cond))
                   (IllegalValuesComparand (rc_Comparand cond) (rc_Values cond)))
            else Ok ()) (\<lambda>_.
     case rc_Count cond of
       None \<Rightarrow> Ok ()
     | Some n \<Rightarrow>
         obind (oguard (string_compare (rc_Compare cond))
                  (IllegalCountCompare (rc_Compare cond) n)) (\<lambda>_.
         oguard (string_comparand (rc_Comparand cond))
           (IllegalCountComparand (rc_Comparand cond) n)))))"

definition validateReqDisp :: "RequestDispSpec \<Rightarrow> (cfg_error, unit) outcome" where
  "validateReqDisp disp =
     obind (oguard (cd_Action (rd_Disposition disp) = vcr_RecvSynth
                \<and> cd_Status (rd_Disposition disp) = None) SynthWithoutStatus) (\<lambda>_.
     oeach validateCondition (rd_Conditions disp))"

definition validateReqDisps :: "RequestDispSpec list \<Rightarrow> (cfg_error, unit) outcome" where
  "validateReqDisps reqDisps = oeach validateReqDisp reqDisps"

text \<open>What an accepted condition satisfies: it is an existence test, a test against strings or a
  test against one number, and the comparison and the comparand suit its kind.\<close>

definition condition_valid :: "ReqCondition \<Rightarrow> bool" where
  "condition_valid c \<longleftrightarrow>
     (case (rc_Values c, rc_Count c) of
        ([], None) \<Rightarrow> rc_Compare c \<in> {vcr_Exists, vcr_NotExists}
      | (_ # _, None) \<Rightarrow>
          \<not> ordering_compare (rc_Compare c) \<and> \<not> numeric_comparand (rc_Comparand c)
      | ([], Some _) \<Rightarrow>
          \<not> string_compare (rc_Compare c) \<and> \<not> string_comparand (rc_Comparand c)
      | (_ # _, Some _) \<Rightarrow> False)"

definition reqdisp_valid :: "RequestDispSpec \<Rightarrow> bool" where
  "reqdisp_valid d \<longleftrightarrow>
     (cd_Action (rd_Disposition d) = vcr_RecvSynth \<longrightarrow> cd_Status (rd_Disposition d) \<noteq> None)
     \<and> (\<forall>c \<in> set (rd_Conditions d). condition_valid c)"

lemma validateCondition_Ok_iff: "validateCondition c = Ok () \<longleftrightarrow> condition_valid c"
  unfolding validateCondition_def condition_valid_def
  by (cases "rc_Values c"; cases "rc_Count c") (auto simp: obind_Ok_iff)

lemma validateReqDisp_Ok_iff: "validateReqDisp d = Ok () \<longleftrightarrow> reqdisp_valid d"
  by (auto simp: validateReqDisp_def reqdisp_valid_def obind_Ok_iff oeach_Ok_iff
        validateCondition_Ok_iff)

lemma validateReqDisps_Ok_iff:
  "validateReqDisps ds = Ok () \<longleftrightarrow> (\<forall>d \<in> set ds. reqdisp_valid d)"
  by (simp add: validateReqDisps_def oeach_Ok_iff validateReqDisp_Ok_iff)

end
