(* ===== verification/GoSort.thy ===== *)
theory GoSort
  imports GoLib
begin

text \<open>
  Go's \<open>sort\<close> package as the program uses it: \<open>sort.Strings\<close>, and \<open>sort.Stable\<close> with a
  caller-supplied \<open>Less\<close>.

  \<open>stable_sort\<close> is the insertion sort that \<open>sort.Stable\<close> runs on blocks of 20 elements: for each
  element from the left, swap it towards the front while it is less than its predecessor.  For a
  slice of at most 20 elements this is the library's code, whatever \<open>Less\<close> is.  For a longer one
  the library then merges the blocks; when \<open>Less\<close> is a strict weak order the documented result
  (sorted, equal elements in their original order) is unique, and \<open>stable_sort\<close> is that result.
\<close>

section \<open>The sort\<close>

text \<open>The already sorted prefix is kept reversed, so its last element is at the head.\<close>

fun sink :: "('a \<Rightarrow> 'a \<Rightarrow> bool) \<Rightarrow> 'a \<Rightarrow> 'a list \<Rightarrow> 'a list" where
  "sink lt x [] = [x]"
| "sink lt x (y # ys) = (if lt x y then y # sink lt x ys else x # y # ys)"

definition stable_sort :: "('a \<Rightarrow> 'a \<Rightarrow> bool) \<Rightarrow> 'a list \<Rightarrow> 'a list" where
  "stable_sort lt xs = rev (fold (sink lt) xs [])"

definition sort_strings :: "string list \<Rightarrow> string list" where
  "sort_strings xs = sort xs"

lemma mset_sink [simp]: "mset (sink lt x ys) = add_mset x (mset ys)"
  by (induction ys) auto

lemma mset_fold_sink: "mset (fold (sink lt) xs acc) = mset xs + mset acc"
  by (induction xs arbitrary: acc) auto

lemma mset_stable_sort [simp]: "mset (stable_sort lt xs) = mset xs"
  by (simp add: stable_sort_def mset_fold_sink)

lemma set_stable_sort [simp]: "set (stable_sort lt xs) = set xs"
  by (metis mset_stable_sort set_mset_mset)

lemma length_stable_sort [simp]: "length (stable_sort lt xs) = length xs"
  by (metis mset_stable_sort size_mset)

lemma stable_sort_Nil [simp]: "stable_sort lt [] = []"
  by (simp add: stable_sort_def)

text \<open>A map that leaves the comparison alone commutes with the sort.\<close>

lemma sink_map:
  "(\<And>a b. lt (f a) (f b) = lt a b) \<Longrightarrow> sink lt (f x) (map f ys) = map f (sink lt x ys)"
  by (induction ys) auto

lemma stable_sort_map:
  assumes "\<And>a b. lt (f a) (f b) = lt a b"
  shows "stable_sort lt (map f xs) = map f (stable_sort lt xs)"
proof -
  have "fold (sink lt) (map f xs) (map f acc) = map f (fold (sink lt) xs acc)" for acc
    using assms by (induction xs arbitrary: acc) (simp_all add: sink_map)
  from this [of "[]"] show ?thesis by (simp add: stable_sort_def rev_map)
qed

lemma mset_sort_strings [simp]: "mset (sort_strings xs) = mset xs"
  by (simp add: sort_strings_def)

lemma sort_strings_canonical: "mset xs = mset ys \<Longrightarrow> sort_strings xs = sort_strings ys"
  unfolding sort_strings_def
  by (metis properties_for_sort sorted_sort mset_sort)

lemma sort_strings_idem [simp]: "sort_strings (sort_strings xs) = sort_strings xs"
  by (rule sort_strings_canonical) simp

section \<open>Sorting by a strict weak order\<close>

text \<open>
  The contract of \<open>Less\<close>, restricted to the elements satisfying \<open>D\<close>: asymmetric and negatively
  transitive.
\<close>

locale weak_order =
  fixes lt :: "'a \<Rightarrow> 'a \<Rightarrow> bool" and D :: "'a \<Rightarrow> bool"
  assumes asym: "D a \<Longrightarrow> D b \<Longrightarrow> lt a b \<Longrightarrow> \<not> lt b a"
    and neg_trans: "D a \<Longrightarrow> D b \<Longrightarrow> D c \<Longrightarrow> lt a c \<Longrightarrow> lt a b \<or> lt b c"
begin

lemma not_less_trans:
  "D a \<Longrightarrow> D b \<Longrightarrow> D c \<Longrightarrow> \<not> lt b a \<Longrightarrow> \<not> lt c b \<Longrightarrow> \<not> lt c a"
  using neg_trans by blast

lemma sink_sorted:
  "sorted_wrt (\<lambda>a b. \<not> lt a b) ys \<Longrightarrow> D x \<Longrightarrow> list_all D ys \<Longrightarrow>
   sorted_wrt (\<lambda>a b. \<not> lt a b) (sink lt x ys)"
proof (induction ys)
  case Nil
  then show ?case by simp
next
  case (Cons y ys)
  have set_sink: "set (sink lt x ys) = insert x (set ys)"
    by (metis mset_sink set_mset_add_mset_insert set_mset_mset)
  from Cons show ?case
    by (auto simp: set_sink list_all_iff dest: asym not_less_trans [of _ y x])
qed

lemma fold_sink_sorted:
  "sorted_wrt (\<lambda>a b. \<not> lt a b) acc \<Longrightarrow> list_all D acc \<Longrightarrow> list_all D xs \<Longrightarrow>
   sorted_wrt (\<lambda>a b. \<not> lt a b) (fold (sink lt) xs acc)"
proof (induction xs arbitrary: acc)
  case Nil
  then show ?case by simp
next
  case (Cons x xs)
  have "set (sink lt x acc) = insert x (set acc)"
    by (metis mset_sink set_mset_add_mset_insert set_mset_mset)
  with Cons.prems have "list_all D (sink lt x acc)" by (simp add: list_all_iff)
  with Cons show ?case by (simp add: sink_sorted)
qed

text \<open>The result is sorted: no element is less than one before it.\<close>

lemma stable_sort_sorted:
  "list_all D xs \<Longrightarrow> sorted_wrt (\<lambda>a b. \<not> lt b a) (stable_sort lt xs)"
  unfolding stable_sort_def
  by (simp add: sorted_wrt_rev fold_sink_sorted)

text \<open>A sorted list is left alone, so sorting twice is sorting once.\<close>

lemma fold_sink_sorted_id:
  "sorted_wrt (\<lambda>a b. \<not> lt b a) (rev acc @ xs) \<Longrightarrow> fold (sink lt) xs acc = rev xs @ acc"
proof (induction xs arbitrary: acc)
  case Nil
  then show ?case by simp
next
  case (Cons x xs)
  have "sink lt x acc = x # acc"
    using Cons.prems by (cases acc) (auto simp: sorted_wrt_append)
  moreover have "sorted_wrt (\<lambda>a b. \<not> lt b a) (rev (x # acc) @ xs)"
    using Cons.prems by simp
  ultimately show ?case using Cons.IH [of "x # acc"] by simp
qed

lemma stable_sort_id: "sorted_wrt (\<lambda>a b. \<not> lt b a) xs \<Longrightarrow> stable_sort lt xs = xs"
  using fold_sink_sorted_id [of "[]" xs] by (simp add: stable_sort_def)

lemma stable_sort_idem: "list_all D xs \<Longrightarrow> stable_sort lt (stable_sort lt xs) = stable_sort lt xs"
  by (simp add: stable_sort_id stable_sort_sorted)

text \<open>Elements that are equal under \<open>lt\<close> keep their order.\<close>

lemma sink_filter_other:
  "\<not> P x \<Longrightarrow> filter P (sink lt x ys) = filter P ys"
  by (induction ys) auto

lemma sink_filter_eqv:
  assumes "\<And>y. y \<in> set ys \<Longrightarrow> P y \<Longrightarrow> \<not> lt x y" and "P x"
  shows "sorted_wrt (\<lambda>a b. \<not> lt a b) ys \<Longrightarrow> filter P (sink lt x ys) = x # filter P ys"
  using assms by (induction ys) auto

lemma stable_sort_stable:
  assumes D: "list_all D xs" and eqv: "\<And>a b. D a \<Longrightarrow> D b \<Longrightarrow> P a \<Longrightarrow> P b \<Longrightarrow> \<not> lt a b"
  shows "filter P (stable_sort lt xs) = filter P xs"
proof -
  have "filter P (fold (sink lt) xs acc) = rev (filter P xs) @ filter P acc"
    if "list_all D xs" "list_all D acc" "sorted_wrt (\<lambda>a b. \<not> lt a b) acc" for acc
    using that
  proof (induction xs arbitrary: acc)
    case Nil
    then show ?case by simp
  next
    case (Cons x xs)
    have st: "set (sink lt x acc) = insert x (set acc)"
      by (metis mset_sink set_mset_add_mset_insert set_mset_mset)
    have D': "list_all D (sink lt x acc)" and Dx: "D x"
      using Cons.prems st by (simp_all add: list_all_iff)
    have "filter P (sink lt x acc) = (if P x then x # filter P acc else filter P acc)"
      using sink_filter_eqv [of acc P x] sink_filter_other [of P x acc] Cons.prems eqv Dx
      by (auto simp: list_all_iff)
    moreover have "sorted_wrt (\<lambda>a b. \<not> lt a b) (sink lt x acc)"
      using Cons.prems Dx by (simp add: sink_sorted)
    ultimately show ?case using Cons.IH [OF _ D'] Cons.prems by simp
  qed
  from this [of "[]"] D show ?thesis by (simp add: stable_sort_def flip: rev_filter)
qed

text \<open>
  Where distinct elements are never equal under \<open>lt\<close>, the result depends on the multiset of
  elements only: the sort is a canonical form.
\<close>

lemma sorted_unique:
  assumes "mset xs = mset ys" and "list_all D xs"
    and "sorted_wrt (\<lambda>a b. \<not> lt b a) xs" and "sorted_wrt (\<lambda>a b. \<not> lt b a) ys"
    and "\<And>a b. a \<in> set xs \<Longrightarrow> b \<in> set xs \<Longrightarrow> \<not> lt a b \<Longrightarrow> \<not> lt b a \<Longrightarrow> a = b"
  shows "xs = ys"
  using assms
proof (induction xs arbitrary: ys)
  case Nil
  then show ?case by simp
next
  case (Cons x xs)
  then obtain y ys' where ys: "ys = y # ys'"
    by (cases ys) auto
  have sets: "set (x # xs) = set ys" using Cons.prems(1) by (metis set_mset_mset)
  have "\<not> lt y x"
  proof (cases "x = y")
    case True
    then show ?thesis using Cons.prems(2) asym by auto
  next
    case False
    then have "y \<in> set xs" using sets ys by auto
    with Cons.prems(3) show ?thesis by simp
  qed
  moreover have "\<not> lt x y"
  proof (cases "x = y")
    case True
    then show ?thesis using Cons.prems(2) asym by auto
  next
    case False
    then have "x \<in> set ys'" using sets ys by auto
    with Cons.prems(4) ys show ?thesis by simp
  qed
  moreover have "y \<in> set (x # xs)" using sets ys by simp
  ultimately have "x = y" using Cons.prems(5) [of x y] by simp
  moreover have "xs = ys'"
    using Cons.IH [of ys'] Cons.prems \<open>x = y\<close> ys by simp
  ultimately show ?case by (simp add: ys)
qed

lemma stable_sort_canonical:
  assumes "mset xs = mset ys" and "list_all D xs"
    and "\<And>a b. a \<in> set xs \<Longrightarrow> b \<in> set xs \<Longrightarrow> \<not> lt a b \<Longrightarrow> \<not> lt b a \<Longrightarrow> a = b"
  shows "stable_sort lt xs = stable_sort lt ys"
proof (rule sorted_unique)
  have "set xs = set ys" using assms(1) by (metis set_mset_mset)
  then have "list_all D ys" using assms(2) by (simp add: list_all_iff)
  then show "sorted_wrt (\<lambda>a b. \<not> lt b a) (stable_sort lt ys)" by (rule stable_sort_sorted)
  show "sorted_wrt (\<lambda>a b. \<not> lt b a) (stable_sort lt xs)" using assms(2) by (rule stable_sort_sorted)
  show "mset (stable_sort lt xs) = mset (stable_sort lt ys)" using assms(1) by simp
  show "list_all D (stable_sort lt xs)" using assms(2) by (simp add: list_all_iff)
  show "a = b" if "a \<in> set (stable_sort lt xs)" "b \<in> set (stable_sort lt xs)"
    "\<not> lt a b" "\<not> lt b a" for a b
    using assms(3) that by simp
qed

text \<open>
  Normalising each element by \<open>f\<close> after the sort: lists that agree up to order and up to what
  \<open>f\<close> identifies have the same result.
\<close>

lemma stable_sort_normal_form:
  assumes perm: "mset zs = mset xs" and rel: "list_all2 R zs ys" and D: "list_all D xs"
    and total: "\<And>a b. a \<in> set xs \<Longrightarrow> b \<in> set xs \<Longrightarrow> \<not> lt a b \<Longrightarrow> \<not> lt b a \<Longrightarrow> a = b"
    and norm: "\<And>a b. a \<in> set xs \<Longrightarrow> R a b \<Longrightarrow> f a = f b"
    and keys: "\<And>a b. lt (f a) (f b) = lt a b"
  shows "map f (stable_sort lt xs) = map f (stable_sort lt ys)"
proof -
  have sets: "set zs = set xs" using perm by (metis set_mset_mset)
  have "map f zs = map f ys"
  proof (rule nth_equalityI)
    show "length (map f zs) = length (map f ys)" using rel by (simp add: list_all2_lengthD)
    fix i assume "i < length (map f zs)"
    then have i: "i < length zs" by simp
    then have "zs ! i \<in> set xs" unfolding sets [symmetric] by (rule nth_mem)
    moreover have "R (zs ! i) (ys ! i)" using rel i by (rule list_all2_nthD)
    ultimately have "f (zs ! i) = f (ys ! i)" by (rule norm)
    with i show "map f zs ! i = map f ys ! i"
      using list_all2_lengthD [OF rel] by simp
  qed
  have "stable_sort lt xs = stable_sort lt zs"
    by (rule stable_sort_canonical [OF perm [symmetric] D total])
  then have "map f (stable_sort lt xs) = map f (stable_sort lt zs)" by (rule arg_cong)
  also have "\<dots> = stable_sort lt (map f zs)" by (rule stable_sort_map [symmetric]) (rule keys)
  also have "\<dots> = stable_sort lt (map f ys)" by (simp only: \<open>map f zs = map f ys\<close>)
  also have "\<dots> = map f (stable_sort lt ys)" by (rule stable_sort_map) (rule keys)
  finally show ?thesis .
qed

end

end
