(* ===== verification/VclSpec.thy ===== *)
theory VclSpec
  imports GoSort
begin

text \<open>
  The data model of \<open>pkg/varnish/vcl/spec.go\<close>: the specification of a VCL configuration, the bytes
  each part feeds to the configuration hash (\<open>hash\<close> methods), and the \<open>Less\<close> methods of the sort
  wrappers.  Field names carry a prefix for their struct.  A pointer to a struct is an option.
\<close>

section \<open>Addresses\<close>

record Address =
  addr_IP :: string
  addr_Port :: int32

definition Address_hash :: "Address \<Rightarrow> bytes" where
  "Address_hash addr = addr_IP addr @ put_uint32 (addr_Port addr)"

definition byIPPort_Less :: "Address \<Rightarrow> Address \<Rightarrow> bool" where
  "byIPPort_Less a b =
     (if addr_IP a < addr_IP b then True else sint (addr_Port a) < sint (addr_Port b))"

section \<open>Directors\<close>

text \<open>\<open>DirectorType\<close> is a \<open>uint8\<close>; the program makes the three constants and 255.\<close>

datatype DirectorType = RoundRobin | Random | Shard | InvalidDirector

fun DirectorType_byte :: "DirectorType \<Rightarrow> uint8" where
  "DirectorType_byte RoundRobin = 0"
| "DirectorType_byte Random = 1"
| "DirectorType_byte Shard = 2"
| "DirectorType_byte InvalidDirector = 255"

fun DirectorType_String :: "DirectorType \<Rightarrow> string" where
  "DirectorType_String RoundRobin = ''round_robin''"
| "DirectorType_String Random = ''random''"
| "DirectorType_String Shard = ''shard''"
| "DirectorType_String InvalidDirector = ''__INVALID_DIRECTOR_TYPE__''"

definition GetDirectorType :: "string \<Rightarrow> DirectorType" where
  "GetDirectorType dirStr =
     (if dirStr = ''round-robin'' then RoundRobin
      else if dirStr = ''random'' then Random
      else if dirStr = ''shard'' then Shard
      else InvalidDirector)"

text \<open>
  \<open>Warmup\<close> is a \<open>float64\<close> whose only values in the program are \<open>float64(w) / 100.0\<close> for an
  \<open>int32\<close> \<open>w\<close> (\<open>getVCLSvc\<close>); the model keeps \<open>w\<close>.  \<open>float64bits_pct\<close> is \<open>math.Float64bits\<close> of
  that quotient: the IEEE-754 double nearest to \<open>w/100\<close>, ties to even.
\<close>

definition round_half_even :: "nat \<Rightarrow> nat \<Rightarrow> nat" where
  "round_half_even n d =
     (let q = n div d; r = n mod d
      in if 2 * r < d then q else if 2 * r > d then Suc q else if even q then q else Suc q)"

text \<open>
  The exponent \<open>e - 7\<close> with \<open>2 ^ e \<le> 128 * w / 100 < 2 ^ (e + 1)\<close>; \<open>w \<ge> 1\<close> makes \<open>e \<ge> 0\<close>.
\<close>

fun log2_floor :: "nat \<Rightarrow> nat" where
  "log2_floor n = (if n < 2 then 0 else Suc (log2_floor (n div 2)))"

declare log2_floor.simps [simp del]

definition float64bits_pct :: "int32 \<Rightarrow> uint64" where
  "float64bits_pct w =
     (let a = nat \<bar>sint w\<bar>; sgnbit = (if sint w < 0 then 2 ^ 63 else 0 :: nat)
      in if a = 0 then 0
         else
           let e = log2_floor (128 * a div 100);
               m = round_half_even (a * 2 ^ 59) (100 * 2 ^ e);
               e' = (if m = 2 ^ 53 then Suc e else e);
               m' = (if m = 2 ^ 53 then 2 ^ 52 else m)
           in word_of_nat (sgnbit + (1016 + e') * 2 ^ 52 + (m' - 2 ^ 52)))"

record Director =
  dir_Rampup :: string
  dir_Warmup :: int32
  dir_Type :: DirectorType

definition Director_hash :: "Director \<Rightarrow> bytes" where
  "Director_hash dir =
     dir_Rampup dir @ put_uint64 (float64bits_pct (dir_Warmup dir))
     @ [char_of (unat (DirectorType_byte (dir_Type dir)))]"

section \<open>Probes\<close>

record Probe =
  probe_URL :: string
  probe_Request :: "string list"
  probe_ExpResponse :: uint16
  probe_Timeout :: string
  probe_Interval :: string
  probe_Initial :: string
  probe_Window :: string
  probe_Threshold :: string

definition Probe_hash :: "Probe \<Rightarrow> bytes" where
  "Probe_hash probe =
     probe_URL probe @ concat (probe_Request probe) @ put_uint16 (probe_ExpResponse probe)
     @ probe_Timeout probe @ probe_Interval probe @ probe_Initial probe
     @ probe_Window probe @ probe_Threshold probe"

section \<open>Services and rules\<close>

record Service =
  svc_Name :: string
  svc_Addresses :: "Address list"
  svc_Probe :: "Probe option"
  svc_Director :: "Director option"
  svc_HostHeader :: string
  svc_ConnectTimeout :: string
  svc_FirstByteTimeout :: string
  svc_BetweenBytesTimeout :: string
  svc_MaxConnections :: uint32
  svc_ProxyHeader :: uint8

definition opt_hash :: "('a \<Rightarrow> bytes) \<Rightarrow> 'a option \<Rightarrow> bytes" where
  "opt_hash h x = (case x of None \<Rightarrow> [] | Some y \<Rightarrow> h y)"

definition Service_hash :: "Service \<Rightarrow> bytes" where
  "Service_hash svc =
     svc_Name svc
     @ concat (map Address_hash (svc_Addresses svc))
     @ opt_hash Probe_hash (svc_Probe svc)
     @ opt_hash Director_hash (svc_Director svc)
     @ svc_HostHeader svc @ svc_ConnectTimeout svc @ svc_FirstByteTimeout svc
     @ svc_BetweenBytesTimeout svc
     @ [char_of (unat (svc_ProxyHeader svc))]
     @ put_uint32 (svc_MaxConnections svc)"

definition byName_Less :: "Service \<Rightarrow> Service \<Rightarrow> bool" where
  "byName_Less a b \<longleftrightarrow> svc_Name a < svc_Name b"

definition zero_Service :: Service where
  "zero_Service = \<lparr>svc_Name = [], svc_Addresses = [], svc_Probe = None, svc_Director = None,
     svc_HostHeader = [], svc_ConnectTimeout = [], svc_FirstByteTimeout = [],
     svc_BetweenBytesTimeout = [], svc_MaxConnections = 0, svc_ProxyHeader = 0\<rparr>"

record Rule =
  rule_Host :: string
  rule_PathMap :: "Service gomap"

text \<open>The keys of the path map are sorted before they are hashed; the model's maps are sorted.\<close>

definition Rule_hash :: "Rule \<Rightarrow> bytes" where
  "Rule_hash rule =
     rule_Host rule @ concat (map (\<lambda>(p, svc). p @ Service_hash svc) (rule_PathMap rule))"

definition byHost_Less :: "Rule \<Rightarrow> Rule \<Rightarrow> bool" where
  "byHost_Less a b \<longleftrightarrow> rule_Host a < rule_Host b"

section \<open>Self-sharding\<close>

record ShardCluster =
  shard_Nodes :: "Service list"
  shard_Probe :: Probe
  shard_MaxSecondaryTTL :: string

definition ShardCluster_hash :: "ShardCluster \<Rightarrow> bytes" where
  "ShardCluster_hash shard =
     concat (map Service_hash (shard_Nodes shard)) @ Probe_hash (shard_Probe shard)
     @ shard_MaxSecondaryTTL shard"

definition zero_Probe :: Probe where
  "zero_Probe = \<lparr>probe_URL = [], probe_Request = [], probe_ExpResponse = 0, probe_Timeout = [],
     probe_Interval = [], probe_Initial = [], probe_Window = [], probe_Threshold = []\<rparr>"

definition zero_ShardCluster :: ShardCluster where
  "zero_ShardCluster =
     \<lparr>shard_Nodes = [], shard_Probe = zero_Probe, shard_MaxSecondaryTTL = []\<rparr>"

section \<open>Match terms\<close>

datatype CompareType =
  Equal | Match | Prefix | Exists | Greater | GreaterEqual | Less | LessEqual

fun CompareType_byte :: "CompareType \<Rightarrow> uint8" where
  "CompareType_byte Equal = 0"
| "CompareType_byte Match = 1"
| "CompareType_byte Prefix = 2"
| "CompareType_byte Exists = 3"
| "CompareType_byte Greater = 4"
| "CompareType_byte GreaterEqual = 5"
| "CompareType_byte Less = 6"
| "CompareType_byte LessEqual = 7"

record MatchTerm =
  mt_Comparand :: string
  mt_Value :: string
  mt_Compare :: CompareType
  mt_Negate :: bool

definition byte_of :: "uint8 \<Rightarrow> bytes" where
  "byte_of w = [char_of (unat w)]"

definition bool_byte :: "bool \<Rightarrow> bytes" where
  "bool_byte b = byte_of (if b then 1 else 0)"

definition MatchTerm_hash :: "MatchTerm \<Rightarrow> bytes" where
  "MatchTerm_hash m =
     mt_Comparand m @ mt_Value m @ byte_of (CompareType_byte (mt_Compare m))
     @ bool_byte (mt_Negate m)"

definition byComparand_Less :: "MatchTerm \<Rightarrow> MatchTerm \<Rightarrow> bool" where
  "byComparand_Less a b \<longleftrightarrow> mt_Comparand a < mt_Comparand b"

section \<open>Authentication\<close>

datatype AuthStatus = Basic | Proxy

fun AuthStatus_code :: "AuthStatus \<Rightarrow> uint16" where
  "AuthStatus_code Basic = 401"
| "AuthStatus_code Proxy = 407"

record Auth =
  auth_Conditions :: "MatchTerm list"
  auth_Credentials :: "string list"
  auth_Realm :: string
  auth_Status :: AuthStatus
  auth_UTF8 :: bool

definition flag_hash :: "bool \<Rightarrow> string \<Rightarrow> bytes" where
  "flag_hash b s = (if b then s else [])"

definition Auth_hash :: "Auth \<Rightarrow> bytes" where
  "Auth_hash auth =
     auth_Realm auth @ concat (auth_Credentials auth)
     @ put_uint16 (AuthStatus_code (auth_Status auth))
     @ concat (map MatchTerm_hash (auth_Conditions auth))
     @ flag_hash (auth_UTF8 auth) ''UTF8''"

definition byRealm_Less :: "Auth \<Rightarrow> Auth \<Rightarrow> bool" where
  "byRealm_Less a b \<longleftrightarrow> auth_Realm a < auth_Realm b"

section \<open>Access control lists\<close>

definition NoMaskBits :: uint8 where "NoMaskBits = 255"

record ACLAddress =
  acla_Addr :: string
  acla_MaskBits :: uint8
  acla_Negate :: bool

definition ACLAddress_hash :: "ACLAddress \<Rightarrow> bytes" where
  "ACLAddress_hash addr =
     acla_Addr addr @ byte_of (acla_MaskBits addr) @ flag_hash (acla_Negate addr) ''Negate''"

definition byACLAddr_Less :: "ACLAddress \<Rightarrow> ACLAddress \<Rightarrow> bool" where
  "byACLAddr_Less a b \<longleftrightarrow> acla_Addr a < acla_Addr b"

record ResultHdrType =
  rh_Header :: string
  rh_Success :: string
  rh_Failure :: string

definition ResultHdr_hash :: "ResultHdrType \<Rightarrow> bytes" where
  "ResultHdr_hash r = rh_Header r @ rh_Success r @ rh_Failure r"

definition zero_ResultHdr :: ResultHdrType where
  "zero_ResultHdr = \<lparr>rh_Header = [], rh_Success = [], rh_Failure = []\<rparr>"

record ACL =
  acl_Name :: string
  acl_Comparand :: string
  acl_FailStatus :: uint16
  acl_Whitelist :: bool
  acl_Addresses :: "ACLAddress list"
  acl_Conditions :: "MatchTerm list"
  acl_ResultHdr :: ResultHdrType

text \<open>As in the source, \<open>Whitelist\<close> does not enter the hash.\<close>

definition ACL_hash :: "ACL \<Rightarrow> bytes" where
  "ACL_hash acl =
     acl_Name acl @ acl_Comparand acl @ put_uint16 (acl_FailStatus acl)
     @ concat (map ACLAddress_hash (acl_Addresses acl))
     @ concat (map MatchTerm_hash (acl_Conditions acl))
     @ ResultHdr_hash (acl_ResultHdr acl)"

definition byACLName_Less :: "ACL \<Rightarrow> ACL \<Rightarrow> bool" where
  "byACLName_Less a b \<longleftrightarrow> acl_Name a < acl_Name b"

section \<open>Rewrites\<close>

record RewriteRule =
  rwr_Value :: string
  rwr_Rewrite :: string

datatype MethodType = Replace | Sub | Suball | RewriteMethod | Append | Prepend | Delete

fun MethodType_byte :: "MethodType \<Rightarrow> uint8" where
  "MethodType_byte Replace = 0"
| "MethodType_byte Sub = 1"
| "MethodType_byte Suball = 2"
| "MethodType_byte RewriteMethod = 3"
| "MethodType_byte Append = 4"
| "MethodType_byte Prepend = 5"
| "MethodType_byte Delete = 6"

datatype SubType =
  Unspecified | Recv | Pipe | Pass | Hash | Purge | Miss | Hit | Deliver | Synth
  | BackendFetch | BackendResponse | BackendError

fun SubType_byte :: "SubType \<Rightarrow> uint8" where
  "SubType_byte Unspecified = 0"
| "SubType_byte Recv = 1"
| "SubType_byte Pipe = 2"
| "SubType_byte Pass = 3"
| "SubType_byte Hash = 4"
| "SubType_byte Purge = 5"
| "SubType_byte Miss = 6"
| "SubType_byte Hit = 7"
| "SubType_byte Deliver = 8"
| "SubType_byte Synth = 9"
| "SubType_byte BackendFetch = 10"
| "SubType_byte BackendResponse = 11"
| "SubType_byte BackendError = 12"

datatype AnchorType = AnchorNone | AnchorStart | AnchorBoth

fun AnchorType_byte :: "AnchorType \<Rightarrow> uint8" where
  "AnchorType_byte AnchorNone = 0"
| "AnchorType_byte AnchorStart = 1"
| "AnchorType_byte AnchorBoth = 2"

record MatchFlagsType =
  mf_MaxMem :: uint64
  mf_Anchor :: AnchorType
  mf_UTF8 :: bool
  mf_PosixSyntax :: bool
  mf_LongestMatch :: bool
  mf_Literal :: bool
  mf_NeverCapture :: bool
  mf_CaseSensitive :: bool
  mf_PerlClasses :: bool
  mf_WordBoundary :: bool

definition zero_MatchFlags :: MatchFlagsType where
  "zero_MatchFlags = \<lparr>mf_MaxMem = 0, mf_Anchor = AnchorNone, mf_UTF8 = False,
     mf_PosixSyntax = False, mf_LongestMatch = False, mf_Literal = False,
     mf_NeverCapture = False, mf_CaseSensitive = False, mf_PerlClasses = False,
     mf_WordBoundary = False\<rparr>"

definition MatchFlags_hash :: "MatchFlagsType \<Rightarrow> bytes" where
  "MatchFlags_hash flags =
     put_uint64 (mf_MaxMem flags) @ byte_of (AnchorType_byte (mf_Anchor flags))
     @ flag_hash (mf_UTF8 flags) ''UTF8''
     @ flag_hash (mf_PosixSyntax flags) ''PosixSyntax''
     @ flag_hash (mf_LongestMatch flags) ''LongestMatch''
     @ flag_hash (mf_Literal flags) ''Literal''
     @ flag_hash (mf_NeverCapture flags) ''NeverCapture''
     @ flag_hash (mf_CaseSensitive flags) ''CaseSensitive''
     @ flag_hash (mf_PerlClasses flags) ''PerlClasses''
     @ flag_hash (mf_WordBoundary flags) ''WordBoundary''"

datatype SelectType = Unique | First | Last | Exact | Longest | Shortest

fun SelectType_byte :: "SelectType \<Rightarrow> uint8" where
  "SelectType_byte Unique = 0"
| "SelectType_byte First = 1"
| "SelectType_byte Last = 2"
| "SelectType_byte Exact = 3"
| "SelectType_byte Longest = 4"
| "SelectType_byte Shortest = 5"

fun SelectType_String :: "SelectType \<Rightarrow> string" where
  "SelectType_String Unique = ''UNIQUE''"
| "SelectType_String First = ''FIRST''"
| "SelectType_String Last = ''LAST''"
| "SelectType_String Exact = ''EXACT''"
| "SelectType_String Longest = ''LONGEST''"
| "SelectType_String Shortest = ''SHORTEST''"

record Rewrite =
  rw_Rules :: "RewriteRule list"
  rw_MatchFlags :: MatchFlagsType
  rw_Target :: string
  rw_Source :: string
  rw_Method :: MethodType
  rw_Compare :: CompareType
  rw_Negate :: bool
  rw_VCLSub :: SubType
  rw_Select :: SelectType

definition Rewrite_hash :: "Rewrite \<Rightarrow> bytes" where
  "Rewrite_hash rw =
     concat (map (\<lambda>r. rwr_Value r @ rwr_Rewrite r) (rw_Rules rw))
     @ MatchFlags_hash (rw_MatchFlags rw)
     @ rw_Target rw @ rw_Source rw
     @ byte_of (MethodType_byte (rw_Method rw))
     @ byte_of (CompareType_byte (rw_Compare rw))
     @ bool_byte (rw_Negate rw)
     @ byte_of (SubType_byte (rw_VCLSub rw))
     @ byte_of (SelectType_byte (rw_Select rw))"

definition byVCLSub_Less :: "Rewrite \<Rightarrow> Rewrite \<Rightarrow> bool" where
  "byVCLSub_Less a b \<longleftrightarrow> SubType_byte (rw_VCLSub a) < SubType_byte (rw_VCLSub b)"

section \<open>Request dispositions\<close>

record Condition =
  cond_Values :: "string list"
  cond_MatchFlags :: MatchFlagsType
  cond_Count :: "uint64 option"
  cond_Comparand :: string
  cond_Compare :: CompareType
  cond_Negate :: bool

text \<open>\<open>RecvReturn\<close> is a string type; these are its constants.\<close>

abbreviation "RecvHash \<equiv> ''hash''"
abbreviation "RecvPass \<equiv> ''pass''"
abbreviation "RecvPipe \<equiv> ''pipe''"
abbreviation "RecvPurge \<equiv> ''purge''"
abbreviation "RecvSynth \<equiv> ''synth''"
abbreviation "RecvFail \<equiv> ''fail''"
abbreviation "RecvRestart \<equiv> ''restart''"

record DispositionType =
  dt_Action :: string
  dt_Status :: uint16
  dt_Reason :: string

record DispositionSpec =
  disp_Conditions :: "Condition list"
  disp_Disposition :: DispositionType

definition Condition_hash :: "Condition \<Rightarrow> bytes" where
  "Condition_hash cond =
     concat (cond_Values cond)
     @ MatchFlags_hash (cond_MatchFlags cond)
     @ opt_hash put_uint64 (cond_Count cond)
     @ cond_Comparand cond
     @ byte_of (CompareType_byte (cond_Compare cond))
     @ bool_byte (cond_Negate cond)"

text \<open>As in the source, the reason of a synthetic response does not enter the hash.\<close>

definition DispositionSpec_hash :: "DispositionSpec \<Rightarrow> bytes" where
  "DispositionSpec_hash d =
     concat (map Condition_hash (disp_Conditions d))
     @ dt_Action (disp_Disposition d)
     @ (if dt_Action (disp_Disposition d) = RecvSynth
        then put_uint16 (dt_Status (disp_Disposition d)) else [])"

section \<open>The specification\<close>

record Spec =
  sp_DefaultService :: Service
  sp_Rules :: "Rule list"
  sp_AllServices :: "Service gomap"
  sp_ShardCluster :: ShardCluster
  sp_Auths :: "Auth list"
  sp_VCL :: string
  sp_ACLs :: "ACL list"
  sp_Rewrites :: "Rewrite list"
  sp_Dispositions :: "DispositionSpec list"

definition zero_Spec :: Spec where
  "zero_Spec = \<lparr>sp_DefaultService = zero_Service, sp_Rules = [], sp_AllServices = [],
     sp_ShardCluster = zero_ShardCluster, sp_Auths = [], sp_VCL = [], sp_ACLs = [],
     sp_Rewrites = [], sp_Dispositions = []\<rparr>"

text \<open>
  The bytes written to the hash by \<open>DeepHash\<close>, in the order of the calls; the hash of a Go
  \<open>hash.Hash\<close> depends on their concatenation only.
\<close>

definition Spec_stream :: "Spec \<Rightarrow> bytes" where
  "Spec_stream spec =
     Service_hash (sp_DefaultService spec)
     @ concat (map Rule_hash (sp_Rules spec))
     @ concat (map (\<lambda>(k, svc). k @ Service_hash svc) (sp_AllServices spec))
     @ ShardCluster_hash (sp_ShardCluster spec)
     @ sp_VCL spec
     @ concat (map Auth_hash (sp_Auths spec))
     @ concat (map ACL_hash (sp_ACLs spec))
     @ concat (map Rewrite_hash (sp_Rewrites spec))
     @ concat (map DispositionSpec_hash (sp_Dispositions spec))"

end
