(* ===== verification/K8sObjects.thy ===== *)
theory K8sObjects
  imports CrdTypes CfgValidate VclSpec
begin

text \<open>
  The Kubernetes objects the controller reads, with the fields it reads, and the API it reads
  them through.  The listers (\<open>client-go\<close>) and the Pod query are code outside the repository: they
  are a record of functions, an argument of every operation that uses them, and each call returns
  an error or a value.  The lookups of \<open>pkg/controller/utils.go\<close> are translated here.

  Objects of a client cache are shared by pointer and the source compares such pointers
  (\<open>map[*api_v1.Service]\<close>); \<open>ks_Ptr\<close> is the address of the cached object.
\<close>

section \<open>Objects\<close>

datatype IntOrStringType = TInt | TString

record IntOrString =
  ios_Type :: IntOrStringType
  ios_IntVal :: int32
  ios_StrVal :: string

definition zero_IntOrString :: IntOrString where
  "zero_IntOrString = \<lparr>ios_Type = TInt, ios_IntVal = 0, ios_StrVal = []\<rparr>"

record ServicePort =
  kp_Name :: string
  kp_Protocol :: string
  kp_Port :: int32
  kp_TargetPort :: IntOrString

record KService =
  ks_Ptr :: nat
  ks_Meta :: ObjectMeta
  ks_Ports :: "ServicePort list"

record IngressBackend =
  ib_ServiceName :: string
  ib_ServicePort :: IntOrString

record HTTPIngressPath =
  ip_Path :: string
  ip_Backend :: IngressBackend

record IngressRule =
  ir_Host :: string
  ir_HTTP :: "HTTPIngressPath list option"

record Ingress =
  ing_Meta :: ObjectMeta
  ing_Backend :: "IngressBackend option"
  ing_Rules :: "IngressRule list"

record EndpointPort =
  ep_Name :: string
  ep_Port :: int32

record EndpointSubset =
  es_Addresses :: "string list"
  es_NotReadyAddresses :: "string list"
  es_Ports :: "EndpointPort list"

record Endpoints =
  endp_Meta :: ObjectMeta
  endp_Subsets :: "EndpointSubset list"

record Secret =
  secr_Meta :: ObjectMeta
  secr_Data :: "bytes gomap"

text \<open>The types of a Kubernetes Event.\<close>

datatype event_type = EventTypeNormal | EventTypeWarning

record ContainerPort =
  cp_Name :: string
  cp_Protocol :: string
  cp_ContainerPort :: int32

text \<open>A container is its list of ports, a volume the secret name of its \<open>SecretVolumeSource\<close>.\<close>

record Pod =
  pod_Meta :: ObjectMeta
  pod_Hostname :: string
  pod_PodIP :: string
  pod_Containers :: "ContainerPort list list"
  pod_Volumes :: "string option list"

abbreviation "ks_Namespace s \<equiv> om_Namespace (ks_Meta s)"
abbreviation "ks_Name s \<equiv> om_Name (ks_Meta s)"
abbreviation "ing_Namespace i \<equiv> om_Namespace (ing_Meta i)"
abbreviation "ing_Name i \<equiv> om_Name (ing_Meta i)"

section \<open>The API\<close>

datatype api_error = NotFound string | ApiFailure string

fun IsNotFound :: "api_error \<Rightarrow> bool" where
  "IsNotFound (NotFound _) = True"
| "IsNotFound (ApiFailure _) = False"

text \<open>
  \<open>svc_List\<close> and \<open>svc_ns_List\<close> list the Services with the label \<open>app: varnish-ingress\<close>
  (\<open>varnishIngressSelector\<close>), cluster-wide and in a namespace; the other lists have the selector
  \<open>labels.Everything()\<close>.  The \<open>Get\<close> functions take a namespace and a name.  \<open>l_splitKey\<close> is
  \<open>cache.SplitMetaNamespaceKey\<close> (None: the key is not of the form \<open>namespace/name\<close> or \<open>name\<close>).
\<close>

record Listers =
  l_ing_List :: "api_error + Ingress list"
  l_ing_ns_List :: "string \<Rightarrow> api_error + Ingress list"
  l_ing_Get :: "string \<Rightarrow> string \<Rightarrow> api_error + Ingress"
  l_svc_List :: "api_error + KService list"
  l_svc_ns_List :: "string \<Rightarrow> api_error + KService list"
  l_svc_Get :: "string \<Rightarrow> string \<Rightarrow> api_error + KService"
  l_endp_List :: "string \<Rightarrow> api_error + Endpoints list"
  l_secr_Get :: "string \<Rightarrow> string \<Rightarrow> api_error + Secret"
  l_vcfg_List :: "string \<Rightarrow> api_error + VarnishConfig list"
  l_vcfg_Get :: "string \<Rightarrow> string \<Rightarrow> api_error + VarnishConfig"
  l_bcfg_List :: "string \<Rightarrow> api_error + BackendConfig list"
  l_bcfg_Get :: "string \<Rightarrow> string \<Rightarrow> api_error + BackendConfig"
  l_pods :: "KService \<Rightarrow> api_error + Pod list"
  l_splitKey :: "string \<Rightarrow> (string \<times> string) option"

section \<open>Errors of the controller\<close>

datatype ctl_error =
    ApiErr api_error
  | CfgErr cfg_error
  | NoEndpointsFor string
  | EndpointsErr string ctl_error
  | NoEndpointsForPort int32 string
  | NoPortInPod string string
  | PodInfoErr api_error
  | NoPodsOfService string
  | NamedPortErr string ctl_error
  | TargetPortErr ctl_error
  | NoServicePort string
  | EmptyHost
  | NoHttpPort string
  | TooFewAddresses nat string
  | TooFewPods nat string
  | IllegalMethod string
  | BadKey string
  | NoVarnishService string
  | SecretWithoutKey string
  | NoAdminPort string

fun lift_api :: "api_error + 'a \<Rightarrow> (ctl_error, 'a) outcome" where
  "lift_api (Inl e) = Err (ApiErr e)"
| "lift_api (Inr x) = Ok x"

lemma lift_api_no_Panic [simp]: "lift_api r \<noteq> Panic"
  by (cases r) auto

lemma lift_api_Ok_iff [simp]: "lift_api r = Ok x \<longleftrightarrow> r = Inr x"
  by (cases r) auto

text \<open>Wrapping an error in another, as \<open>fmt.Errorf("...: %v", err)\<close> does.\<close>

fun map_err :: "('e \<Rightarrow> 'f) \<Rightarrow> ('e, 'a) outcome \<Rightarrow> ('f, 'a) outcome" where
  "map_err f (Ok x) = Ok x"
| "map_err f (Err e) = Err (f e)"
| "map_err f Panic = Panic"

lemma map_err_Ok_iff [simp]: "map_err f r = Ok x \<longleftrightarrow> r = Ok x"
  by (cases r) auto

lemma map_err_Panic_iff [simp]: "map_err f r = Panic \<longleftrightarrow> r = Panic"
  by (cases r) auto

section \<open>Lookups of utils.go\<close>

definition svc_key :: "KService \<Rightarrow> string" where
  "svc_key svc = ks_Namespace svc @ ''/'' @ ks_Name svc"

definition getServiceEndpoints :: "Listers \<Rightarrow> KService \<Rightarrow> (ctl_error, Endpoints) outcome" where
  "getServiceEndpoints L svc =
     obind (lift_api (l_endp_List L (ks_Namespace svc))) (\<lambda>eps.
       case find (\<lambda>ep. ks_Name svc = om_Name (endp_Meta ep)
                     \<and> ks_Namespace svc = om_Namespace (endp_Meta ep)) eps of
         Some ep \<Rightarrow> Ok ep
       | None \<Rightarrow> Err (NoEndpointsFor (svc_key svc)))"

fun subsets_addrs :: "EndpointSubset list \<Rightarrow> int32 \<Rightarrow> Address list option" where
  "subsets_addrs [] targetPort = None"
| "subsets_addrs (s # ss) targetPort =
     (case find (\<lambda>port. ep_Port port = targetPort) (es_Ports s) of
        Some port \<Rightarrow>
          Some (map (\<lambda>ip. \<lparr>addr_IP = ip, addr_Port = ep_Port port\<rparr>) (es_Addresses s))
      | None \<Rightarrow> subsets_addrs ss targetPort)"

definition endpsTargetPort2Addrs ::
    "KService \<Rightarrow> Endpoints \<Rightarrow> int32 \<Rightarrow> (ctl_error, Address list) outcome" where
  "endpsTargetPort2Addrs svc endps targetPort =
     (case subsets_addrs (endp_Subsets endps) targetPort of
        Some addrs \<Rightarrow> Ok addrs
      | None \<Rightarrow> Err (NoEndpointsForPort targetPort (svc_key svc)))"

text \<open>The first named port with the protocol of the ServicePort, over all containers.\<close>

definition findPort :: "Pod \<Rightarrow> ServicePort \<Rightarrow> (ctl_error, int32) outcome" where
  "findPort pod svcPort =
     (case ios_Type (kp_TargetPort svcPort) of
        TInt \<Rightarrow> Ok (ios_IntVal (kp_TargetPort svcPort))
      | TString \<Rightarrow>
          (case find (\<lambda>port. cp_Name port = ios_StrVal (kp_TargetPort svcPort)
                           \<and> cp_Protocol port = kp_Protocol svcPort)
                  (concat (pod_Containers pod)) of
             Some port \<Rightarrow> Ok (cp_ContainerPort port)
           | None \<Rightarrow> Err (NoPortInPod (kp_Name svcPort) (meta_key (pod_Meta pod)))))"

definition getTargetPort :: "Listers \<Rightarrow> ServicePort \<Rightarrow> KService \<Rightarrow> (ctl_error, int32) outcome" where
  "getTargetPort L svcPort svc =
     (if kp_TargetPort svcPort = zero_IntOrString then Ok (kp_Port svcPort)
      else if ios_Type (kp_TargetPort svcPort) = TInt then Ok (ios_IntVal (kp_TargetPort svcPort))
      else
        (case l_pods L svc of
           Inl e \<Rightarrow> Err (PodInfoErr e)
         | Inr [] \<Rightarrow> Err (NoPodsOfService (ks_Name svc))
         | Inr (pod # _) \<Rightarrow> map_err (NamedPortErr (kp_Name svcPort)) (findPort pod svcPort)))"

lemma getServiceEndpoints_no_Panic [simp]: "getServiceEndpoints L svc \<noteq> Panic"
  by (auto simp: getServiceEndpoints_def obind_Panic_iff split: option.splits)

lemma endpsTargetPort2Addrs_no_Panic [simp]: "endpsTargetPort2Addrs svc endps p \<noteq> Panic"
  by (auto simp: endpsTargetPort2Addrs_def split: option.splits)

lemma findPort_no_Panic [simp]: "findPort pod p \<noteq> Panic"
  by (auto simp: findPort_def split: IntOrStringType.splits option.splits)

lemma getTargetPort_no_Panic [simp]: "getTargetPort L p svc \<noteq> Panic"
  by (auto simp: getTargetPort_def split: sum.splits list.splits)

lemma getServiceEndpoints_Ok:
  assumes "getServiceEndpoints L svc = Ok ep"
  shows "om_Name (endp_Meta ep) = ks_Name svc \<and> om_Namespace (endp_Meta ep) = ks_Namespace svc"
proof -
  from assms obtain eps where
    "find (\<lambda>ep. ks_Name svc = om_Name (endp_Meta ep)
        \<and> ks_Namespace svc = om_Namespace (endp_Meta ep)) eps = Some ep"
    unfolding getServiceEndpoints_def obind_Ok_iff by (auto split: option.split_asm)
  then show ?thesis by (auto dest!: find_SomeD)
qed

text \<open>All addresses of a backend have the one port that was asked for.\<close>

lemma subsets_addrs_port:
  "subsets_addrs ss p = Some addrs \<Longrightarrow> a \<in> set addrs \<Longrightarrow> addr_Port a = p"
  by (induction ss p rule: subsets_addrs.induct)
    (auto dest!: find_SomeD split: option.split_asm)

lemma subsets_addrs_ready:
  "subsets_addrs ss p = Some addrs \<Longrightarrow>
     \<exists>s \<in> set ss. map addr_IP addrs = es_Addresses s \<and> (\<exists>q \<in> set (es_Ports s). ep_Port q = p)"
proof (induction ss p rule: subsets_addrs.induct)
  case (2 s ss p)
  show ?case
  proof (cases "find (\<lambda>port. ep_Port port = p) (es_Ports s)")
    case None
    with 2 show ?thesis by auto
  next
    case (Some port)
    then have "port \<in> set (es_Ports s)" and "ep_Port port = p" by (auto dest: find_SomeD)
    moreover have "map addr_IP addrs = es_Addresses s"
      using 2(2) Some by (auto simp: comp_def)
    ultimately show ?thesis by auto
  qed
qed simp

end
