(* ===== verification/GoBase64.thy ===== *)
theory GoBase64
  imports GoLib
begin

text \<open>
  \<open>base64.StdEncoding.EncodeToString\<close>, with the decoder that inverts it.  The encoded text has
  only letters, digits, \<open>+\<close>, \<open>/\<close> and \<open>=\<close>.
\<close>

definition b64_chars :: string where
  "b64_chars = ''ABCDEFGHIJKLMNOPQRSTUVWXYZabcdefghijklmnopqrstuvwxyz0123456789+/''"

definition b64_char :: "nat \<Rightarrow> char" where
  "b64_char d = b64_chars ! d"

definition b64_val :: "char \<Rightarrow> nat" where
  "b64_val c = length (takeWhile (\<lambda>x. x \<noteq> c) b64_chars)"

fun base64 :: "bytes \<Rightarrow> string" where
  "base64 [] = []"
| "base64 [a] =
     (let n = of_char a * 16 in [b64_char (n div 64), b64_char (n mod 64), CHR ''='', CHR ''=''])"
| "base64 [a, b] =
     (let n = of_char a * 1024 + of_char b * 4
      in [b64_char (n div 4096), b64_char (n div 64 mod 64), b64_char (n mod 64), CHR ''=''])"
| "base64 (a # b # c # r) =
     (let n = of_char a * 65536 + of_char b * 256 + of_char c
      in [b64_char (n div 262144), b64_char (n div 4096 mod 64), b64_char (n div 64 mod 64),
          b64_char (n mod 64)] @ base64 r)"

fun unbase64 :: "string \<Rightarrow> bytes" where
  "unbase64 (w # x # y # z # r) =
     (let n = b64_val w * 262144 + b64_val x * 4096 in
      if z \<noteq> CHR ''='' then
        (let m = n + b64_val y * 64 + b64_val z
         in [char_of (m div 65536), char_of (m div 256 mod 256), char_of (m mod 256)]
              @ unbase64 r)
      else if y \<noteq> CHR ''='' then
        (let m = n + b64_val y * 64 in [char_of (m div 65536), char_of (m div 256 mod 256)])
      else [char_of (n div 65536)])"
| "unbase64 _ = []"

definition is_b64 :: "char \<Rightarrow> bool" where
  "is_b64 c \<longleftrightarrow> c \<in> set b64_chars \<or> c = CHR ''=''"

lemma length_b64_chars [simp]: "length b64_chars = 64"
  by (simp add: b64_chars_def)

lemma distinct_b64_chars: "distinct b64_chars"
  by code_simp

lemma b64_val_char: "d < 64 \<Longrightarrow> b64_val (b64_char d) = d"
proof -
  assume d: "d < 64"
  have "\<forall>i < d. b64_chars ! i \<noteq> b64_chars ! d"
    using d distinct_b64_chars by (simp add: nth_eq_iff_index_eq)
  then have "takeWhile (\<lambda>x. x \<noteq> b64_chars ! d) b64_chars = take d b64_chars"
    using d by (intro takeWhile_eq_take_P_nth) auto
  then show ?thesis using d by (simp add: b64_val_def b64_char_def)
qed

lemma b64_char_in: "d < 64 \<Longrightarrow> b64_char d \<in> set b64_chars"
  by (simp add: b64_char_def)

lemma b64_char_no_pad: "d < 64 \<Longrightarrow> b64_char d \<noteq> CHR ''=''"
  using b64_char_in [of d] by (auto simp: b64_chars_def)

text \<open>Four digits of a 24-bit number, and its three bytes.\<close>

lemma sextets: "(n div 262144) * 262144 + n div 4096 mod 64 * 4096 + n div 64 mod 64 * 64
    + n mod 64 = (n :: nat)"
proof -
  have "n div 64 div 64 = n div 4096" and "n div 4096 div 64 = n div 262144"
    by (simp_all add: div_mult2_eq [symmetric])
  moreover have "n = n div 64 * 64 + n mod 64" and "n div 64 = n div 64 div 64 * 64 + n div 64 mod 64"
    and "n div 4096 = n div 4096 div 64 * 64 + n div 4096 mod 64"
    by simp_all
  ultimately show ?thesis by linarith
qed

lemma octets:
  assumes "b < 256" and "c < 256"
  shows "(a * 65536 + b * 256 + c) div 65536 = (a :: nat)"
    and "(a * 65536 + b * 256 + c) div 256 mod 256 = b"
    and "(a * 65536 + b * 256 + c) mod 256 = c"
proof -
  have 1: "a * 65536 + b * 256 + c = (a * 256 + b) * 256 + c" by simp
  have d: "(k * 256 + c) div 256 = k" "(k * 256 + c) mod 256 = c" for k
    using assms by simp_all
  have e: "(a * 256 + b) div 256 = a" "(a * 256 + b) mod 256 = b"
    using assms by simp_all
  have f: "x div 65536 = x div 256 div 256" for x :: nat by (simp add: div_mult2_eq [symmetric])
  show "(a * 65536 + b * 256 + c) div 65536 = a" unfolding f 1 d by (rule e)
  show "(a * 65536 + b * 256 + c) div 256 mod 256 = b" unfolding 1 d by (rule e)
  show "(a * 65536 + b * 256 + c) mod 256 = c" unfolding 1 by (rule d)
qed

lemma unbase64_base64: "unbase64 (base64 s) = s"
proof (induction s rule: base64.induct)
  case 1
  then show ?case by simp
next
  case (2 a)
  have a: "of_char a < (256 :: nat)" by simp
  let ?n = "of_char a * 16 :: nat"
  have "?n div 64 * 64 + ?n mod 64 = ?n" by (rule div_mult_mod_eq)
  then have "?n div 64 * 262144 + ?n mod 64 * 4096 = of_char a * 65536" by linarith
  with a show ?case by (simp add: b64_val_char Let_def less_mult_imp_div_less)
next
  case (3 a b)
  have ab: "of_char a < (256 :: nat)" "of_char b < (256 :: nat)" by simp_all
  let ?n = "of_char a * 1024 + of_char b * 4 :: nat"
  let ?m = "of_char a * 65536 + of_char b * 256 :: nat"
  have "?n div 64 div 64 = ?n div 4096" by (simp add: div_mult2_eq [symmetric])
  moreover have "?n = ?n div 64 * 64 + ?n mod 64" "?n div 64 = ?n div 64 div 64 * 64 + ?n div 64 mod 64"
    by simp_all
  ultimately have "?n div 4096 * 262144 + ?n div 64 mod 64 * 4096 + ?n mod 64 * 64 = ?m"
    by linarith
  moreover have "?n < 64 * 4096" using ab by linarith
  then have "?n div 4096 < 64" by (rule less_mult_imp_div_less)
  moreover have "?m div 65536 = of_char a" "?m div 256 mod 256 = of_char b"
    using octets(1,2) [of "of_char b" 0 "of_char a"] ab by simp_all
  ultimately show ?case
    by (simp add: b64_val_char b64_char_no_pad Let_def del: char_of_mod_256)
next
  case (4 a b c r)
  have abc: "of_char a < (256 :: nat)" "of_char b < (256 :: nat)" "of_char c < (256 :: nat)"
    by simp_all
  let ?n = "of_char a * 65536 + of_char b * 256 + of_char c :: nat"
  have "?n < 64 * 262144" using abc by linarith
  then have "?n div 262144 < 64" by (rule less_mult_imp_div_less)
  with 4 octets [OF abc(2,3), of "of_char a"] show ?case
    by (simp add: b64_val_char b64_char_no_pad Let_def sextets del: char_of_mod_256)
qed

lemma base64_alphabet: "list_all is_b64 (base64 s)"
proof (induction s rule: base64.induct)
  case (2 a)
  have "(of_char a * 16 :: nat) div 64 < 64" by (simp add: less_mult_imp_div_less)
  then show ?case by (simp add: is_b64_def b64_char_in Let_def)
next
  case (3 a b)
  have "of_char a < (256 :: nat)" "of_char b < (256 :: nat)" by simp_all
  then have "(of_char a * 1024 + of_char b * 4 :: nat) < 64 * 4096" by linarith
  then have "(of_char a * 1024 + of_char b * 4 :: nat) div 4096 < 64" by (rule less_mult_imp_div_less)
  then show ?case by (simp add: is_b64_def b64_char_in Let_def)
next
  case (4 a b c r)
  have "of_char a < (256 :: nat)" "of_char b < (256 :: nat)" "of_char c < (256 :: nat)"
    by simp_all
  then have "(of_char a * 65536 + of_char b * 256 + of_char c :: nat) < 64 * 262144" by linarith
  then have "(of_char a * 65536 + of_char b * 256 + of_char c :: nat) div 262144 < 64"
    by (rule less_mult_imp_div_less)
  with 4 show ?case by (simp add: is_b64_def b64_char_in Let_def)
qed simp

interpretation b64: codec base64 unbase64 "\<lambda>_. True"
  by unfold_locales (rule unbase64_base64)

text \<open>No byte of the text can end a VCL string.\<close>

lemma base64_no_quote: "CHR 0x22 \<notin> set (base64 s)"
proof
  assume "CHR 0x22 \<in> set (base64 s)"
  then have "is_b64 (CHR 0x22)" using base64_alphabet [of s] by (simp add: list_all_iff)
  then show False by (simp add: is_b64_def b64_chars_def)
qed

end
