(* ===== verification/GoSha.thy ===== *)
theory GoSha
  imports GoLib
begin

text \<open>
  SHA-512/224 (\<open>sha512.New512_224\<close> of Go's \<open>crypto/sha512\<close>, FIPS 180-4), the digest behind
  \<open>Spec.DeepHash\<close>, and \<open>math/big\<close>'s base-62 text of a digest.
\<close>

unbundle bit_operations_syntax

definition sha_K :: "uint64 list" where
  "sha_K =
    [0x428A2F98D728AE22, 0x7137449123EF65CD, 0xB5C0FBCFEC4D3B2F, 0xE9B5DBA58189DBBC,
     0x3956C25BF348B538, 0x59F111F1B605D019, 0x923F82A4AF194F9B, 0xAB1C5ED5DA6D8118,
     0xD807AA98A3030242, 0x12835B0145706FBE, 0x243185BE4EE4B28C, 0x550C7DC3D5FFB4E2,
     0x72BE5D74F27B896F, 0x80DEB1FE3B1696B1, 0x9BDC06A725C71235, 0xC19BF174CF692694,
     0xE49B69C19EF14AD2, 0xEFBE4786384F25E3, 0x0FC19DC68B8CD5B5, 0x240CA1CC77AC9C65,
     0x2DE92C6F592B0275, 0x4A7484AA6EA6E483, 0x5CB0A9DCBD41FBD4, 0x76F988DA831153B5,
     0x983E5152EE66DFAB, 0xA831C66D2DB43210, 0xB00327C898FB213F, 0xBF597FC7BEEF0EE4,
     0xC6E00BF33DA88FC2, 0xD5A79147930AA725, 0x06CA6351E003826F, 0x142929670A0E6E70,
     0x27B70A8546D22FFC, 0x2E1B21385C26C926, 0x4D2C6DFC5AC42AED, 0x53380D139D95B3DF,
     0x650A73548BAF63DE, 0x766A0ABB3C77B2A8, 0x81C2C92E47EDAEE6, 0x92722C851482353B,
     0xA2BFE8A14CF10364, 0xA81A664BBC423001, 0xC24B8B70D0F89791, 0xC76C51A30654BE30,
     0xD192E819D6EF5218, 0xD69906245565A910, 0xF40E35855771202A, 0x106AA07032BBD1B8,
     0x19A4C116B8D2D0C8, 0x1E376C085141AB53, 0x2748774CDF8EEB99, 0x34B0BCB5E19B48A8,
     0x391C0CB3C5C95A63, 0x4ED8AA4AE3418ACB, 0x5B9CCA4F7763E373, 0x682E6FF3D6B2B8A3,
     0x748F82EE5DEFB2FC, 0x78A5636F43172F60, 0x84C87814A1F0AB72, 0x8CC702081A6439EC,
     0x90BEFFFA23631E28, 0xA4506CEBDE82BDE9, 0xBEF9A3F7B2C67915, 0xC67178F2E372532B,
     0xCA273ECEEA26619C, 0xD186B8C721C0C207, 0xEADA7DD6CDE0EB1E, 0xF57D4F7FEE6ED178,
     0x06F067AA72176FBA, 0x0A637DC5A2C898A6, 0x113F9804BEF90DAE, 0x1B710B35131C471B,
     0x28DB77F523047D84, 0x32CAAB7B40C72493, 0x3C9EBE0A15C9BEBC, 0x431D67C49C100D4C,
     0x4CC5D4BECB3E42B6, 0x597F299CFC657E2A, 0x5FCB6FAB3AD6FAEC, 0x6C44198C4A475817]"

type_synonym sha_state = "uint64 list"

definition sha_IV :: sha_state where
  "sha_IV =
    [0x8C3D37C819544DA2, 0x73E1996689DCD4D6, 0x1DFAB7AE32FF9C82, 0x679DD514582F9FCF,
     0x0F6D2B697BD44DA8, 0x77E36F7304C48942, 0x3F9D85A86A1D36C8, 0x1112E6AD91D692A1]"

definition sha_Ch :: "uint64 \<Rightarrow> uint64 \<Rightarrow> uint64 \<Rightarrow> uint64" where
  "sha_Ch x y z = (x AND y) XOR (NOT x AND z)"

definition sha_Maj :: "uint64 \<Rightarrow> uint64 \<Rightarrow> uint64 \<Rightarrow> uint64" where
  "sha_Maj x y z = (x AND y) XOR (x AND z) XOR (y AND z)"

definition sha_S0 :: "uint64 \<Rightarrow> uint64" where
  "sha_S0 x = word_rotr 28 x XOR word_rotr 34 x XOR word_rotr 39 x"

definition sha_S1 :: "uint64 \<Rightarrow> uint64" where
  "sha_S1 x = word_rotr 14 x XOR word_rotr 18 x XOR word_rotr 41 x"

definition sha_s0 :: "uint64 \<Rightarrow> uint64" where
  "sha_s0 x = word_rotr 1 x XOR word_rotr 8 x XOR drop_bit 7 x"

definition sha_s1 :: "uint64 \<Rightarrow> uint64" where
  "sha_s1 x = word_rotr 19 x XOR word_rotr 61 x XOR drop_bit 6 x"

text \<open>Cutting a list into pieces of \<open>Suc n\<close> elements.\<close>

function chunks :: "nat \<Rightarrow> 'a list \<Rightarrow> 'a list list" where
  "chunks n xs = (if xs = [] then [] else take (Suc n) xs # chunks n (drop (Suc n) xs))"
  by pat_completeness auto
termination
  by (relation "measure (\<lambda>(n, xs). length xs)") auto

declare chunks.simps [simp del]

text \<open>The message schedule, most recent word first.\<close>

fun sha_extend :: "nat \<Rightarrow> uint64 list \<Rightarrow> uint64 list" where
  "sha_extend 0 ws = ws"
| "sha_extend (Suc k) ws =
     sha_extend k ((sha_s1 (ws ! 1) + ws ! 6 + sha_s0 (ws ! 14) + ws ! 15) # ws)"

definition sha_schedule :: "bytes \<Rightarrow> uint64 list" where
  "sha_schedule block =
     rev (sha_extend 64 (rev (map (\<lambda>b. word_of_nat (be_num b)) (chunks 7 block))))"

fun sha_round :: "uint64 \<times> uint64 \<Rightarrow> sha_state \<Rightarrow> sha_state" where
  "sha_round (k, w) [a, b, c, d, e, f, g, h] =
     (let t1 = h + sha_S1 e + sha_Ch e f g + k + w; t2 = sha_S0 a + sha_Maj a b c
      in [t1 + t2, a, b, c, d + t1, e, f, g])"
| "sha_round _ st = st"

definition sha_block :: "bytes \<Rightarrow> sha_state \<Rightarrow> sha_state" where
  "sha_block block st =
     map2 (+) st (fold sha_round (zip sha_K (sha_schedule block)) st)"

definition sha_pad :: "bytes \<Rightarrow> bytes" where
  "sha_pad m =
     m @ CHR 0x80 # replicate ((239 - length m mod 128) mod 128) (CHR 0x00)
     @ be_bytes 16 (8 * length m)"

definition sha512_224 :: "bytes \<Rightarrow> bytes" where
  "sha512_224 m =
     take 28 (concat (map put_uint64 (fold sha_block (chunks 127 (sha_pad m)) sha_IV)))"

lemma length_sha_round [simp]: "length (sha_round kw st) = length st"
  by (cases "(kw, st)" rule: sha_round.cases) (auto simp: Let_def)

lemma length_fold_sha_round: "length (fold sha_round kws st) = length st"
  by (induction kws arbitrary: st) auto

lemma length_sha_block [simp]: "length (sha_block block st) = length st"
  by (simp add: sha_block_def length_fold_sha_round)

lemma length_fold_sha_block: "length (fold sha_block blocks st) = length st"
  by (induction blocks arbitrary: st) auto

lemma length_sha512_224 [simp]: "length (sha512_224 m) = 28"
proof -
  have "length (fold sha_block (chunks 127 (sha_pad m)) sha_IV) = 8"
    by (simp add: length_fold_sha_block sha_IV_def)
  then have "length (concat (map put_uint64 (fold sha_block (chunks 127 (sha_pad m)) sha_IV))) = 64"
    by (subst concat_map_length_const [where n = 8]) auto
  then show ?thesis by (simp add: sha512_224_def)
qed

text \<open>\<open>h.SetBytes(sum); h.Text(62)\<close>.\<close>

definition big_text62 :: "bytes \<Rightarrow> string" where
  "big_text62 bs = text_base 62 (be_num bs)"

lemma be_num_inject: "length xs = length ys \<Longrightarrow> be_num xs = be_num ys \<longleftrightarrow> xs = ys"
proof (induction xs arbitrary: ys rule: rev_induct)
  case Nil
  then show ?case by simp
next
  case (snoc x xs)
  then obtain y ys' where ys: "ys = ys' @ [y]" by (metis length_append_singleton length_0_conv nat.simps(3) rev_exhaust)
  with snoc.prems have len: "length xs = length ys'" by simp
  have "be_num (xs @ [x]) = be_num (ys' @ [y]) \<longleftrightarrow>
      be_num xs * 256 + of_char x = be_num ys' * 256 + (of_char y :: nat)"
    by (simp add: be_num_def)
  also have "\<dots> \<longleftrightarrow> be_num xs = be_num ys' \<and> of_char x = (of_char y :: nat)"
  proof
    assume eq: "be_num xs * 256 + of_char x = be_num ys' * 256 + (of_char y :: nat)"
    then have "(be_num xs * 256 + of_char x) div 256 = (be_num ys' * 256 + (of_char y :: nat)) div 256"
      by simp
    then have "be_num xs = be_num ys'" by simp
    with eq show "be_num xs = be_num ys' \<and> of_char x = (of_char y :: nat)" by simp
  qed simp
  also have "\<dots> \<longleftrightarrow> xs = ys' \<and> x = y" using snoc.IH [OF len] by simp
  finally show ?case by (simp add: ys)
qed

lemma big_text62_inject:
  "length xs = length ys \<Longrightarrow> big_text62 xs = big_text62 ys \<longleftrightarrow> xs = ys"
  by (simp add: big_text62_def base62.enc_inject be_num_inject)

end
