(* ===== verification/VclCanon.thy ===== *)
theory VclCanon
  imports VclSpec GoSha
begin

text \<open>
  \<open>Spec.DeepHash\<close> and \<open>Spec.Canonical\<close> of \<open>pkg/varnish/vcl/spec.go\<close>.

  \<open>Canonical\<close> returns a new specification and, as a side effect, sorts slices that the new one
  shares with its argument; \<open>Canonical\<close> models the result, \<open>Canonical_effect\<close> what the argument
  looks like afterwards.  Two services that share one address slice get it sorted once per
  mention in the code; \<open>canon_addrs_idem\<close> says that this makes no difference when the ports of a
  service agree, as they do for every service the controller builds.
\<close>

section \<open>DeepHash\<close>

definition DeepHash :: "Spec \<Rightarrow> string" where
  "DeepHash spec = big_text62 (sha512_224 (Spec_stream spec))"

text \<open>The text of a digest is lossless, alphanumeric and of bounded length.\<close>

lemma DeepHash_eq_iff:
  "DeepHash s = DeepHash t \<longleftrightarrow> sha512_224 (Spec_stream s) = sha512_224 (Spec_stream t)"
  by (simp add: DeepHash_def big_text62_inject)

lemma DeepHash_alnum: "list_all is_alnum (DeepHash s)"
  by (simp add: DeepHash_def big_text62_def text_base_alnum)

lemma DeepHash_length: "length (DeepHash s) \<le> 38"
proof -
  have "be_num (sha512_224 (Spec_stream s)) < 256 ^ 28"
    using be_num_less [of "sha512_224 (Spec_stream s)"] by simp
  also have "(256 :: nat) ^ 28 \<le> 62 ^ 38" by simp
  finally show ?thesis by (simp add: DeepHash_def big_text62_def text_base_length)
qed

section \<open>Canonical\<close>

definition canon_addrs :: "Address list \<Rightarrow> Address list" where
  "canon_addrs = stable_sort byIPPort_Less"

definition canon_svc :: "Service \<Rightarrow> Service" where
  "canon_svc svc = svc\<lparr>svc_Addresses := canon_addrs (svc_Addresses svc)\<rparr>"

definition canon_rule :: "Rule \<Rightarrow> Rule" where
  "canon_rule rule = rule\<lparr>rule_PathMap := gm_map canon_svc (rule_PathMap rule)\<rparr>"

definition canon_shard :: "ShardCluster \<Rightarrow> ShardCluster" where
  "canon_shard shard =
     shard\<lparr>shard_Nodes := map canon_svc (stable_sort byName_Less (shard_Nodes shard))\<rparr>"

definition canon_auth :: "Auth \<Rightarrow> Auth" where
  "canon_auth auth = auth\<lparr>auth_Credentials := sort_strings (auth_Credentials auth)\<rparr>"

definition canon_acl :: "ACL \<Rightarrow> ACL" where
  "canon_acl acl =
     acl\<lparr>acl_Addresses := stable_sort byACLAddr_Less (acl_Addresses acl),
         acl_Conditions := stable_sort byComparand_Less (acl_Conditions acl)\<rparr>"

definition canon_cond :: "Condition \<Rightarrow> Condition" where
  "canon_cond cond = cond\<lparr>cond_Values := sort_strings (cond_Values cond)\<rparr>"

definition canon_disp :: "DispositionSpec \<Rightarrow> DispositionSpec" where
  "canon_disp d = d\<lparr>disp_Conditions := map canon_cond (disp_Conditions d)\<rparr>"

text \<open>
  Of the default service only the name is kept: the addresses are copied into a nil slice, which
  copies nothing.
\<close>

definition Canonical :: "Spec \<Rightarrow> Spec" where
  "Canonical spec =
     \<lparr>sp_DefaultService = zero_Service\<lparr>svc_Name := svc_Name (sp_DefaultService spec)\<rparr>,
      sp_Rules = map canon_rule (stable_sort byHost_Less (sp_Rules spec)),
      sp_AllServices = gm_map canon_svc (sp_AllServices spec),
      sp_ShardCluster = canon_shard (sp_ShardCluster spec),
      sp_Auths = map canon_auth (stable_sort byRealm_Less (sp_Auths spec)),
      sp_VCL = sp_VCL spec,
      sp_ACLs = map canon_acl (stable_sort byACLName_Less (sp_ACLs spec)),
      sp_Rewrites = stable_sort byVCLSub_Less (sp_Rewrites spec),
      sp_Dispositions = map canon_disp (sp_Dispositions spec)\<rparr>"

definition Canonical_effect :: "Spec \<Rightarrow> Spec" where
  "Canonical_effect spec = spec\<lparr>
      sp_Rules := map canon_rule (sp_Rules spec),
      sp_AllServices := gm_map canon_svc (sp_AllServices spec),
      sp_ShardCluster := canon_shard (sp_ShardCluster spec),
      sp_Auths := map canon_auth (sp_Auths spec),
      sp_ACLs := map canon_acl (sp_ACLs spec),
      sp_Dispositions := map canon_disp (sp_Dispositions spec)\<rparr>"

section \<open>The sort keys\<close>

interpretation host: weak_order byHost_Less "\<lambda>_. True"
  by unfold_locales (auto simp: byHost_Less_def)

interpretation name: weak_order byName_Less "\<lambda>_. True"
  by unfold_locales (auto simp: byName_Less_def)

interpretation realm: weak_order byRealm_Less "\<lambda>_. True"
  by unfold_locales (auto simp: byRealm_Less_def)

interpretation aclname: weak_order byACLName_Less "\<lambda>_. True"
  by unfold_locales (auto simp: byACLName_Less_def)

interpretation acladdr: weak_order byACLAddr_Less "\<lambda>_. True"
  by unfold_locales (auto simp: byACLAddr_Less_def)

interpretation comparand: weak_order byComparand_Less "\<lambda>_. True"
  by unfold_locales (auto simp: byComparand_Less_def)

interpretation vclsub: weak_order byVCLSub_Less "\<lambda>_. True"
  by unfold_locales (auto simp: byVCLSub_Less_def)

text \<open>
  \<open>byIPPort\<close> answers "less" when either field is less, which is no order in general.  It is one on
  addresses with a common port.
\<close>

interpretation ipport: weak_order byIPPort_Less "\<lambda>a. addr_Port a = p" for p
  by unfold_locales (auto simp: byIPPort_Less_def split: if_splits)

definition ports_agree :: "Address list \<Rightarrow> bool" where
  "ports_agree addrs \<longleftrightarrow> list_all (\<lambda>a. addr_Port a = addr_Port (hd addrs)) addrs"

lemma ports_agree_perm: "mset xs = mset ys \<Longrightarrow> ports_agree xs \<Longrightarrow> ports_agree ys"
proof -
  assume eq: "mset xs = mset ys" and agree: "ports_agree xs"
  from eq have sets: "set xs = set ys" by (metis set_mset_mset)
  show "ports_agree ys"
  proof (cases ys)
    case Nil
    then show ?thesis by (simp add: ports_agree_def)
  next
    case (Cons y ys')
    then have "y \<in> set xs" using sets by simp
    with agree have "addr_Port y = addr_Port (hd xs)" by (simp add: ports_agree_def list_all_iff)
    with agree sets Cons show ?thesis by (simp add: ports_agree_def list_all_iff)
  qed
qed

lemma canon_addrs_idem: "ports_agree xs \<Longrightarrow> canon_addrs (canon_addrs xs) = canon_addrs xs"
  unfolding canon_addrs_def ports_agree_def by (rule ipport.stable_sort_idem)

lemma canon_addrs_perm:
  assumes "mset xs = mset ys" and "ports_agree xs"
  shows "canon_addrs xs = canon_addrs ys"
  unfolding canon_addrs_def
proof (rule ipport.stable_sort_canonical)
  show "list_all (\<lambda>a. addr_Port a = addr_Port (hd xs)) xs"
    using assms(2) by (simp add: ports_agree_def)
  fix a b :: Address
  assume "a \<in> set xs" "b \<in> set xs" "\<not> byIPPort_Less a b" "\<not> byIPPort_Less b a"
  with assms(2) show "a = b"
    by (auto simp: byIPPort_Less_def ports_agree_def list_all_iff split: if_splits)
qed (rule assms(1))

section \<open>Canonical is idempotent\<close>

text \<open>The services of a specification whose addresses share one port each.\<close>

definition svc_ports_agree :: "Service \<Rightarrow> bool" where
  "svc_ports_agree svc \<longleftrightarrow> ports_agree (svc_Addresses svc)"

definition spec_ports_agree :: "Spec \<Rightarrow> bool" where
  "spec_ports_agree s \<longleftrightarrow>
     list_all (\<lambda>r. list_all (\<lambda>p. svc_ports_agree (snd p)) (rule_PathMap r)) (sp_Rules s)
     \<and> list_all (\<lambda>p. svc_ports_agree (snd p)) (sp_AllServices s)
     \<and> list_all svc_ports_agree (shard_Nodes (sp_ShardCluster s))"

lemma canon_svc_idem: "svc_ports_agree svc \<Longrightarrow> canon_svc (canon_svc svc) = canon_svc svc"
  by (simp add: canon_svc_def svc_ports_agree_def canon_addrs_idem)

lemma gm_map_canon_svc_idem:
  "list_all (\<lambda>p. svc_ports_agree (snd p)) m \<Longrightarrow>
   gm_map canon_svc (gm_map canon_svc m) = gm_map canon_svc m"
  unfolding gm_map_comp by (rule gm_map_cong) (auto simp: list_all_iff canon_svc_idem)

lemma canon_rule_idem:
  "list_all (\<lambda>p. svc_ports_agree (snd p)) (rule_PathMap r) \<Longrightarrow>
   canon_rule (canon_rule r) = canon_rule r"
  by (simp add: canon_rule_def gm_map_canon_svc_idem)

lemma canon_auth_idem: "canon_auth (canon_auth a) = canon_auth a"
  by (simp add: canon_auth_def)

lemma canon_acl_idem: "canon_acl (canon_acl a) = canon_acl a"
  by (simp add: canon_acl_def acladdr.stable_sort_idem comparand.stable_sort_idem list_all_iff)

lemma canon_cond_idem: "canon_cond (canon_cond c) = canon_cond c"
  by (simp add: canon_cond_def)

lemma canon_disp_idem: "canon_disp (canon_disp d) = canon_disp d"
  by (simp add: canon_disp_def canon_cond_idem)

text \<open>Normalising the elements does not touch the sort keys.\<close>

lemma canon_keys [simp]:
  "rule_Host (canon_rule r) = rule_Host r"
  "auth_Realm (canon_auth a) = auth_Realm a"
  "acl_Name (canon_acl l) = acl_Name l"
  "svc_Name (canon_svc v) = svc_Name v"
  by (simp_all add: canon_rule_def canon_auth_def canon_acl_def canon_svc_def)

lemma canon_less_keys [simp]:
  "byHost_Less (canon_rule r) (canon_rule r') = byHost_Less r r'"
  "byRealm_Less (canon_auth a) (canon_auth a') = byRealm_Less a a'"
  "byACLName_Less (canon_acl l) (canon_acl l') = byACLName_Less l l'"
  "byName_Less (canon_svc v) (canon_svc v') = byName_Less v v'"
  by (simp_all add: byHost_Less_def byRealm_Less_def byACLName_Less_def byName_Less_def)

lemma list_all_stable_sort [simp]: "list_all P (stable_sort lt xs) = list_all P xs"
  by (simp add: list_all_iff)

lemma canon_shard_idem:
  assumes "list_all svc_ports_agree (shard_Nodes sh)"
  shows "canon_shard (canon_shard sh) = canon_shard sh"
proof -
  let ?ns = "stable_sort byName_Less (shard_Nodes sh)"
  have "map canon_svc (map canon_svc ?ns) = map canon_svc ?ns"
    using assms by (auto simp: list_all_iff canon_svc_idem)
  moreover have "stable_sort byName_Less (map canon_svc ?ns) = map canon_svc ?ns"
    by (subst stable_sort_map) (simp_all add: name.stable_sort_idem list_all_iff)
  ultimately show ?thesis by (simp add: canon_shard_def)
qed

lemma map_idem_on: "(\<And>x. x \<in> set xs \<Longrightarrow> f (f x) = f x) \<Longrightarrow> map f (map f xs) = map f xs"
  by simp

lemmas canon_elem_idem = canon_rule_idem canon_auth_idem canon_acl_idem canon_disp_idem

text \<open>
  The side effect of \<open>Canonical\<close> on its argument is invisible to a later call.
\<close>

lemma Canonical_of_effect:
  assumes "spec_ports_agree s"
  shows "Canonical (Canonical_effect s) = Canonical s"
proof -
  have rules: "map canon_rule (stable_sort byHost_Less (map canon_rule (sp_Rules s)))
      = map canon_rule (stable_sort byHost_Less (sp_Rules s))"
    using assms by (subst stable_sort_map)
      (auto simp: spec_ports_agree_def list_all_iff canon_rule_idem)
  have auths: "map canon_auth (stable_sort byRealm_Less (map canon_auth (sp_Auths s)))
      = map canon_auth (stable_sort byRealm_Less (sp_Auths s))"
    by (subst stable_sort_map) (auto simp: canon_auth_idem)
  have acls: "map canon_acl (stable_sort byACLName_Less (map canon_acl (sp_ACLs s)))
      = map canon_acl (stable_sort byACLName_Less (sp_ACLs s))"
    by (subst stable_sort_map) (auto simp: canon_acl_idem)
  show ?thesis
    using assms rules auths acls
    by (simp add: Canonical_def Canonical_effect_def spec_ports_agree_def canon_shard_idem
        gm_map_canon_svc_idem canon_disp_idem)
qed

lemma svc_ports_agree_canon [simp]: "svc_ports_agree (canon_svc svc) = svc_ports_agree svc"
proof -
  have "mset (canon_addrs (svc_Addresses svc)) = mset (svc_Addresses svc)"
    by (simp add: canon_addrs_def)
  from ports_agree_perm [OF this] ports_agree_perm [OF this [symmetric]]
  show ?thesis by (auto simp: svc_ports_agree_def canon_svc_def)
qed

lemma effect_ports_agree [simp]: "spec_ports_agree (Canonical_effect s) = spec_ports_agree s"
  by (simp add: spec_ports_agree_def Canonical_effect_def canon_rule_def canon_shard_def gm_map_def
        list_all_iff case_prod_unfold)

lemma stable_sort_canon_idem:
  assumes "\<And>a b. lt (f a) (f b) = lt a b"
    and "\<And>a. a \<in> set xs \<Longrightarrow> f (f a) = f a"
    and "stable_sort lt (stable_sort lt xs) = stable_sort lt xs"
  shows "map f (stable_sort lt (map f (stable_sort lt xs))) = map f (stable_sort lt xs)"
  using assms by (subst stable_sort_map) (simp_all add: comp_def)

lemma Canonical_idem:
  assumes "spec_ports_agree s"
  shows "Canonical (Canonical s) = Canonical s"
proof -
  have "map canon_rule (stable_sort byHost_Less (map canon_rule (stable_sort byHost_Less (sp_Rules s))))
      = map canon_rule (stable_sort byHost_Less (sp_Rules s))"
    using assms by (intro stable_sort_canon_idem)
      (auto simp: spec_ports_agree_def list_all_iff canon_rule_idem intro!: host.stable_sort_idem)
  moreover have "map canon_auth (stable_sort byRealm_Less (map canon_auth (stable_sort byRealm_Less (sp_Auths s))))
      = map canon_auth (stable_sort byRealm_Less (sp_Auths s))"
    by (intro stable_sort_canon_idem)
      (auto simp: list_all_iff canon_auth_idem intro!: realm.stable_sort_idem)
  moreover have "map canon_acl (stable_sort byACLName_Less (map canon_acl (stable_sort byACLName_Less (sp_ACLs s))))
      = map canon_acl (stable_sort byACLName_Less (sp_ACLs s))"
    by (intro stable_sort_canon_idem)
      (auto simp: list_all_iff canon_acl_idem intro!: aclname.stable_sort_idem)
  ultimately show ?thesis
    using assms
    by (simp add: Canonical_def spec_ports_agree_def canon_shard_idem gm_map_canon_svc_idem
          canon_disp_idem vclsub.stable_sort_idem list_all_iff zero_Service_def)
qed

section \<open>Equivalent specifications have one canonical form\<close>

text \<open>
  Equivalence of specifications: the same configuration up to the order of those slices whose
  order has no meaning (endpoints, hosts, realms, credentials, ACLs and their entries, values of a
  condition).  The order of rewrites, of dispositions and of the conditions of an \<open>Auth\<close> is kept.
\<close>

definition perm_by :: "('a \<Rightarrow> 'b \<Rightarrow> bool) \<Rightarrow> 'a list \<Rightarrow> 'b list \<Rightarrow> bool" where
  "perm_by R xs ys \<longleftrightarrow> (\<exists>zs. mset zs = mset xs \<and> list_all2 R zs ys)"

definition svc_perm :: "Service \<Rightarrow> Service \<Rightarrow> bool" where
  "svc_perm a b \<longleftrightarrow> mset (svc_Addresses a) = mset (svc_Addresses b)
     \<and> a\<lparr>svc_Addresses := []\<rparr> = b\<lparr>svc_Addresses := []\<rparr>"

definition svcs_perm :: "Service gomap \<Rightarrow> Service gomap \<Rightarrow> bool" where
  "svcs_perm m n \<longleftrightarrow> list_all2 (\<lambda>p q. fst p = fst q \<and> svc_perm (snd p) (snd q)) m n"

definition rule_perm :: "Rule \<Rightarrow> Rule \<Rightarrow> bool" where
  "rule_perm r r' \<longleftrightarrow> rule_Host r = rule_Host r' \<and> svcs_perm (rule_PathMap r) (rule_PathMap r')"

definition auth_perm :: "Auth \<Rightarrow> Auth \<Rightarrow> bool" where
  "auth_perm a b \<longleftrightarrow> mset (auth_Credentials a) = mset (auth_Credentials b)
     \<and> a\<lparr>auth_Credentials := []\<rparr> = b\<lparr>auth_Credentials := []\<rparr>"

definition acl_perm :: "ACL \<Rightarrow> ACL \<Rightarrow> bool" where
  "acl_perm a b \<longleftrightarrow> mset (acl_Addresses a) = mset (acl_Addresses b)
     \<and> mset (acl_Conditions a) = mset (acl_Conditions b)
     \<and> a\<lparr>acl_Addresses := [], acl_Conditions := []\<rparr> = b\<lparr>acl_Addresses := [], acl_Conditions := []\<rparr>"

definition cond_perm :: "Condition \<Rightarrow> Condition \<Rightarrow> bool" where
  "cond_perm a b \<longleftrightarrow> mset (cond_Values a) = mset (cond_Values b)
     \<and> a\<lparr>cond_Values := []\<rparr> = b\<lparr>cond_Values := []\<rparr>"

definition disp_perm :: "DispositionSpec \<Rightarrow> DispositionSpec \<Rightarrow> bool" where
  "disp_perm a b \<longleftrightarrow> list_all2 cond_perm (disp_Conditions a) (disp_Conditions b)
     \<and> disp_Disposition a = disp_Disposition b"

definition spec_perm :: "Spec \<Rightarrow> Spec \<Rightarrow> bool" where
  "spec_perm s t \<longleftrightarrow>
     svc_Name (sp_DefaultService s) = svc_Name (sp_DefaultService t)
     \<and> perm_by rule_perm (sp_Rules s) (sp_Rules t)
     \<and> svcs_perm (sp_AllServices s) (sp_AllServices t)
     \<and> perm_by svc_perm (shard_Nodes (sp_ShardCluster s)) (shard_Nodes (sp_ShardCluster t))
     \<and> (sp_ShardCluster s)\<lparr>shard_Nodes := []\<rparr> = (sp_ShardCluster t)\<lparr>shard_Nodes := []\<rparr>
     \<and> perm_by auth_perm (sp_Auths s) (sp_Auths t)
     \<and> sp_VCL s = sp_VCL t
     \<and> perm_by acl_perm (sp_ACLs s) (sp_ACLs t)
     \<and> sp_Rewrites s = sp_Rewrites t
     \<and> list_all2 disp_perm (sp_Dispositions s) (sp_Dispositions t)"

text \<open>The names by which the code sorts are unique.\<close>

definition spec_keys_distinct :: "Spec \<Rightarrow> bool" where
  "spec_keys_distinct s \<longleftrightarrow>
     distinct (map rule_Host (sp_Rules s)) \<and> distinct (map auth_Realm (sp_Auths s))
     \<and> distinct (map acl_Name (sp_ACLs s))
     \<and> distinct (map svc_Name (shard_Nodes (sp_ShardCluster s)))
     \<and> list_all (\<lambda>l. distinct (map acla_Addr (acl_Addresses l))
                    \<and> distinct (map mt_Comparand (acl_Conditions l))) (sp_ACLs s)"

lemma svc_perm_canon: "svc_perm a b \<Longrightarrow> svc_ports_agree a \<Longrightarrow> canon_svc a = canon_svc b"
proof -
  assume perm: "svc_perm a b" and agree: "svc_ports_agree a"
  then have "canon_addrs (svc_Addresses a) = canon_addrs (svc_Addresses b)"
    by (simp add: svc_perm_def svc_ports_agree_def canon_addrs_perm)
  moreover have "a\<lparr>svc_Addresses := []\<rparr>\<lparr>svc_Addresses := x\<rparr> = b\<lparr>svc_Addresses := []\<rparr>\<lparr>svc_Addresses := x\<rparr>" for x
    using perm by (simp add: svc_perm_def)
  ultimately show ?thesis by (simp add: canon_svc_def)
qed

lemma svcs_perm_canon:
  "svcs_perm m n \<Longrightarrow> list_all (\<lambda>p. svc_ports_agree (snd p)) m \<Longrightarrow>
   gm_map canon_svc m = gm_map canon_svc n"
  unfolding svcs_perm_def gm_map_def
  by (induction rule: list_all2_induct) (auto simp: svc_perm_canon)

lemma rule_perm_canon:
  "rule_perm r r' \<Longrightarrow> list_all (\<lambda>p. svc_ports_agree (snd p)) (rule_PathMap r) \<Longrightarrow>
   canon_rule r = canon_rule r'"
  by (cases r; cases r') (simp add: rule_perm_def canon_rule_def svcs_perm_canon)

lemma auth_perm_canon: "auth_perm a b \<Longrightarrow> canon_auth a = canon_auth b"
proof -
  assume perm: "auth_perm a b"
  then have "sort_strings (auth_Credentials a) = sort_strings (auth_Credentials b)"
    unfolding auth_perm_def by (blast intro: sort_strings_canonical)
  moreover have "a\<lparr>auth_Credentials := []\<rparr>\<lparr>auth_Credentials := x\<rparr>
      = b\<lparr>auth_Credentials := []\<rparr>\<lparr>auth_Credentials := x\<rparr>" for x
    using perm by (simp only: auth_perm_def)
  ultimately show ?thesis by (simp add: canon_auth_def)
qed

lemma distinct_key_eq:
  "distinct (map f xs) \<Longrightarrow> a \<in> set xs \<Longrightarrow> b \<in> set xs \<Longrightarrow>
   \<not> f a < (f b :: 'k::linorder) \<Longrightarrow> \<not> f b < f a \<Longrightarrow> a = b"
  by (auto simp: distinct_map inj_on_def)

lemma acl_perm_canon:
  assumes "acl_perm a b" and "distinct (map acla_Addr (acl_Addresses a))"
    and "distinct (map mt_Comparand (acl_Conditions a))"
  shows "canon_acl a = canon_acl b"
proof -
  have "stable_sort byACLAddr_Less (acl_Addresses a) = stable_sort byACLAddr_Less (acl_Addresses b)"
    using assms by (intro acladdr.stable_sort_canonical)
      (auto simp: acl_perm_def byACLAddr_Less_def list_all_iff dest: distinct_key_eq)
  moreover have "stable_sort byComparand_Less (acl_Conditions a)
      = stable_sort byComparand_Less (acl_Conditions b)"
    using assms by (intro comparand.stable_sort_canonical)
      (auto simp: acl_perm_def byComparand_Less_def list_all_iff dest: distinct_key_eq)
  moreover have "a\<lparr>acl_Addresses := [], acl_Conditions := []\<rparr>\<lparr>acl_Addresses := x, acl_Conditions := y\<rparr>
      = b\<lparr>acl_Addresses := [], acl_Conditions := []\<rparr>\<lparr>acl_Addresses := x, acl_Conditions := y\<rparr>" for x y
    using assms(1) by (simp only: acl_perm_def)
  ultimately show ?thesis by (simp add: canon_acl_def)
qed

lemma cond_perm_canon: "cond_perm a b \<Longrightarrow> canon_cond a = canon_cond b"
proof -
  assume perm: "cond_perm a b"
  then have "sort_strings (cond_Values a) = sort_strings (cond_Values b)"
    unfolding cond_perm_def by (blast intro: sort_strings_canonical)
  moreover have "a\<lparr>cond_Values := []\<rparr>\<lparr>cond_Values := x\<rparr> = b\<lparr>cond_Values := []\<rparr>\<lparr>cond_Values := x\<rparr>" for x
    using perm by (simp only: cond_perm_def)
  ultimately show ?thesis by (simp add: canon_cond_def)
qed

lemma disp_perm_canon: "disp_perm a b \<Longrightarrow> canon_disp a = canon_disp b"
proof -
  assume perm: "disp_perm a b"
  then have "list_all2 cond_perm (disp_Conditions a) (disp_Conditions b)"
    by (simp add: disp_perm_def)
  then have "map canon_cond (disp_Conditions a) = map canon_cond (disp_Conditions b)"
    by (induction rule: list_all2_induct) (simp_all add: cond_perm_canon)
  with perm show ?thesis by (cases a; cases b) (simp add: disp_perm_def canon_disp_def)
qed

lemma map_norm_list_all2:
  "list_all2 R xs ys \<Longrightarrow> (\<And>a b. R a b \<Longrightarrow> f a = f b) \<Longrightarrow> map f xs = map f ys"
  by (induction rule: list_all2_induct) auto

lemma canon_rules_perm:
  assumes "perm_by rule_perm rs rs'" and "distinct (map rule_Host rs)"
    and "list_all (\<lambda>r. list_all (\<lambda>p. svc_ports_agree (snd p)) (rule_PathMap r)) rs"
  shows "map canon_rule (stable_sort byHost_Less rs) = map canon_rule (stable_sort byHost_Less rs')"
proof -
  obtain zs where zs: "mset zs = mset rs" "list_all2 rule_perm zs rs'"
    using assms(1) by (auto simp: perm_by_def)
  show ?thesis
  proof (rule host.stable_sort_normal_form [OF zs])
    show "a = b" if "a \<in> set rs" "b \<in> set rs" "\<not> byHost_Less a b" "\<not> byHost_Less b a" for a b
      using that(3,4) unfolding byHost_Less_def by (rule distinct_key_eq [OF assms(2) that(1,2)])
    show "canon_rule a = canon_rule b" if "a \<in> set rs" "rule_perm a b" for a b
      using rule_perm_canon [OF that(2)] that(1) assms(3) by (simp add: list_all_iff)
  qed (simp_all add: list_all_iff)
qed

lemma canon_auths_perm:
  assumes "perm_by auth_perm xs ys" and "distinct (map auth_Realm xs)"
  shows "map canon_auth (stable_sort byRealm_Less xs) = map canon_auth (stable_sort byRealm_Less ys)"
proof -
  obtain zs where zs: "mset zs = mset xs" "list_all2 auth_perm zs ys"
    using assms(1) by (auto simp: perm_by_def)
  show ?thesis
  proof (rule realm.stable_sort_normal_form [OF zs])
    show "a = b" if "a \<in> set xs" "b \<in> set xs" "\<not> byRealm_Less a b" "\<not> byRealm_Less b a" for a b
      using that(3,4) unfolding byRealm_Less_def by (rule distinct_key_eq [OF assms(2) that(1,2)])
  qed (simp_all add: list_all_iff auth_perm_canon)
qed

lemma canon_acls_perm:
  assumes "perm_by acl_perm xs ys" and "distinct (map acl_Name xs)"
    and "list_all (\<lambda>l. distinct (map acla_Addr (acl_Addresses l))
                    \<and> distinct (map mt_Comparand (acl_Conditions l))) xs"
  shows "map canon_acl (stable_sort byACLName_Less xs) = map canon_acl (stable_sort byACLName_Less ys)"
proof -
  obtain zs where zs: "mset zs = mset xs" "list_all2 acl_perm zs ys"
    using assms(1) by (auto simp: perm_by_def)
  show ?thesis
  proof (rule aclname.stable_sort_normal_form [OF zs])
    show "a = b" if "a \<in> set xs" "b \<in> set xs" "\<not> byACLName_Less a b" "\<not> byACLName_Less b a" for a b
      using that(3,4) unfolding byACLName_Less_def by (rule distinct_key_eq [OF assms(2) that(1,2)])
    show "canon_acl a = canon_acl b" if "a \<in> set xs" "acl_perm a b" for a b
      using that assms(3) by (auto simp: list_all_iff intro: acl_perm_canon)
  qed (simp_all add: list_all_iff)
qed

lemma canon_shard_perm:
  assumes "perm_by svc_perm (shard_Nodes sh) (shard_Nodes sh')"
    and "sh\<lparr>shard_Nodes := []\<rparr> = sh'\<lparr>shard_Nodes := []\<rparr>"
    and "distinct (map svc_Name (shard_Nodes sh))" and "list_all svc_ports_agree (shard_Nodes sh)"
  shows "canon_shard sh = canon_shard sh'"
proof -
  obtain zs where zs: "mset zs = mset (shard_Nodes sh)" "list_all2 svc_perm zs (shard_Nodes sh')"
    using assms(1) by (auto simp: perm_by_def)
  have "map canon_svc (stable_sort byName_Less (shard_Nodes sh))
      = map canon_svc (stable_sort byName_Less (shard_Nodes sh'))"
  proof (rule name.stable_sort_normal_form [OF zs])
    show "a = b" if "a \<in> set (shard_Nodes sh)" "b \<in> set (shard_Nodes sh)"
      "\<not> byName_Less a b" "\<not> byName_Less b a" for a b
      using that(3,4) unfolding byName_Less_def by (rule distinct_key_eq [OF assms(3) that(1,2)])
    show "canon_svc a = canon_svc b" if "a \<in> set (shard_Nodes sh)" "svc_perm a b" for a b
      using svc_perm_canon [OF that(2)] that(1) assms(4) by (simp add: list_all_iff)
  qed (simp_all add: list_all_iff)
  moreover have "sh\<lparr>shard_Nodes := []\<rparr>\<lparr>shard_Nodes := x\<rparr> = sh'\<lparr>shard_Nodes := []\<rparr>\<lparr>shard_Nodes := x\<rparr>" for x
    using assms(2) by (simp only:)
  ultimately show ?thesis by (simp add: canon_shard_def)
qed

lemma spec_perm_Canonical:
  assumes perm: "spec_perm s t" and ports: "spec_ports_agree s" and keys: "spec_keys_distinct s"
  shows "Canonical s = Canonical t"
proof -
  have "map canon_rule (stable_sort byHost_Less (sp_Rules s))
      = map canon_rule (stable_sort byHost_Less (sp_Rules t))"
    using assms by (intro canon_rules_perm)
      (auto simp: spec_perm_def spec_ports_agree_def spec_keys_distinct_def)
  moreover have "gm_map canon_svc (sp_AllServices s) = gm_map canon_svc (sp_AllServices t)"
    using assms by (intro svcs_perm_canon) (auto simp: spec_perm_def spec_ports_agree_def)
  moreover have "canon_shard (sp_ShardCluster s) = canon_shard (sp_ShardCluster t)"
    using assms by (intro canon_shard_perm)
      (auto simp: spec_perm_def spec_ports_agree_def spec_keys_distinct_def)
  moreover have "map canon_auth (stable_sort byRealm_Less (sp_Auths s))
      = map canon_auth (stable_sort byRealm_Less (sp_Auths t))"
    using assms by (intro canon_auths_perm) (auto simp: spec_perm_def spec_keys_distinct_def)
  moreover have "map canon_acl (stable_sort byACLName_Less (sp_ACLs s))
      = map canon_acl (stable_sort byACLName_Less (sp_ACLs t))"
    using assms by (intro canon_acls_perm) (auto simp: spec_perm_def spec_keys_distinct_def)
  moreover have "map canon_disp (sp_Dispositions s) = map canon_disp (sp_Dispositions t)"
    using perm by (intro map_norm_list_all2 [of disp_perm])
      (auto simp: spec_perm_def intro: disp_perm_canon)
  ultimately show ?thesis
    using perm by (simp add: Canonical_def spec_perm_def)
qed

section \<open>What the hash does not see\<close>

text \<open>Changing the type (white- or blacklist) of ACLs.\<close>

definition set_whitelists :: "(string \<Rightarrow> bool) \<Rightarrow> Spec \<Rightarrow> Spec" where
  "set_whitelists w s =
     s\<lparr>sp_ACLs := map (\<lambda>l. l\<lparr>acl_Whitelist := w (acl_Name l)\<rparr>) (sp_ACLs s)\<rparr>"

definition set_reasons :: "(DispositionSpec \<Rightarrow> string) \<Rightarrow> Spec \<Rightarrow> Spec" where
  "set_reasons f s =
     s\<lparr>sp_Dispositions := map (\<lambda>d. d\<lparr>disp_Disposition := (disp_Disposition d)\<lparr>dt_Reason := f d\<rparr>\<rparr>)
         (sp_Dispositions s)\<rparr>"

lemma ACL_hash_canon_whitelist:
  "ACL_hash (canon_acl (l\<lparr>acl_Whitelist := b\<rparr>)) = ACL_hash (canon_acl l)"
  by (simp add: ACL_hash_def canon_acl_def)

lemma stream_set_whitelists:
  "Spec_stream (Canonical (set_whitelists w s)) = Spec_stream (Canonical s)"
proof -
  have "stable_sort byACLName_Less (map (\<lambda>l. l\<lparr>acl_Whitelist := w (acl_Name l)\<rparr>) (sp_ACLs s))
      = map (\<lambda>l. l\<lparr>acl_Whitelist := w (acl_Name l)\<rparr>) (stable_sort byACLName_Less (sp_ACLs s))"
    by (rule stable_sort_map) (simp add: byACLName_Less_def)
  then show ?thesis
    by (simp add: Spec_stream_def Canonical_def set_whitelists_def ACL_hash_canon_whitelist comp_def)
qed

lemma Disposition_hash_canon_reason:
  "DispositionSpec_hash (canon_disp (d\<lparr>disp_Disposition := (disp_Disposition d)\<lparr>dt_Reason := r\<rparr>\<rparr>))
   = DispositionSpec_hash (canon_disp d)"
  by (cases d) (simp add: canon_disp_def DispositionSpec_hash_def)

lemma stream_set_reasons:
  "Spec_stream (Canonical (set_reasons f s)) = Spec_stream (Canonical s)"
  by (simp add: Spec_stream_def Canonical_def set_reasons_def comp_def Disposition_hash_canon_reason)

lemma DeepHash_stream_eq: "Spec_stream s = Spec_stream t \<Longrightarrow> DeepHash s = DeepHash t"
  by (simp add: DeepHash_def)

end
