(* ===== verification/CfgTranslate.thy ===== *)
theory CfgTranslate
  imports K8sObjects GoBase64 VclCanon
begin

text \<open>
  The translation of a \<open>VarnishConfig\<close> into the parts of a VCL specification
  (\<open>pkg/controller/ingress.go\<close>, \<open>getVCLProbe\<close> and the \<open>config...\<close> functions).  Each function
  takes the specification built so far and returns it updated; what the source only logs is left
  out.  Go iterates over a map in an unspecified order: \<open>configAuth\<close> takes the order of the
  entries of each secret as an argument.
\<close>

section \<open>Probes\<close>

text \<open>
  As in the source, \<open>Initial\<close> is taken from \<open>Window\<close>, and a set \<open>Initial\<close> with no \<open>Window\<close> is a
  nil dereference.
\<close>

definition getVCLProbe :: "ProbeSpec \<Rightarrow> (ctl_error, Probe) outcome" where
  "getVCLProbe probe =
     obind (case ps_Initial probe of
              None \<Rightarrow> Ok []
            | Some _ \<Rightarrow> (case ps_Window probe of None \<Rightarrow> Panic | Some w \<Rightarrow> Ok (itoa32 w)))
       (\<lambda>initial. Ok
          \<lparr>probe_URL = ps_URL probe,
           probe_Request = ps_Request probe,
           probe_ExpResponse = (case ps_ExpResponse probe of None \<Rightarrow> 0 | Some r \<Rightarrow> ucast r),
           probe_Timeout = ps_Timeout probe,
           probe_Interval = ps_Interval probe,
           probe_Initial = initial,
           probe_Window = (case ps_Window probe of None \<Rightarrow> [] | Some w \<Rightarrow> itoa32 w),
           probe_Threshold = (case ps_Threshold probe of None \<Rightarrow> [] | Some t \<Rightarrow> itoa32 t)\<rparr>)"

text \<open>A nil pointer gives a nil pointer.\<close>

definition getVCLProbe_ptr :: "ProbeSpec option \<Rightarrow> (ctl_error, Probe option) outcome" where
  "getVCLProbe_ptr probe =
     (case probe of None \<Rightarrow> Ok None | Some p \<Rightarrow> obind (getVCLProbe p) (\<lambda>v. Ok (Some v)))"

lemma getVCLProbe_Panic_iff:
  "getVCLProbe p = Panic \<longleftrightarrow> ps_Initial p \<noteq> None \<and> ps_Window p = None"
  by (auto simp: getVCLProbe_def obind_Panic_iff split: option.splits)

lemma getVCLProbe_no_Err: "getVCLProbe p \<noteq> Err e"
  by (auto simp: getVCLProbe_def split: option.splits)

lemma getVCLProbe_Ok:
  "getVCLProbe p = Ok v \<Longrightarrow>
     probe_Initial v = (if ps_Initial p = None then [] else probe_Window v)
     \<and> probe_Window v = (case ps_Window p of None \<Rightarrow> [] | Some w \<Rightarrow> itoa32 w)"
  by (auto simp: getVCLProbe_def obind_Ok_iff split: option.splits)

section \<open>Comparisons and conditions\<close>

definition configComparison :: "string \<Rightarrow> CompareType \<times> bool" where
  "configComparison cmp =
     (if cmp = vcr_Equal then (Equal, False)
      else if cmp = vcr_NotEqual then (Equal, True)
      else if cmp = vcr_Match then (Match, False)
      else if cmp = vcr_NotMatch then (Match, True)
      else if cmp = vcr_Prefix then (Prefix, False)
      else if cmp = vcr_NotPrefix then (Prefix, True)
      else if cmp = vcr_Exists then (Exists, False)
      else if cmp = vcr_NotExists then (Exists, True)
      else if cmp = vcr_Greater then (Greater, False)
      else if cmp = vcr_GreaterEqual then (GreaterEqual, False)
      else if cmp = vcr_Less then (Less, False)
      else if cmp = vcr_LessEqual then (LessEqual, False)
      else (Equal, False))"

definition configCondition :: "CfgCondition \<Rightarrow> MatchTerm" where
  "configCondition cond =
     \<lparr>mt_Comparand = cc_Comparand cond, mt_Value = cc_Value cond,
      mt_Compare = fst (configComparison (cc_Compare cond)),
      mt_Negate = snd (configComparison (cc_Compare cond))\<rparr>"

text \<open>The target slice is overwritten; unequal lengths are a panic.\<close>

definition configConditions ::
    "MatchTerm list \<Rightarrow> CfgCondition list \<Rightarrow> (ctl_error, MatchTerm list) outcome" where
  "configConditions vclConds vcfgConds =
     (if length vclConds \<noteq> length vcfgConds then Panic
      else Ok (map configCondition vcfgConds))"

lemma configConditions_made:
  "configConditions (replicate (length cs) z) cs = Ok (map configCondition cs)"
  by (simp add: configConditions_def)

text \<open>
  The callers make the target slice with the length of the source, so that their call is
  \<open>map configCondition\<close> (\<open>configConditions_made\<close>), which the definitions below use.
\<close>

text \<open>The text of a comparison, which \<open>configComparison\<close> reads back; an ordering has no negation.\<close>

fun comparison_text :: "CompareType \<times> bool \<Rightarrow> string" where
  "comparison_text (Equal, n) = (if n then vcr_NotEqual else vcr_Equal)"
| "comparison_text (Match, n) = (if n then vcr_NotMatch else vcr_Match)"
| "comparison_text (Prefix, n) = (if n then vcr_NotPrefix else vcr_Prefix)"
| "comparison_text (Exists, n) = (if n then vcr_NotExists else vcr_Exists)"
| "comparison_text (Greater, n) = vcr_Greater"
| "comparison_text (GreaterEqual, n) = vcr_GreaterEqual"
| "comparison_text (Less, n) = vcr_Less"
| "comparison_text (LessEqual, n) = vcr_LessEqual"

fun negatable :: "CompareType \<times> bool \<Rightarrow> bool" where
  "negatable (c, n) \<longleftrightarrow> n \<longrightarrow> c \<in> {Equal, Match, Prefix, Exists}"

lemma configComparison_text: "negatable cn \<Longrightarrow> configComparison (comparison_text cn) = cn"
  by (cases cn rule: comparison_text.cases)
    (simp_all add: configComparison_def)

lemma configComparison_negatable: "negatable (configComparison s)"
  by (simp add: configComparison_def)

lemma configComparison_ordering:
  "fst (configComparison s) \<in> {Greater, GreaterEqual, Less, LessEqual} \<longleftrightarrow> ordering_compare s"
  by (auto simp: configComparison_def ordering_compare_def)

lemma configComparison_Exists:
  "fst (configComparison s) = Exists \<longleftrightarrow> s \<in> {vcr_Exists, vcr_NotExists}"
  by (auto simp: configComparison_def)

section \<open>Authentication\<close>

definition cred_text :: "string \<times> bytes \<Rightarrow> string" where
  "cred_text up = base64 (fst up @ '':'' @ snd up)"

definition configAuth1 ::
    "((string \<times> bytes) list \<Rightarrow> (string \<times> bytes) list) \<Rightarrow> AuthSpec \<Rightarrow> Secret \<Rightarrow> Auth" where
  "configAuth1 order auth secret =
     \<lparr>auth_Conditions = map configCondition (as_Conditions auth),
      auth_Credentials = map cred_text (order (secr_Data secret)),
      auth_Realm = as_Realm auth,
      auth_Status = (if as_Type auth = [] \<or> as_Type auth = vcr_Basic then Basic else Proxy),
      auth_UTF8 = as_UTF8 auth\<rparr>"

text \<open>
  The loop over the auth specs, in the namespace \<open>ns\<close> of the worker; \<open>order i\<close> is the order in
  which the \<open>i\<close>-th secret's map is iterated.  An empty secret is skipped.
\<close>

fun auth_loop ::
    "(nat \<Rightarrow> (string \<times> bytes) list \<Rightarrow> (string \<times> bytes) list) \<Rightarrow> Listers \<Rightarrow> string \<Rightarrow> nat
      \<Rightarrow> AuthSpec list \<Rightarrow> (ctl_error, Auth list) outcome" where
  "auth_loop order L ns i [] = Ok []"
| "auth_loop order L ns i (auth # auths) =
     obind (lift_api (l_secr_Get L ns (as_SecretName auth))) (\<lambda>secret.
     obind (auth_loop order L ns (Suc i) auths) (\<lambda>rest.
       Ok (if secr_Data secret = [] then rest
           else configAuth1 (order i) auth secret # rest)))"

definition configAuth ::
    "(nat \<Rightarrow> (string \<times> bytes) list \<Rightarrow> (string \<times> bytes) list) \<Rightarrow> Listers \<Rightarrow> string
      \<Rightarrow> Spec \<Rightarrow> VarnishConfig \<Rightarrow> (ctl_error, Spec) outcome" where
  "configAuth order L ns spec vcfg =
     (if vcs_Auth (vcfg_Spec vcfg) = [] then Ok spec
      else obind (auth_loop order L ns 0 (vcs_Auth (vcfg_Spec vcfg)))
             (\<lambda>auths. Ok (spec\<lparr>sp_Auths := auths\<rparr>)))"

section \<open>Access control lists\<close>

definition configACLAddress :: "CfgACLAddress \<Rightarrow> ACLAddress" where
  "configACLAddress addr =
     \<lparr>acla_Addr = caa_Address addr,
      acla_MaskBits = (case caa_MaskBits addr of None \<Rightarrow> NoMaskBits | Some m \<Rightarrow> ucast m),
      acla_Negate = caa_Negate addr\<rparr>"

definition configACL1 :: "ACLSpec \<Rightarrow> ACL" where
  "configACL1 acl =
     \<lparr>acl_Name = aclS_Name acl,
      acl_Comparand = (if aclS_Comparand acl = [] then ''client.ip'' else aclS_Comparand acl),
      acl_FailStatus = (case aclS_FailStatus acl of None \<Rightarrow> 403 | Some s \<Rightarrow> ucast s),
      acl_Whitelist = (aclS_ACLType acl = [] \<or> aclS_ACLType acl = vcr_Whitelist),
      acl_Addresses = map configACLAddress (aclS_Addresses acl),
      acl_Conditions = map configCondition (aclS_Conditions acl),
      acl_ResultHdr =
        (case aclS_ResultHdr acl of
           None \<Rightarrow> zero_ResultHdr
         | Some h \<Rightarrow> \<lparr>rh_Header = crh_Header h, rh_Success = crh_Success h,
                      rh_Failure = crh_Failure h\<rparr>)\<rparr>"

definition configACL :: "Spec \<Rightarrow> VarnishConfig \<Rightarrow> Spec" where
  "configACL spec vcfg =
     (if vcs_ACLs (vcfg_Spec vcfg) = [] then spec
      else spec\<lparr>sp_ACLs := map configACL1 (vcs_ACLs (vcfg_Spec vcfg))\<rparr>)"

section \<open>Match flags\<close>

definition configMatchFlags :: "CfgMatchFlags \<Rightarrow> MatchFlagsType" where
  "configMatchFlags flags =
     \<lparr>mf_MaxMem = (case cmf_MaxMem flags of None \<Rightarrow> 0 | Some m \<Rightarrow> m),
      mf_Anchor = (if cmf_Anchor flags = vcr_Start then AnchorStart
                   else if cmf_Anchor flags = vcr_Both then AnchorBoth else AnchorNone),
      mf_UTF8 = cmf_UTF8 flags,
      mf_PosixSyntax = cmf_PosixSyntax flags,
      mf_LongestMatch = cmf_LongestMatch flags,
      mf_Literal = cmf_Literal flags,
      mf_NeverCapture = cmf_NeverCapture flags,
      mf_CaseSensitive = (case cmf_CaseSensitive flags of None \<Rightarrow> True | Some b \<Rightarrow> b),
      mf_PerlClasses = cmf_PerlClasses flags,
      mf_WordBoundary = cmf_WordBoundary flags\<rparr>"

definition configFlags_ptr :: "CfgMatchFlags option \<Rightarrow> MatchFlagsType" where
  "configFlags_ptr flags =
     (case flags of None \<Rightarrow> zero_MatchFlags\<lparr>mf_CaseSensitive := True\<rparr>
      | Some f \<Rightarrow> configMatchFlags f)"

section \<open>Rewrites\<close>

definition configMethod :: "string \<Rightarrow> (ctl_error, MethodType) outcome" where
  "configMethod m =
     (if m = vcr_Replace then Ok Replace
      else if m = vcr_Sub then Ok Sub
      else if m = vcr_Suball then Ok Suball
      else if m = vcr_Rewrite then Ok RewriteMethod
      else if m = vcr_Append then Ok Append
      else if m = vcr_Prepend then Ok Prepend
      else if m = vcr_Delete then Ok Delete
      else Err (IllegalMethod m))"

definition configVCLSub :: "string \<Rightarrow> SubType" where
  "configVCLSub s =
     (if s = vcr_Recv then Recv
      else if s = vcr_Pipe then Pipe
      else if s = vcr_Pass then Pass
      else if s = vcr_Hash then Hash
      else if s = vcr_Purge then Purge
      else if s = vcr_Miss then Miss
      else if s = vcr_Hit then Hit
      else if s = vcr_Deliver then Deliver
      else if s = vcr_Synth then Synth
      else if s = vcr_BackendFetch then BackendFetch
      else if s = vcr_BackendResponse then BackendResponse
      else if s = vcr_BackendError then BackendError
      else Unspecified)"

definition configSelect :: "string \<Rightarrow> SelectType" where
  "configSelect s =
     (if s = vcr_Unique then Unique
      else if s = vcr_First then First
      else if s = vcr_Last then Last
      else if s = vcr_Exact then Exact
      else if s = vcr_Longest then Longest
      else if s = vcr_Shortest then Shortest
      else Unique)"

definition configSource :: "RewriteSpec \<Rightarrow> string" where
  "configSource rw =
     (if rs_Source rw \<noteq> [] then rs_Source rw
      else if rs_Method rw \<in> {vcr_Sub, vcr_Suball, vcr_Rewrite}
           \<or> (rs_Method rw \<in> {vcr_Replace, vcr_Append, vcr_Prepend} \<and> length (rs_Rules rw) \<noteq> 1)
      then rs_Target rw
      else [])"

definition configRewrite :: "RewriteSpec \<Rightarrow> (ctl_error, Rewrite) outcome" where
  "configRewrite rw =
     obind (configMethod (rs_Method rw)) (\<lambda>method.
     let compare = (if rs_Compare rw = [] then vcr_Match else rs_Compare rw) in
     Ok \<lparr>rw_Rules =
           map (\<lambda>r. \<lparr>rwr_Value = crr_Value r, rwr_Rewrite = crr_Rewrite r\<rparr>) (rs_Rules rw),
         rw_MatchFlags = configFlags_ptr (rs_MatchFlags rw),
         rw_Target = rs_Target rw,
         rw_Source = configSource rw,
         rw_Method = method,
         rw_Compare = fst (configComparison compare),
         rw_Negate = snd (configComparison compare),
         rw_VCLSub = configVCLSub (rs_VCLSub rw),
         rw_Select = configSelect (rs_Select rw)\<rparr>)"

definition configRewrites :: "Spec \<Rightarrow> VarnishConfig \<Rightarrow> (ctl_error, Spec) outcome" where
  "configRewrites spec vcfg =
     (if vcs_Rewrites (vcfg_Spec vcfg) = [] then Ok spec
      else obind (omap configRewrite (vcs_Rewrites (vcfg_Spec vcfg)))
             (\<lambda>rws. Ok (spec\<lparr>sp_Rewrites := rws\<rparr>)))"

lemma configMethod_no_Panic [simp]: "configMethod m \<noteq> Panic"
  by (simp add: configMethod_def)

lemma configRewrite_no_Panic [simp]: "configRewrite rw \<noteq> Panic"
  by (simp add: configRewrite_def obind_Panic_iff Let_def)

lemma configMethod_Delete: "configMethod m = Ok Delete \<longleftrightarrow> m = vcr_Delete"
  by (simp add: configMethod_def)

section \<open>Request dispositions\<close>

definition configReqCondition :: "ReqCondition \<Rightarrow> Condition" where
  "configReqCondition cond =
     \<lparr>cond_Values = rc_Values cond,
      cond_MatchFlags = configFlags_ptr (rc_MatchFlags cond),
      cond_Count = rc_Count cond,
      cond_Comparand = rc_Comparand cond,
      cond_Compare = fst (configComparison (rc_Compare cond)),
      cond_Negate = snd (configComparison (rc_Compare cond))\<rparr>"

text \<open>Without a status, the action \<open>synth\<close> is a nil dereference.\<close>

definition configDisposition :: "CfgDisposition \<Rightarrow> (ctl_error, DispositionType) outcome" where
  "configDisposition d =
     (if cd_Action d = vcr_RecvSynth then
        (case cd_Status d of
           None \<Rightarrow> Panic
         | Some s \<Rightarrow> Ok \<lparr>dt_Action = cd_Action d, dt_Status = ucast s, dt_Reason = cd_Reason d\<rparr>)
      else Ok \<lparr>dt_Action = cd_Action d, dt_Status = 0, dt_Reason = []\<rparr>)"

definition configReqDisp :: "RequestDispSpec \<Rightarrow> (ctl_error, DispositionSpec) outcome" where
  "configReqDisp disp =
     obind (configDisposition (rd_Disposition disp)) (\<lambda>d. Ok
       \<lparr>disp_Conditions = map configReqCondition (rd_Conditions disp),
        disp_Disposition = d\<rparr>)"

definition configReqDisps :: "Spec \<Rightarrow> RequestDispSpec list \<Rightarrow> (ctl_error, Spec) outcome" where
  "configReqDisps spec reqDisps =
     (if reqDisps = [] then Ok spec
      else obind (omap configReqDisp reqDisps) (\<lambda>ds. Ok (spec\<lparr>sp_Dispositions := ds\<rparr>)))"

lemma configDisposition_Panic_iff:
  "configDisposition d = Panic \<longleftrightarrow> cd_Action d = vcr_RecvSynth \<and> cd_Status d = None"
  by (simp add: configDisposition_def split: option.split)

lemma configReqDisp_Panic_iff:
  "configReqDisp d = Panic \<longleftrightarrow>
     cd_Action (rd_Disposition d) = vcr_RecvSynth \<and> cd_Status (rd_Disposition d) = None"
  by (simp add: configReqDisp_def obind_Panic_iff configDisposition_Panic_iff)

lemma configReqDisp_no_Err: "configReqDisp d \<noteq> Err e"
  by (simp add: configReqDisp_def configDisposition_def split: option.split)

lemma omap_no_Err:
  "(\<And>x. x \<in> set xs \<Longrightarrow> \<nexists>e. f x = Err e) \<Longrightarrow> omap f xs = Panic \<longleftrightarrow> (\<exists>x \<in> set xs. f x = Panic)"
proof (induction xs)
  case (Cons x xs)
  then show ?case by (cases "f x") (auto simp: obind_Panic_iff)
qed simp

lemma configReqDisps_Panic_iff:
  "configReqDisps spec ds = Panic \<longleftrightarrow>
     (\<exists>d \<in> set ds. cd_Action (rd_Disposition d) = vcr_RecvSynth
        \<and> cd_Status (rd_Disposition d) = None)"
  by (auto simp: configReqDisps_def obind_Panic_iff omap_no_Err configReqDisp_no_Err
        configReqDisp_Panic_iff)

end
