(* ===== verification/SpecBuild.thy ===== *)
theory SpecBuild
  imports CfgTranslate
begin

text \<open>
  From Ingresses to a VCL specification (\<open>pkg/controller/ingress.go\<close>): the check for conflicting
  Ingresses, the addresses and the configuration of a backend, \<open>ings2VCLSpec\<close>, and the
  configuration of self-sharding.
\<close>

section \<open>Conflicting Ingresses\<close>

datatype merge_error =
    TwoDefaultBackends string string
  | HostTwice string string string

definition ing_key :: "Ingress \<Rightarrow> string" where
  "ing_key ing = ing_Namespace ing @ ''/'' @ ing_Name ing"

fun merge_rules :: "Ingress \<Rightarrow> IngressRule list \<Rightarrow> Ingress gomap
      \<Rightarrow> (merge_error, Ingress gomap) outcome" where
  "merge_rules ing [] host2ing = Ok host2ing"
| "merge_rules ing (r # rs) host2ing =
     (case gm_get host2ing (ir_Host r) of
        Some other \<Rightarrow> Err (HostTwice (ir_Host r) (ing_key other) (ing_key ing))
      | None \<Rightarrow> merge_rules ing rs (gm_put (ir_Host r) ing host2ing))"

fun merge_loop :: "Ingress list \<Rightarrow> Ingress gomap \<Rightarrow> Ingress option
      \<Rightarrow> (merge_error, unit) outcome" where
  "merge_loop [] host2ing dflt = Ok ()"
| "merge_loop (ing # ings) host2ing dflt =
     (case (ing_Backend ing, dflt) of
        (Some _, Some other) \<Rightarrow> Err (TwoDefaultBackends (ing_key ing) (ing_key other))
      | _ \<Rightarrow>
          obind (merge_rules ing (ing_Rules ing) host2ing) (\<lambda>host2ing'.
            merge_loop ings host2ing'
              (if ing_Backend ing \<noteq> None then Some ing else dflt)))"

definition ingMergeError :: "Ingress list \<Rightarrow> (merge_error, unit) outcome" where
  "ingMergeError ings = merge_loop ings [] None"

section \<open>Backends\<close>

definition port_matches :: "IntOrString \<Rightarrow> ServicePort \<Rightarrow> bool" where
  "port_matches ingSvcPort port \<longleftrightarrow>
     (ios_Type ingSvcPort = TInt \<and> kp_Port port = ios_IntVal ingSvcPort)
     \<or> (ios_Type ingSvcPort = TString \<and> kp_Name port = ios_StrVal ingSvcPort)"

definition ingBackend2Addrs ::
    "Listers \<Rightarrow> string \<Rightarrow> IngressBackend \<Rightarrow> (ctl_error, Address list) outcome" where
  "ingBackend2Addrs L ns backend =
     obind (lift_api (l_svc_Get L ns (ib_ServiceName backend))) (\<lambda>svc.
     obind (map_err (EndpointsErr (svc_key svc)) (getServiceEndpoints L svc)) (\<lambda>endps.
     obind (case find (port_matches (ib_ServicePort backend)) (ks_Ports svc) of
              None \<Rightarrow> Ok 0
            | Some port \<Rightarrow> map_err TargetPortErr (getTargetPort L port svc)) (\<lambda>targetPort.
       if targetPort = 0 then Err (NoServicePort (svc_key svc))
       else endpsTargetPort2Addrs svc endps targetPort)))"

text \<open>The first BackendConfig of the list that names the service.\<close>

definition find_bcfg :: "string \<Rightarrow> BackendConfig list \<Rightarrow> BackendConfig option" where
  "find_bcfg svcName bcfgs = find (\<lambda>b. svcName \<in> set (bcs_Services (bcfg_Spec b))) bcfgs"

definition configDirector :: "DirectorSpec \<Rightarrow> Director" where
  "configDirector d =
     \<lparr>dir_Rampup = ds_Rampup d,
      dir_Warmup = (case ds_Warmup d of None \<Rightarrow> 0 | Some w \<Rightarrow> w),
      dir_Type = GetDirectorType (ds_Type d)\<rparr>"

definition apply_bcfg :: "BackendConfigSpec \<Rightarrow> Service \<Rightarrow> (ctl_error, Service) outcome" where
  "apply_bcfg b vclSvc =
     obind (getVCLProbe_ptr (bcs_Probe b)) (\<lambda>probe. Ok (vclSvc
       \<lparr>svc_Director := map_option configDirector (bcs_Director b),
        svc_Probe := probe,
        svc_HostHeader := bcs_HostHeader b,
        svc_ConnectTimeout := bcs_ConnectTimeout b,
        svc_FirstByteTimeout := bcs_FirstByteTimeout b,
        svc_BetweenBytesTimeout := bcs_BetweenBytesTimeout b,
        svc_MaxConnections := (case bcs_MaxConnections b of None \<Rightarrow> 0 | Some m \<Rightarrow> m),
        svc_ProxyHeader := (case bcs_ProxyHeader b of None \<Rightarrow> 0 | Some p \<Rightarrow> ucast p)\<rparr>))"

definition getVCLSvc ::
    "Listers \<Rightarrow> string \<Rightarrow> string \<Rightarrow> Address list
      \<Rightarrow> (ctl_error, Service \<times> BackendConfig option) outcome" where
  "getVCLSvc L svcNamespace svcName addrs =
     (let ns = (if svcNamespace = [] then ''default'' else svcNamespace);
          vclSvc = zero_Service\<lparr>svc_Name := ns @ ''/'' @ svcName, svc_Addresses := addrs\<rparr>
      in case l_bcfg_List L ns of
           Inl e \<Rightarrow> if IsNotFound e then Ok (vclSvc, None) else Err (ApiErr e)
         | Inr bcfgs \<Rightarrow>
             (case find_bcfg svcName bcfgs of
                None \<Rightarrow> Ok (vclSvc, None)
              | Some b \<Rightarrow> obind (apply_bcfg (bcfg_Spec b) vclSvc) (\<lambda>s. Ok (s, Some b))))"

text \<open>The two calls every backend of an Ingress goes through.\<close>

definition backendSvc ::
    "Listers \<Rightarrow> string \<Rightarrow> IngressBackend \<Rightarrow> (ctl_error, Service \<times> BackendConfig option) outcome" where
  "backendSvc L ns backend =
     obind (ingBackend2Addrs L ns backend) (getVCLSvc L ns (ib_ServiceName backend))"

section \<open>ings2VCLSpec\<close>

type_synonym build = "Spec \<times> BackendConfig gomap"

definition ing_ns :: "Ingress \<Rightarrow> string" where
  "ing_ns ing = (if ing_Namespace ing = [] then ''default'' else ing_Namespace ing)"

fun put_bcfg :: "string \<Rightarrow> BackendConfig option \<Rightarrow> BackendConfig gomap \<Rightarrow> BackendConfig gomap" where
  "put_bcfg name None m = m"
| "put_bcfg name (Some b) m = gm_put name b m"

definition put_service :: "string \<Rightarrow> Service \<Rightarrow> BackendConfig option \<Rightarrow> build \<Rightarrow> build" where
  "put_service key svc b st =
     ((fst st)\<lparr>sp_AllServices := gm_put key svc (sp_AllServices (fst st))\<rparr>,
      put_bcfg (svc_Name svc) b (snd st))"

definition default_step ::
    "Listers \<Rightarrow> string \<Rightarrow> IngressBackend \<Rightarrow> build \<Rightarrow> (ctl_error, build) outcome" where
  "default_step L ns backend st =
     (if svc_Name (sp_DefaultService (fst st)) \<noteq> [] then Panic
      else obind (backendSvc L ns backend) (\<lambda>(svc, b).
        Ok (put_service (ns @ ''/'' @ ib_ServiceName backend) svc b
              ((fst st)\<lparr>sp_DefaultService := svc\<rparr>, snd st))))"

definition path_step ::
    "Listers \<Rightarrow> string \<Rightarrow> HTTPIngressPath \<Rightarrow> Rule \<times> build \<Rightarrow> (ctl_error, Rule \<times> build) outcome" where
  "path_step L ns path st =
     obind (backendSvc L ns (ip_Backend path)) (\<lambda>(svc, b). Ok
       ((fst st)\<lparr>rule_PathMap := gm_put (ip_Path path) svc (rule_PathMap (fst st))\<rparr>,
        put_service (ns @ ''/'' @ ib_ServiceName (ip_Backend path)) svc b (snd st)))"

definition add_rule :: "Rule \<Rightarrow> build \<Rightarrow> build" where
  "add_rule r st = ((fst st)\<lparr>sp_Rules := sp_Rules (fst st) @ [r]\<rparr>, snd st)"

definition rule_step :: "Listers \<Rightarrow> string \<Rightarrow> IngressRule \<Rightarrow> build \<Rightarrow> (ctl_error, build) outcome" where
  "rule_step L ns rule st =
     (if ir_Host rule = [] then Err EmptyHost
      else
        (let vclRule = \<lparr>rule_Host = ir_Host rule, rule_PathMap = []\<rparr>
         in case ir_HTTP rule of
              None \<Rightarrow> Ok (add_rule vclRule st)
            | Some paths \<Rightarrow>
                obind (ofold (path_step L ns) paths (vclRule, st))
                  (\<lambda>(r, st'). Ok (add_rule r st'))))"

definition ing_step :: "Listers \<Rightarrow> Ingress \<Rightarrow> build \<Rightarrow> (ctl_error, build) outcome" where
  "ing_step L ing st =
     obind (case ing_Backend ing of None \<Rightarrow> Ok st | Some b \<Rightarrow> default_step L (ing_ns ing) b st)
       (ofold (rule_step L (ing_ns ing)) (ing_Rules ing))"

definition ings2VCLSpec :: "Listers \<Rightarrow> Ingress list \<Rightarrow> (ctl_error, build) outcome" where
  "ings2VCLSpec L ings = ofold (ing_step L) ings (zero_Spec, [])"

section \<open>Self-sharding\<close>

definition http_port :: "EndpointPort list \<Rightarrow> int32 \<Rightarrow> int32" where
  "http_port ports p =
     fold (\<lambda>port p. if p = 0 \<and> ep_Name port = ''http'' then ep_Port port else p) ports p"

definition shard_node :: "int32 \<Rightarrow> Pod \<Rightarrow> Service" where
  "shard_node httpPort pod =
     zero_Service
       \<lparr>svc_Name := (if pod_Hostname pod \<noteq> [] then pod_Hostname pod else om_Name (pod_Meta pod)),
        svc_Addresses := [\<lparr>addr_IP = pod_PodIP pod, addr_Port = httpPort\<rparr>]\<rparr>"

definition podNodes :: "string \<Rightarrow> int32 \<Rightarrow> api_error + Pod list \<Rightarrow> (ctl_error, Service list) outcome" where
  "podNodes key httpPort r =
     (case r of
        Inl e \<Rightarrow> Err (PodInfoErr e)
      | Inr pods \<Rightarrow>
          if length pods \<le> 1 then Err (TooFewPods (length pods) key)
          else Ok (map (shard_node httpPort) pods))"

text \<open>The nodes of the cluster: one per Pod of the Service, at the http port of its endpoints.\<close>

definition shardNodes :: "Listers \<Rightarrow> KService \<Rightarrow> (ctl_error, Service list) outcome" where
  "shardNodes L svc =
     obind (map_err (EndpointsErr (svc_key svc)) (getServiceEndpoints L svc)) (\<lambda>endps.
     let subsets = endp_Subsets endps;
         nAddrs = sum_list (map (\<lambda>s. length (es_Addresses s)
                                   + length (es_NotReadyAddresses s)) subsets);
         httpPort = fold (\<lambda>s. http_port (es_Ports s)) subsets 0
     in if httpPort = 0 then Err (NoHttpPort (svc_key svc))
        else if nAddrs \<le> 1 then Err (TooFewAddresses nAddrs (svc_key svc))
        else podNodes (svc_key svc) httpPort (l_pods L svc))"

definition configSharding ::
    "Listers \<Rightarrow> Spec \<Rightarrow> VarnishConfig \<Rightarrow> KService \<Rightarrow> (ctl_error, Spec) outcome" where
  "configSharding L spec vcfg svc =
     (case vcs_SelfSharding (vcfg_Spec vcfg) of
        None \<Rightarrow> Ok spec
      | Some cfgSpec \<Rightarrow>
          obind (shardNodes L svc) (\<lambda>nodes.
          obind (getVCLProbe (ss_Probe cfgSpec)) (\<lambda>probe.
          let shard = sp_ShardCluster spec in
          Ok (spec\<lparr>sp_ShardCluster := shard
            \<lparr>shard_Nodes := shard_Nodes shard @ nodes,
             shard_Probe := probe,
             shard_MaxSecondaryTTL :=
               (if ss_Max2ndTTL cfgSpec \<noteq> [] then ss_Max2ndTTL cfgSpec
                else shard_MaxSecondaryTTL shard)\<rparr>\<rparr>))))"

section \<open>The merge check\<close>

definition ing_hosts :: "Ingress \<Rightarrow> string list" where
  "ing_hosts ing = map ir_Host (ing_Rules ing)"

text \<open>What the check accepts: at most one default backend, and no host twice.\<close>

definition ings_mergeable :: "Ingress list \<Rightarrow> bool" where
  "ings_mergeable ings \<longleftrightarrow>
     length (filter (\<lambda>i. ing_Backend i \<noteq> None) ings) \<le> 1
     \<and> distinct (concat (map ing_hosts ings))"

lemma merge_rules_Ok_iff:
  "(\<exists>m'. merge_rules ing rs m = Ok m') \<longleftrightarrow>
     distinct (map ir_Host rs) \<and> set (map ir_Host rs) \<inter> fst ` set m = {}"
proof (induction rs arbitrary: m)
  case (Cons r rs)
  show ?case
  proof (cases "gm_get m (ir_Host r)")
    case None
    then have "ir_Host r \<notin> fst ` set m" by (simp add: gm_get_None_iff)
    with None Cons [of "gm_put (ir_Host r) ing m"] show ?thesis by auto
  next
    case (Some other)
    then have "ir_Host r \<in> fst ` set m" by (metis gm_get_None_iff option.distinct(1))
    with Some show ?thesis by auto
  qed
qed simp

lemma merge_rules_keys:
  "merge_rules ing rs m = Ok m' \<Longrightarrow> fst ` set m' = set (map ir_Host rs) \<union> fst ` set m"
  by (induction rs arbitrary: m) (auto split: option.split_asm)

lemma merge_loop_Ok_iff:
  "merge_loop ings m d = Ok () \<longleftrightarrow>
     length (filter (\<lambda>i. ing_Backend i \<noteq> None) ings) + (if d = None then 0 else 1) \<le> 1
     \<and> distinct (concat (map ing_hosts ings))
     \<and> set (concat (map ing_hosts ings)) \<inter> fst ` set m = {}"
proof (induction ings arbitrary: m d)
  case (Cons ing ings)
  let ?n = "\<lambda>is. length (filter (\<lambda>i. ing_Backend i \<noteq> None) is)"
  show ?case
  proof (cases "ing_Backend ing \<noteq> None \<and> d \<noteq> None")
    case True
    then show ?thesis by auto
  next
    case False
    let ?d = "if ing_Backend ing \<noteq> None then Some ing else d"
    have step: "merge_loop (ing # ings) m d
        = obind (merge_rules ing (ing_Rules ing) m) (\<lambda>m'. merge_loop ings m' ?d)"
      using False by (auto split: option.split)
    show ?thesis
    proof (cases "\<exists>m'. merge_rules ing (ing_Rules ing) m = Ok m'")
      case True
      then obtain m' where m': "merge_rules ing (ing_Rules ing) m = Ok m'" by auto
      have h: "distinct (ing_hosts ing)" "set (ing_hosts ing) \<inter> fst ` set m = {}"
        using True merge_rules_Ok_iff [of ing "ing_Rules ing" m] by (auto simp: ing_hosts_def)
      have k: "fst ` set m' = set (ing_hosts ing) \<union> fst ` set m"
        using merge_rules_keys [OF m'] by (simp add: ing_hosts_def)
      show ?thesis unfolding step m' using Cons.IH [of m' ?d] False h k by auto
    next
      case no: False
      then have "\<not> (distinct (ing_hosts ing) \<and> set (ing_hosts ing) \<inter> fst ` set m = {})"
        using merge_rules_Ok_iff [of ing "ing_Rules ing" m] by (auto simp: ing_hosts_def)
      moreover have "merge_loop (ing # ings) m d \<noteq> Ok ()"
        unfolding step using no by (auto simp: obind_Ok_iff)
      ultimately show ?thesis by auto
    qed
  qed
qed auto

lemma ingMergeError_Ok_iff: "ingMergeError ings = Ok () \<longleftrightarrow> ings_mergeable ings"
  by (simp add: ingMergeError_def merge_loop_Ok_iff ings_mergeable_def)

section \<open>The specification that is built\<close>

text \<open>
  The invariant of the build: the maps are maps, every service is stored under its own name, every
  service a rule routes to is known under its name, the addresses of a service have one port, every
  rule has a host, and the default service, when there is one, is known.
\<close>

definition services_ok :: "Service gomap \<Rightarrow> bool" where
  "services_ok m \<longleftrightarrow>
     gm_ok m \<and> (\<forall>(k, svc) \<in> set m. svc_Name svc = k \<and> k \<noteq> [] \<and> svc_ports_agree svc)"

definition rule_closed :: "Service gomap \<Rightarrow> Rule \<Rightarrow> bool" where
  "rule_closed m r \<longleftrightarrow>
     gm_ok (rule_PathMap r)
     \<and> (\<forall>(p, svc) \<in> set (rule_PathMap r). gm_get m (svc_Name svc) \<noteq> None \<and> svc_ports_agree svc)"

definition build_ok :: "Spec \<Rightarrow> bool" where
  "build_ok spec \<longleftrightarrow>
     services_ok (sp_AllServices spec)
     \<and> (\<forall>r \<in> set (sp_Rules spec). rule_Host r \<noteq> [] \<and> rule_closed (sp_AllServices spec) r)
     \<and> (svc_Name (sp_DefaultService spec) \<noteq> [] \<longrightarrow>
          gm_get (sp_AllServices spec) (svc_Name (sp_DefaultService spec)) \<noteq> None)
     \<and> shard_Nodes (sp_ShardCluster spec) = []"

lemma getVCLSvc_Name:
  "getVCLSvc L ns name addrs = Ok (svc, b) \<Longrightarrow>
     svc_Name svc = (if ns = [] then ''default'' else ns) @ ''/'' @ name
     \<and> svc_Addresses svc = addrs"
  by (auto simp: getVCLSvc_def Let_def apply_bcfg_def obind_Ok_iff
        split: sum.split_asm option.split_asm if_split_asm)

lemma ingBackend2Addrs_ports: "ingBackend2Addrs L ns ib = Ok addrs \<Longrightarrow> ports_agree addrs"
proof -
  assume "ingBackend2Addrs L ns ib = Ok addrs"
  then obtain ss p where "subsets_addrs ss p = Some addrs"
    by (auto simp: ingBackend2Addrs_def obind_Ok_iff endpsTargetPort2Addrs_def
          split: if_split_asm option.split_asm)
  from subsets_addrs_port [OF this] show ?thesis
    by (cases addrs) (auto simp: ports_agree_def list_all_iff)
qed

lemma backendSvc_Name:
  "backendSvc L ns ib = Ok (svc, b) \<Longrightarrow> ns \<noteq> [] \<Longrightarrow>
     svc_Name svc = ns @ ''/'' @ ib_ServiceName ib \<and> svc_ports_agree svc"
  by (auto simp: backendSvc_def obind_Ok_iff svc_ports_agree_def
        dest!: getVCLSvc_Name ingBackend2Addrs_ports)

lemma ing_ns_nonempty [simp]: "ing_ns ing \<noteq> []"
  by (simp add: ing_ns_def)

lemma put_service_All [simp]:
  "sp_AllServices (fst (put_service k svc b st)) = gm_put k svc (sp_AllServices (fst st))"
  "sp_Rules (fst (put_service k svc b st)) = sp_Rules (fst st)"
  "sp_DefaultService (fst (put_service k svc b st)) = sp_DefaultService (fst st)"
  "sp_ShardCluster (fst (put_service k svc b st)) = sp_ShardCluster (fst st)"
  by (simp_all add: put_service_def)

lemma set_gm_put: "set (gm_put k v m) \<subseteq> insert (k, v) (set m)"
proof (induction m)
  case (Cons p m)
  then show ?case by (cases p) (simp, blast)
qed simp

lemma services_ok_put:
  "services_ok m \<Longrightarrow> svc_Name svc = k \<Longrightarrow> k \<noteq> [] \<Longrightarrow> svc_ports_agree svc \<Longrightarrow>
     services_ok (gm_put k svc m)"
  using set_gm_put [of k svc m] by (fastforce simp: services_ok_def)

lemma rule_closed_put: "rule_closed m r \<Longrightarrow> rule_closed (gm_put k svc m) r"
  by (auto simp: rule_closed_def)

lemma build_ok_put:
  "build_ok (fst st) \<Longrightarrow> svc_Name svc = k \<Longrightarrow> k \<noteq> [] \<Longrightarrow> svc_ports_agree svc \<Longrightarrow>
     build_ok (fst (put_service k svc b st))"
  by (auto simp: build_ok_def services_ok_put rule_closed_put)

lemma default_step_ok:
  assumes "default_step L ns ib st = Ok st'" and "build_ok (fst st)" and "ns \<noteq> []"
  shows "build_ok (fst st') \<and> svc_Name (sp_DefaultService (fst st')) \<noteq> []
     \<and> sp_Rules (fst st') = sp_Rules (fst st)"
proof -
  from assms(1) obtain svc b where
    b: "backendSvc L ns ib = Ok (svc, b)"
    and st': "st' = put_service (ns @ ''/'' @ ib_ServiceName ib) svc b
                ((fst st)\<lparr>sp_DefaultService := svc\<rparr>, snd st)"
    by (auto simp: default_step_def obind_Ok_iff split: if_split_asm)
  note n = backendSvc_Name [OF b assms(3)]
  show ?thesis
    using assms(2) n unfolding st'
    by (auto simp: build_ok_def services_ok_put rule_closed_put)
qed

text \<open>The state of the inner loop: the rule under construction and the build.\<close>

definition path_inv :: "string \<Rightarrow> Rule \<times> build \<Rightarrow> bool" where
  "path_inv host st \<longleftrightarrow>
     rule_Host (fst st) = host \<and> build_ok (fst (snd st))
     \<and> rule_closed (sp_AllServices (fst (snd st))) (fst st)"

lemma path_step_inv:
  assumes "path_step L ns path st = Ok st'" and "path_inv host st" and "ns \<noteq> []"
  shows "path_inv host st' \<and> sp_DefaultService (fst (snd st')) = sp_DefaultService (fst (snd st))"
proof -
  from assms(1) obtain svc b where
    b: "backendSvc L ns (ip_Backend path) = Ok (svc, b)"
    and st': "st' = ((fst st)\<lparr>rule_PathMap := gm_put (ip_Path path) svc (rule_PathMap (fst st))\<rparr>,
        put_service (ns @ ''/'' @ ib_ServiceName (ip_Backend path)) svc b (snd st))"
    by (auto simp: path_step_def obind_Ok_iff)
  note n = backendSvc_Name [OF b assms(3)]
  have "rule_closed (gm_put (svc_Name svc) svc (sp_AllServices (fst (snd st))))
      ((fst st)\<lparr>rule_PathMap := gm_put (ip_Path path) svc (rule_PathMap (fst st))\<rparr>)"
    using assms(2) n set_gm_put [of "ip_Path path" svc "rule_PathMap (fst st)"]
    by (auto simp: path_inv_def rule_closed_def)
  with assms(2) n show ?thesis
    unfolding st' path_inv_def by (auto intro: build_ok_put)
qed

lemma add_rule_Default [simp]: "sp_DefaultService (fst (add_rule r st)) = sp_DefaultService (fst st)"
  by (simp add: add_rule_def)

lemma add_rule_ok:
  "build_ok (fst st) \<Longrightarrow> rule_Host r \<noteq> [] \<Longrightarrow> rule_closed (sp_AllServices (fst st)) r \<Longrightarrow>
     build_ok (fst (add_rule r st))"
  by (auto simp: build_ok_def add_rule_def)

lemma rule_step_ok:
  assumes "rule_step L ns rule st = Ok st'" and "build_ok (fst st)" and "ns \<noteq> []"
  shows "build_ok (fst st') \<and> sp_DefaultService (fst st') = sp_DefaultService (fst st)"
proof -
  let ?r = "\<lparr>rule_Host = ir_Host rule, rule_PathMap = []\<rparr>"
  from assms(1) have h: "ir_Host rule \<noteq> []" by (auto simp: rule_step_def split: if_split_asm)
  show ?thesis
  proof (cases "ir_HTTP rule")
    case None
    with assms h show ?thesis
      by (auto simp: rule_step_def rule_closed_def intro!: add_rule_ok)
  next
    case (Some paths)
    with assms(1) h obtain r t where
      loop: "ofold (path_step L ns) paths (?r, st) = Ok (r, t)" and st': "st' = add_rule r t"
      by (auto simp: rule_step_def obind_Ok_iff)
    let ?P = "\<lambda>s. path_inv (ir_Host rule) s
                 \<and> sp_DefaultService (fst (snd s)) = sp_DefaultService (fst st)"
    have "?P (r, t)"
      by (rule ofold_invariant [OF loop])
        (use assms(2,3) path_step_inv in \<open>auto simp: path_inv_def rule_closed_def\<close>)
    with h show ?thesis unfolding st' path_inv_def by (auto intro!: add_rule_ok)
  qed
qed

lemma ing_step_ok:
  assumes "ing_step L ing st = Ok st'" and "build_ok (fst st)"
  shows "build_ok (fst st')
     \<and> (ing_Backend ing \<noteq> None \<longrightarrow> svc_Name (sp_DefaultService (fst st')) \<noteq> [])
     \<and> (ing_Backend ing = None \<longrightarrow> sp_DefaultService (fst st') = sp_DefaultService (fst st))"
proof -
  from assms(1) obtain t where
    t: "(case ing_Backend ing of None \<Rightarrow> Ok st | Some b \<Rightarrow> default_step L (ing_ns ing) b st) = Ok t"
    and loop: "ofold (rule_step L (ing_ns ing)) (ing_Rules ing) t = Ok st'"
    by (auto simp: ing_step_def obind_Ok_iff)
  have ok: "build_ok (fst t)"
    and d: "ing_Backend ing \<noteq> None \<longrightarrow> svc_Name (sp_DefaultService (fst t)) \<noteq> []"
    and n: "ing_Backend ing = None \<longrightarrow> t = st"
    using t assms(2) default_step_ok by (auto split: option.split_asm)
  let ?P = "\<lambda>s. build_ok (fst s) \<and> sp_DefaultService (fst s) = sp_DefaultService (fst t)"
  have "?P st'"
    by (rule ofold_invariant [OF loop]) (use ok rule_step_ok in auto)
  with d n show ?thesis by auto
qed

lemma build_ok_zero [simp]: "build_ok zero_Spec"
  by (simp add: build_ok_def zero_Spec_def zero_Service_def services_ok_def
        zero_ShardCluster_def)

lemma zero_Spec_default [simp]: "svc_Name (sp_DefaultService zero_Spec) = []"
  by (simp add: zero_Spec_def zero_Service_def)

lemma ings2VCLSpec_ok: "ings2VCLSpec L ings = Ok (spec, bcfgs) \<Longrightarrow> build_ok spec"
  unfolding ings2VCLSpec_def
  by (drule ofold_invariant [where P = "\<lambda>st. build_ok (fst st)"]) (auto dest: ing_step_ok)

lemma build_ok_ports: "build_ok spec \<Longrightarrow> spec_ports_agree spec"
  unfolding build_ok_def spec_ports_agree_def list_all_iff services_ok_def rule_closed_def
  by fastforce

section \<open>When the build panics\<close>

text \<open>A probe that \<open>getVCLProbe\<close> can translate.\<close>

definition probe_safe :: "ProbeSpec \<Rightarrow> bool" where
  "probe_safe p \<longleftrightarrow> (ps_Initial p \<noteq> None \<longrightarrow> ps_Window p \<noteq> None)"

definition bcfgs_safe :: "Listers \<Rightarrow> bool" where
  "bcfgs_safe L \<longleftrightarrow>
     (\<forall>ns bs. l_bcfg_List L ns = Inr bs \<longrightarrow>
        (\<forall>b \<in> set bs. \<forall>p. bcs_Probe (bcfg_Spec b) = Some p \<longrightarrow> probe_safe p))"

lemma apply_bcfg_no_Panic:
  "(\<And>p. bcs_Probe b = Some p \<Longrightarrow> probe_safe p) \<Longrightarrow> apply_bcfg b svc \<noteq> Panic"
  by (auto simp: apply_bcfg_def getVCLProbe_ptr_def obind_Panic_iff getVCLProbe_Panic_iff
        probe_safe_def split: option.split_asm)

lemma ingBackend2Addrs_no_Panic [simp]: "ingBackend2Addrs L ns b \<noteq> Panic"
  by (auto simp: ingBackend2Addrs_def obind_Panic_iff split: option.split_asm)

lemma getVCLSvc_no_Panic:
  assumes "bcfgs_safe L"
  shows "getVCLSvc L ns name addrs \<noteq> Panic"
proof (cases "l_bcfg_List L (if ns = [] then ''default'' else ns)")
  case (Inl e)
  then show ?thesis by (simp add: getVCLSvc_def Let_def)
next
  case (Inr bs)
  show ?thesis
  proof (cases "find_bcfg name bs")
    case None
    with Inr show ?thesis by (simp add: getVCLSvc_def Let_def)
  next
    case (Some b)
    then have "b \<in> set bs" by (auto simp: find_bcfg_def dest: find_SomeD)
    with Inr assms have "apply_bcfg (bcfg_Spec b) svc \<noteq> Panic" for svc
      by (intro apply_bcfg_no_Panic) (auto simp: bcfgs_safe_def)
    with Inr Some show ?thesis by (simp add: getVCLSvc_def Let_def obind_Panic_iff)
  qed
qed

lemma backendSvc_no_Panic: "bcfgs_safe L \<Longrightarrow> backendSvc L ns b \<noteq> Panic"
  by (auto simp: backendSvc_def obind_Panic_iff getVCLSvc_no_Panic)

lemma path_step_no_Panic: "bcfgs_safe L \<Longrightarrow> path_step L ns p st \<noteq> Panic"
  by (auto simp: path_step_def obind_Panic_iff backendSvc_no_Panic)

lemma paths_no_Panic: "bcfgs_safe L \<Longrightarrow> ofold (path_step L ns) ps st \<noteq> Panic"
  by (rule ofold_no_Panic [where P = "\<lambda>_. True"]) (auto simp: path_step_no_Panic)

lemma rule_step_no_Panic: "bcfgs_safe L \<Longrightarrow> rule_step L ns r st \<noteq> Panic"
  by (auto simp: rule_step_def Let_def obind_Panic_iff paths_no_Panic split: option.split_asm)

lemma rules_no_Panic: "bcfgs_safe L \<Longrightarrow> ofold (rule_step L ns) rs st \<noteq> Panic"
  by (rule ofold_no_Panic [where P = "\<lambda>_. True"]) (auto simp: rule_step_no_Panic)

lemma ing_step_no_Panic:
  assumes "bcfgs_safe L" and "ing_Backend ing = None \<or> svc_Name (sp_DefaultService (fst st)) = []"
  shows "ing_step L ing st \<noteq> Panic"
  using assms
  by (auto simp: ing_step_def default_step_def obind_Panic_iff rules_no_Panic backendSvc_no_Panic
        split: option.split_asm)

definition has_default :: "Ingress \<Rightarrow> bool" where
  "has_default ing \<longleftrightarrow> ing_Backend ing \<noteq> None"

lemma ings_loop_no_Panic:
  assumes "bcfgs_safe L" and "build_ok (fst st)"
    and "length (filter has_default ings)
           + (if svc_Name (sp_DefaultService (fst st)) = [] then 0 else 1) \<le> 1"
  shows "ofold (ing_step L) ings st \<noteq> Panic"
  using assms(2,3)
proof (induction ings arbitrary: st)
  case (Cons ing ings)
  have "ing_step L ing st \<noteq> Panic"
    using Cons.prems(2)
    by (intro ing_step_no_Panic assms(1)) (auto simp: has_default_def split: if_split_asm)
  moreover have "ofold (ing_step L) ings t \<noteq> Panic" if "ing_step L ing st = Ok t" for t
    using ing_step_ok [OF that Cons.prems(1)] Cons.prems(2)
    by (intro Cons.IH) (auto simp: has_default_def split: if_split_asm)
  ultimately show ?case by (auto simp: obind_Panic_iff)
qed simp

lemma ings2VCLSpec_no_Panic:
  "bcfgs_safe L \<Longrightarrow> length (filter has_default ings) \<le> 1 \<Longrightarrow> ings2VCLSpec L ings \<noteq> Panic"
  unfolding ings2VCLSpec_def
  by (rule ings_loop_no_Panic) simp_all

lemma default_kept:
  assumes "ofold (ing_step L) ings st = Ok st'" and "build_ok (fst st)"
    and "svc_Name (sp_DefaultService (fst st)) \<noteq> [] \<or> (\<exists>i \<in> set ings. has_default i)"
  shows "svc_Name (sp_DefaultService (fst st')) \<noteq> []"
  using assms
proof (induction ings arbitrary: st)
  case (Cons ing ings)
  from Cons.prems(1) obtain t where t: "ing_step L ing st = Ok t"
    and rest: "ofold (ing_step L) ings t = Ok st'"
    by (auto simp: obind_Ok_iff)
  show ?case
    using ing_step_ok [OF t Cons.prems(2)] Cons.prems(3)
    by (intro Cons.IH [OF rest]) (auto simp: has_default_def)
qed simp

text \<open>A second default backend panics, when the Ingresses before it are in order.\<close>

lemma ings2VCLSpec_second_default:
  assumes "ings2VCLSpec L pre = Ok st" and "\<exists>i \<in> set pre. has_default i" and "has_default ing"
  shows "ings2VCLSpec L (pre @ ing # post) = Panic"
proof -
  have "svc_Name (sp_DefaultService (fst st)) \<noteq> []"
    using default_kept [OF assms(1) [unfolded ings2VCLSpec_def]] assms(2) by simp
  with assms(3) have "ing_step L ing st = Panic"
    by (auto simp: ing_step_def default_step_def has_default_def)
  with assms(1) show ?thesis
    by (simp add: ings2VCLSpec_def ofold_append)
qed

section \<open>Self-sharding\<close>

lemma podNodes_no_Panic [simp]: "podNodes key p r \<noteq> Panic"
  by (cases r) (auto simp: podNodes_def)

lemma podNodes_Ok:
  "podNodes key p r = Ok nodes \<Longrightarrow>
     2 \<le> length nodes \<and> (\<forall>n \<in> set nodes. length (svc_Addresses n) = 1)"
  by (cases r) (auto simp: podNodes_def shard_node_def split: if_split_asm)

lemma shardNodes_no_Panic [simp]: "shardNodes L svc \<noteq> Panic"
  by (simp add: shardNodes_def obind_Panic_iff Let_def)

lemma shardNodes_Ok:
  "shardNodes L svc = Ok nodes \<Longrightarrow>
     2 \<le> length nodes \<and> (\<forall>n \<in> set nodes. length (svc_Addresses n) = 1)"
  by (auto simp: shardNodes_def obind_Ok_iff Let_def dest: podNodes_Ok split: if_split_asm)

lemma configSharding_Panic_iff:
  "configSharding L spec vcfg svc = Panic \<longleftrightarrow>
     (\<exists>s. vcs_SelfSharding (vcfg_Spec vcfg) = Some s \<and> \<not> probe_safe (ss_Probe s)
        \<and> (\<exists>nodes. shardNodes L svc = Ok nodes))"
  by (auto simp: configSharding_def Let_def obind_Panic_iff getVCLProbe_Panic_iff probe_safe_def
        split: option.split)

text \<open>A configured cluster has at least two nodes, each with one address: the template's
  \<open>index .Addresses 0\<close> succeeds.\<close>

lemma configSharding_nodes:
  assumes "configSharding L spec vcfg svc = Ok spec'"
    and "\<forall>n \<in> set (shard_Nodes (sp_ShardCluster spec)). svc_Addresses n \<noteq> []"
  shows "(\<forall>n \<in> set (shard_Nodes (sp_ShardCluster spec')). svc_Addresses n \<noteq> [])
     \<and> (vcs_SelfSharding (vcfg_Spec vcfg) \<noteq> None \<longrightarrow> 2 \<le> length (shard_Nodes (sp_ShardCluster spec')))"
proof (cases "vcs_SelfSharding (vcfg_Spec vcfg)")
  case None
  with assms show ?thesis by (simp add: configSharding_def)
next
  case (Some cfg)
  with assms(1) obtain nodes where n: "shardNodes L svc = Ok nodes"
    and s: "shard_Nodes (sp_ShardCluster spec') = shard_Nodes (sp_ShardCluster spec) @ nodes"
    by (auto simp: configSharding_def obind_Ok_iff Let_def)
  show ?thesis using shardNodes_Ok [OF n] assms(2) unfolding s by fastforce
qed

lemma configSharding_ports:
  assumes "configSharding L spec vcfg svc = Ok spec'" and "spec_ports_agree spec"
  shows "spec_ports_agree spec'"
proof (cases "vcs_SelfSharding (vcfg_Spec vcfg)")
  case None
  with assms show ?thesis by (simp add: configSharding_def)
next
  case (Some cfg)
  with assms(1) obtain nodes where n: "shardNodes L svc = Ok nodes"
    and s: "shard_Nodes (sp_ShardCluster spec') = shard_Nodes (sp_ShardCluster spec) @ nodes"
    and r: "sp_Rules spec' = sp_Rules spec" "sp_AllServices spec' = sp_AllServices spec"
    by (auto simp: configSharding_def obind_Ok_iff Let_def)
  have "svc_ports_agree nd" if "nd \<in> set nodes" for nd
    using shardNodes_Ok [OF n] that
    by (cases "svc_Addresses nd") (auto simp: svc_ports_agree_def ports_agree_def)
  with assms(2) show ?thesis unfolding spec_ports_agree_def s r by (auto simp: list_all_iff)
qed

end
