(* ===== verification/VclTemplate.thy ===== *)
theory VclTemplate
  imports VclSpec
begin

text \<open>
  The functions that \<open>pkg/varnish/vcl/template.go\<close> offers to the templates: the mangling of names
  into VCL symbols, and the choices of operators, flags and VMOD calls.
\<close>

section \<open>VCL symbols\<close>

text \<open>
  \<open>vclIllegal\<close> is the regular expression \<open>[^[:word:]-]+\<close>: a maximal run of bytes other than ASCII
  letters, digits, underscore and hyphen.
\<close>

definition vclLegal :: "char \<Rightarrow> bool" where
  "vclLegal c \<longleftrightarrow> is_alnum c \<or> c = CHR ''_'' \<or> c = CHR ''-''"

definition maxSymLen :: nat where "maxSymLen = 46"

definition replIllegal :: "bytes \<Rightarrow> bytes" where
  "replIllegal ill = ''_'' @ concat (map hex02 ill) @ ''_''"

lemma length_dropWhile_less [termination_simp]: "length (dropWhile P xs) < Suc (length xs)"
  by (simp add: length_dropWhile_le less_Suc_eq_le)

text \<open>\<open>vclIllegal.ReplaceAllFunc(bytes, replIllegal)\<close>.\<close>

fun replaceIllegal :: "bytes \<Rightarrow> bytes" where
  "replaceIllegal [] = []"
| "replaceIllegal (c # cs) =
     (if vclLegal c then c # replaceIllegal cs
      else replIllegal (c # takeWhile (\<lambda>x. \<not> vclLegal x) cs)
           @ replaceIllegal (dropWhile (\<lambda>x. \<not> vclLegal x) cs))"

text \<open>
  A symbol that is too long is cut at \<open>l\<close> bytes, and a hash of the whole symbol is written over
  the last seven (an underscore, then up to six digits).
\<close>

definition bound :: "string \<Rightarrow> nat \<Rightarrow> string" where
  "bound s l =
     (if length s \<le> l then s
      else let t = take 6 (text_base 62 (unat (fnv32a s)))
           in take (l - 7) s @ ''_'' @ t @ drop (l - 6 + length t) (take l s))"

definition mangle :: "string \<Rightarrow> string" where
  "mangle s = (if s = [] then s else bound (replaceIllegal (''vk8s_'' @ s)) maxSymLen)"

definition backendName :: "Service \<Rightarrow> string \<Rightarrow> string" where
  "backendName svc addr =
     mangle (svc_Name svc @ ''_'' @ replace_char (CHR ''.'') (CHR ''_'') addr)"

definition directorName :: "Service \<Rightarrow> string" where
  "directorName svc = mangle (svc_Name svc @ ''_director'')"

definition urlMatcher :: "Rule \<Rightarrow> string" where
  "urlMatcher rule = mangle (replace_char (CHR ''.'') (CHR ''_'') (rule_Host rule) @ ''_url'')"

text \<open>The template functions \<open>aclName\<close>, \<open>probeName\<close> and \<open>credsMatcher\<close>.\<close>

definition aclName :: "string \<Rightarrow> string" where
  "aclName name = mangle (name @ ''_acl'')"

definition probeName :: "string \<Rightarrow> string" where
  "probeName name = mangle (name @ ''_probe'')"

definition credsMatcher :: "string \<Rightarrow> string" where
  "credsMatcher realm = mangle (realm @ ''_auth'')"

definition rewrName :: "nat \<Rightarrow> string" where
  "rewrName i = ''vk8s_rewrite_'' @ text_base 10 i"

definition reqObj :: "nat \<Rightarrow> nat \<Rightarrow> string" where
  "reqObj didx cidx = ''vk8s_reqdisp_'' @ text_base 10 didx @ ''_'' @ text_base 10 cidx"

section \<open>Access control lists\<close>

definition aclMask :: "uint8 \<Rightarrow> string" where
  "aclMask bits = (if bits > 128 then [] else ''/'' @ utoa bits)"

abbreviation bslash :: string where "bslash \<equiv> [CHR 0x5C]"

definition xffFirst :: string where
  \<open>xffFirst = ''regsub(req.http.X-Forwarded-For,"^([^,'' @ bslash @ ''s]+).*","'' @ bslash @ ''1")''\<close>

definition xff2ndLast :: string where
  \<open>xff2ndLast = ''regsub(req.http.X-Forwarded-For,"^.*?([[:xdigit:]:.]+)'' @ bslash
     @ ''s*,[^,]*$","'' @ bslash @ ''1")''\<close>

definition aclCmp :: "string \<Rightarrow> string" where
  \<open>aclCmp comparand =
     (if HasPrefix comparand ''xff-'' \<or> HasPrefix comparand ''req.http.'' then
        ''std.ip('' @ (if comparand = ''xff-first'' then xffFirst
                       else if comparand = ''xff-2ndlast'' then xff2ndLast
                       else comparand) @ '', "0.0.0.0")''
      else comparand)\<close>

definition hasXFF :: "ACL list \<Rightarrow> bool" where
  "hasXFF acls = list_ex (\<lambda>acl. HasPrefix (acl_Comparand acl) ''xff-'') acls"

section \<open>Comparisons\<close>

fun cmpRelation :: "CompareType \<Rightarrow> bool \<Rightarrow> string" where
  "cmpRelation Equal negate = (if negate then ''!='' else ''=='')"
| "cmpRelation Match negate = (if negate then ''!~'' else ''~'')"
| "cmpRelation Greater negate = ''>''"
| "cmpRelation GreaterEqual negate = ''>=''"
| "cmpRelation Less negate = ''<''"
| "cmpRelation LessEqual negate = ''<=''"
| "cmpRelation _ negate = ''__INVALID_COMPARISON_TYPE__''"

definition dirType :: "Service \<Rightarrow> string" where
  "dirType svc = (case svc_Director svc of None \<Rightarrow> DirectorType_String RoundRobin
                  | Some d \<Rightarrow> DirectorType_String (dir_Type d))"

fun vmod :: "CompareType \<Rightarrow> string" where
  "vmod Equal = ''selector''"
| "vmod Prefix = ''selector''"
| "vmod Match = ''re2''"
| "vmod _ = ''__INVALID_COMPARISON_FOR_VMOD__''"

fun match :: "CompareType \<Rightarrow> string" where
  "match Match = ''match''"
| "match Equal = ''match''"
| "match Prefix = ''hasprefix''"
| "match _ = ''__INVALID_MATCH_OPERATION__''"

section \<open>Match flags\<close>

definition opt_flag :: "bool \<Rightarrow> string \<Rightarrow> string list" where
  "opt_flag b s = (if b then [s] else [])"

definition matcherFlags :: "bool \<Rightarrow> MatchFlagsType \<Rightarrow> string" where
  "matcherFlags isSelector flags =
     (if isSelector then (if \<not> mf_CaseSensitive flags then ''case_sensitive=false'' else [])
      else Join
        (opt_flag (mf_MaxMem flags \<noteq> 0 \<and> mf_MaxMem flags \<noteq> 8388608)
           (''max_mem='' @ utoa (mf_MaxMem flags))
         @ (case mf_Anchor flags of AnchorNone \<Rightarrow> [] | AnchorStart \<Rightarrow> [''anchor=start'']
            | AnchorBoth \<Rightarrow> [''anchor=both''])
         @ opt_flag (mf_UTF8 flags) ''utf8=true''
         @ opt_flag (mf_PosixSyntax flags) ''posix_syntax=true''
         @ opt_flag (mf_LongestMatch flags) ''longest_match=true''
         @ opt_flag (mf_Literal flags) ''literal=true''
         @ opt_flag (\<not> mf_CaseSensitive flags) ''case_sensitive=false''
         @ opt_flag (mf_PerlClasses flags) ''perl_classes=true''
         @ opt_flag (mf_WordBoundary flags) ''word_boundary=true'') '','')"

definition rewrFlags :: "Rewrite \<Rightarrow> string" where
  "rewrFlags rewr = matcherFlags (rw_Compare rewr \<noteq> Match) (rw_MatchFlags rewr)"

definition reqFlags :: "Condition \<Rightarrow> string" where
  "reqFlags cond = matcherFlags (cond_Compare cond \<noteq> Match) (cond_MatchFlags cond)"

section \<open>Rewrites\<close>

fun first_value_empty :: "RewriteRule list \<Rightarrow> bool" where
  "first_value_empty [] = False"
| "first_value_empty (r # rs) = (rwr_Value r = [])"

definition needsMatcher :: "Rewrite \<Rightarrow> bool" where
  "needsMatcher rewr =
     (if rw_Method rewr \<in> {Append, Prepend, Delete, Replace}
      then \<not> (rw_Rules rewr = []
              \<or> length (rw_Rules rewr) = 1 \<and> first_value_empty (rw_Rules rewr))
      else True)"

definition needsSave :: "Rewrite \<Rightarrow> bool" where
  "needsSave rewr =
     (if rw_Compare rewr \<noteq> Match then False
      else rw_Method rewr \<in> {Sub, Suball, RewriteMethod})"

definition needsRegex :: "Rewrite \<Rightarrow> bool" where
  "needsRegex rewr =
     (rw_Compare rewr \<noteq> Match \<and> (rw_Method rewr = Sub \<or> rw_Method rewr = Suball))"

definition saveRegex :: "Rewrite \<Rightarrow> RewriteRule \<Rightarrow> string" where
  "saveRegex rewr rule =
     (let regex = ''^'' @ bslash @ ''Q'' @ rwr_Value rule @ bslash @ ''E''
      in if rw_Compare rewr = Prefix then regex else regex @ ''$'')"

definition needsAll :: "Rewrite \<Rightarrow> bool" where
  "needsAll rewr = (rw_Compare rewr \<noteq> Match \<and> rw_Method rewr = Suball)"

definition needsNeverCapture :: "Rewrite \<Rightarrow> bool" where
  "needsNeverCapture rewr =
     (rw_Compare rewr = Match \<and> mf_NeverCapture (rw_MatchFlags rewr))"

definition needsUniqueCheck :: "Rewrite \<Rightarrow> bool" where
  "needsUniqueCheck rewr =
     (if rw_Compare rewr = Equal \<or> rw_Select rewr \<noteq> Unique then False
      else case rw_Method rewr of
        Delete \<Rightarrow> False
      | Sub \<Rightarrow> True | Suball \<Rightarrow> True | RewriteMethod \<Rightarrow> True
      | _ \<Rightarrow> rw_Rules rewr \<noteq> [] \<and> \<not> first_value_empty (rw_Rules rewr))"

definition needsSelectEnum :: "Rewrite \<Rightarrow> bool" where
  "needsSelectEnum rewr = (rw_Select rewr \<noteq> Unique)"

fun sub_name :: "SubType \<Rightarrow> string" where
  "sub_name Recv = ''recv''"
| "sub_name Pipe = ''pipe''"
| "sub_name Pass = ''pass''"
| "sub_name Hash = ''hash''"
| "sub_name Purge = ''purge''"
| "sub_name Miss = ''miss''"
| "sub_name Hit = ''hit''"
| "sub_name Deliver = ''deliver''"
| "sub_name Synth = ''synth''"
| "sub_name BackendFetch = ''backend_fetch''"
| "sub_name BackendResponse = ''backend_response''"
| "sub_name BackendError = ''backend_error''"
| "sub_name Unspecified = ''__UNKNOWN_VCL_SUB__''"

definition inferSub :: "Rewrite \<Rightarrow> SubType" where
  "inferSub rewr =
     (if rw_VCLSub rewr = Unspecified then
        (if HasPrefix (rw_Target rewr) ''resp'' then Deliver
         else if HasPrefix (rw_Target rewr) ''beresp'' then BackendResponse
         else if HasPrefix (rw_Target rewr) ''req'' then Recv
         else BackendFetch)
      else rw_VCLSub rewr)"

definition rewrSub :: "Rewrite \<Rightarrow> string" where
  "rewrSub rewr = sub_name (inferSub rewr)"

definition rewrSelect :: "Rewrite \<Rightarrow> string" where
  "rewrSelect rewr =
     (if rw_Select rewr = Unique then [] else ''select='' @ SelectType_String (rw_Select rewr))"

definition rewrOperand1 :: "Rewrite \<Rightarrow> string" where
  "rewrOperand1 rewr = (if rw_Rules rewr = [] then rw_Target rewr else rw_Source rewr)"

definition rewrOperand2 :: "Rewrite \<Rightarrow> nat \<Rightarrow> string" where
  \<open>rewrOperand2 rewr i =
     (case rw_Rules rewr of
        [] \<Rightarrow> rw_Source rewr
      | r # rs \<Rightarrow>
          if rs = [] \<and> rwr_Value r = [] then ''"'' @ rwr_Rewrite r @ ''"''
          else if rwr_Value r \<noteq> [] then rewrName i @ ''.string('' @ rewrSelect rewr @ '')''
          else rw_Source rewr)\<close>

definition rewrOp :: "Rewrite \<Rightarrow> string" where
  "rewrOp rewr =
     (case rw_Method rewr of
        Sub \<Rightarrow> ''sub''
      | Suball \<Rightarrow> (if rw_Compare rewr = Match then ''suball'' else ''sub'')
      | RewriteMethod \<Rightarrow> ''extract''
      | _ \<Rightarrow> ''__INVALID_REWRITE_OPERAION__'')"

section \<open>Request dispositions\<close>

definition reqNeedsMatcher :: "Condition \<Rightarrow> bool" where
  "reqNeedsMatcher cond =
     (case cond_Compare cond of
        Match \<Rightarrow> True | Prefix \<Rightarrow> True
      | Exists \<Rightarrow> False | Greater \<Rightarrow> False | GreaterEqual \<Rightarrow> False
      | Less \<Rightarrow> False | LessEqual \<Rightarrow> False
      | Equal \<Rightarrow> \<not> (cond_Count cond \<noteq> None \<or> length (cond_Values cond) = 1))"

text \<open>\<open>cond.Values[0]\<close> panics when there is neither a count nor a value.\<close>

definition reqValue :: "Condition \<Rightarrow> (unit, string) outcome" where
  \<open>reqValue cond =
     (case cond_Count cond of
        Some n \<Rightarrow> Ok (utoa n)
      | None \<Rightarrow> (case cond_Values cond of [] \<Rightarrow> Panic | v # _ \<Rightarrow> Ok (''"'' @ v @ ''"'')))\<close>

section \<open>Symbols are legal and bounded\<close>

lemma vclLegal_hex02: "x \<in> set (hex02 c) \<Longrightarrow> vclLegal x"
  using hex02_alnum [of c] by (simp add: vclLegal_def list_all_iff)

lemma vclLegal_replIllegal: "list_all vclLegal (replIllegal ill)"
  using vclLegal_hex02 by (auto simp: replIllegal_def vclLegal_def list_all_iff)

lemma replaceIllegal_legal: "list_all vclLegal (replaceIllegal s)"
  by (induction s rule: replaceIllegal.induct) (simp_all add: vclLegal_replIllegal)

lemma replaceIllegal_id: "list_all vclLegal s \<Longrightarrow> replaceIllegal s = s"
  by (induction s) auto

lemma replaceIllegal_append_legal:
  "list_all vclLegal s \<Longrightarrow> replaceIllegal (s @ t) = s @ replaceIllegal t"
  by (induction s) auto

lemma text62_legal: "list_all vclLegal (text_base 62 n)"
  using text_base_alnum [of 62 n] by (auto simp: list_all_iff vclLegal_def)

lemma bound_length:
  assumes "7 \<le> l"
  shows "length (bound s l) = min l (length s)"
proof (cases "length s \<le> l")
  case True
  then show ?thesis by (simp add: bound_def)
next
  case False
  define t where "t = take 6 (text_base 62 (unat (fnv32a s)))"
  have "length t \<le> 6" by (simp add: t_def)
  with False assms show ?thesis
    by (simp add: bound_def Let_def flip: t_def)
qed

lemma bound_legal: "list_all vclLegal s \<Longrightarrow> list_all vclLegal (bound s l)"
  using text62_legal [of "unat (fnv32a s)"]
  by (auto simp: bound_def Let_def list_all_iff vclLegal_def dest!: in_set_takeD in_set_dropD)

lemma vk8s_legal: "list_all vclLegal ''vk8s_''"
  by code_simp

lemma mangle_legal: "list_all vclLegal (mangle s)"
  using bound_legal [OF replaceIllegal_legal]
  by (simp add: mangle_def del: replaceIllegal.simps)

lemma mangle_length: "length (mangle s) \<le> maxSymLen"
  by (simp add: mangle_def bound_length maxSymLen_def del: replaceIllegal.simps)

lemma mangle_eq:
  "s \<noteq> [] \<Longrightarrow> mangle s = bound (''vk8s_'' @ replaceIllegal s) maxSymLen"
  using replaceIllegal_append_legal [OF vk8s_legal, of s]
  by (simp only: mangle_def if_False)

lemma bound_prefix: "HasPrefix (bound (''vk8s_'' @ t) maxSymLen) ''vk8s_''"
  by (simp add: HasPrefix_def bound_def Let_def maxSymLen_def)

lemma mangle_prefix: "s \<noteq> [] \<Longrightarrow> HasPrefix (mangle s) ''vk8s_''"
  using bound_prefix [of "replaceIllegal s"] by (simp only: mangle_eq [of s] simp_thms)

section \<open>Symbols of names without underscore are unambiguous\<close>

text \<open>
  Reading a mangled name back: outside a run every byte stands for itself and an underscore opens
  a run, inside a run two hex digits stand for a byte and an underscore closes it.
\<close>

fun unreplace :: "bytes \<Rightarrow> bytes" and unreplace_run :: "bytes \<Rightarrow> bytes" where
  "unreplace [] = []"
| "unreplace (c # cs) = (if c = CHR ''_'' then unreplace_run cs else c # unreplace cs)"
| "unreplace_run (x # y # cs) =
     (if x = CHR ''_'' then unreplace (y # cs) else unhex02 x y # unreplace_run cs)"
| "unreplace_run _ = []"

lemma hex02_pair:
  obtains x y where "hex02 c = [x, y]" and "x \<noteq> CHR ''_''" and "unhex02 x y = c"
proof -
  obtain x y where xy: "hex02 c = [x, y]" by (simp add: hex02_def)
  moreover have "x \<noteq> CHR ''_''"
    using hex02_alnum [of c] xy by (auto simp: is_alnum_def less_eq_char_def)
  ultimately show ?thesis using that unhex_hex02 by blast
qed

lemma unreplace_run_hex:
  "unreplace_run (concat (map hex02 cs) @ CHR ''_'' # d # t) = cs @ unreplace (d # t)"
proof (induction cs)
  case Nil
  then show ?case by simp
next
  case (Cons c cs)
  obtain x y where "hex02 c = [x, y]" "x \<noteq> CHR ''_''" "unhex02 x y = c" by (rule hex02_pair)
  with Cons.IH show ?case by simp
qed

lemma unreplace_run_end: "unreplace_run (concat (map hex02 cs) @ ''_'') = cs"
proof (induction cs)
  case Nil
  then show ?case by simp
next
  case (Cons c cs)
  obtain x y where "hex02 c = [x, y]" "x \<noteq> CHR ''_''" "unhex02 x y = c" by (rule hex02_pair)
  with Cons.IH show ?case by simp
qed

lemma unreplace_replIllegal:
  "unreplace (replIllegal cs @ t) = cs @ unreplace t"
  by (cases t) (simp_all add: replIllegal_def unreplace_run_end unreplace_run_hex del: unreplace_run.simps)

lemma unreplace_replaceIllegal: "CHR ''_'' \<notin> set s \<Longrightarrow> unreplace (replaceIllegal s) = s"
proof (induction s rule: replaceIllegal.induct)
  case 1
  then show ?case by simp
next
  case (2 c cs)
  show ?case
  proof (cases "vclLegal c")
    case True
    with "2.prems" have "c \<noteq> CHR ''_''" by auto
    with True 2 show ?thesis by simp
  next
    case False
    have "CHR ''_'' \<notin> set (dropWhile (\<lambda>x. \<not> vclLegal x) cs)"
      using "2.prems" by (auto dest: set_dropWhileD)
    with False "2.IH"(2) have "unreplace (replaceIllegal (c # cs))
        = c # takeWhile (\<lambda>x. \<not> vclLegal x) cs @ dropWhile (\<lambda>x. \<not> vclLegal x) cs"
      by (simp add: unreplace_replIllegal)
    then show ?thesis by simp
  qed
qed

interpretation illegal: codec replaceIllegal unreplace "\<lambda>s. CHR ''_'' \<notin> set s"
  by unfold_locales (rule unreplace_replaceIllegal)

lemma replaceIllegal_append:
  assumes "vclLegal c"
  shows "replaceIllegal (s @ c # t) = replaceIllegal s @ replaceIllegal (c # t)"
proof (induction s rule: replaceIllegal.induct)
  case 1
  then show ?case by simp
next
  case (2 d ds)
  have drop: "dropWhile (\<lambda>x. \<not> vclLegal x) (ds @ c # t) = dropWhile (\<lambda>x. \<not> vclLegal x) ds @ c # t"
    and take: "takeWhile (\<lambda>x. \<not> vclLegal x) (ds @ c # t) = takeWhile (\<lambda>x. \<not> vclLegal x) ds"
    using assms by (induction ds) auto
  show ?case
    using 2 by (cases "vclLegal d") (simp_all add: drop take)
qed

lemma mangle_suffix_inject:
  assumes "CHR ''_'' \<notin> set s" and "CHR ''_'' \<notin> set t" and "vclLegal c"
    and "length (replaceIllegal (s @ c # u)) + 5 \<le> maxSymLen"
    and "length (replaceIllegal (t @ c # u)) + 5 \<le> maxSymLen"
    and eq: "mangle (s @ c # u) = mangle (t @ c # u)"
  shows "s = t"
proof -
  have "mangle (x @ c # u) = ''vk8s_'' @ replaceIllegal x @ replaceIllegal (c # u)"
    if "length (replaceIllegal (x @ c # u)) + 5 \<le> maxSymLen" for x
  proof -
    have "bound (''vk8s_'' @ replaceIllegal (x @ c # u)) maxSymLen
        = ''vk8s_'' @ replaceIllegal (x @ c # u)"
      using that by (simp add: bound_def del: replaceIllegal.simps)
    then have "mangle (x @ c # u) = ''vk8s_'' @ replaceIllegal (x @ c # u)"
      by (subst mangle_eq) simp_all
    then show ?thesis by (simp only: replaceIllegal_append [OF assms(3)])
  qed
  with assms(4,5) eq have "replaceIllegal s = replaceIllegal t" by simp
  with assms(1,2) show ?thesis by (simp add: illegal.enc_inject)
qed

end
