(* ===== verification/VclRender.thy ===== *)
theory VclRender
  imports VclTemplate
begin

text \<open>
  The VCL text that the templates \<open>vcl.tmpl\<close>, \<open>self-shard.tmpl\<close>, \<open>acl.tmpl\<close>, \<open>auth.tmpl\<close>,
  \<open>rewrite.tmpl\<close> and \<open>recv_disposition.tmpl\<close> of \<open>pkg/varnish/vcl\<close> produce, and \<open>Spec.GetSrc\<close>,
  which runs them.  One function per template, with one more for the body of each loop; the text
  between the actions is the template's, after the trimming that \<open>{{-\<close> and \<open>-}}\<close> ask for.

  A call that panics inside a template, and an index out of range, stop the template with an
  error; then \<open>GetSrc\<close> returns that error.
\<close>

datatype tmpl_error = ReqDispTmplError | ShardTmplError

definition opt_text :: "bool \<Rightarrow> string \<Rightarrow> string" where
  "opt_text b s = (if b then s else [])"

section \<open>acl.tmpl\<close>

definition render_acl_addr :: "ACLAddress \<Rightarrow> string" where
  \<open>render_acl_addr a =
     concat [''
	'', opt_text (acla_Negate a) ''! '', ''"'', acla_Addr a, ''"'', aclMask (acla_MaskBits a), '';'']\<close>

definition render_acl_decl :: "ACL \<Rightarrow> string" where
  \<open>render_acl_decl acl =
     concat [''
acl '', aclName (acl_Name acl), '' {'',
       concat (map render_acl_addr (acl_Addresses acl)), ''
}'']\<close>

text \<open>A condition of an ACL or an authentication, always followed by a conjunction.\<close>

definition render_term :: "MatchTerm \<Rightarrow> string" where
  \<open>render_term c =
     concat [''
	    '', mt_Comparand c, '' '', cmpRelation (mt_Compare c) (mt_Negate c), '' "'',
       mt_Value c, ''" &&'']\<close>

definition render_acl_check :: "ACL \<Rightarrow> string" where
  \<open>render_acl_check acl =
     (let rh = acl_ResultHdr acl in
      concat [''
	if ('', concat (map render_term (acl_Conditions acl)), ''
	    '', aclCmp (acl_Comparand acl), '' '', opt_text (acl_Whitelist acl) ''!'', ''~ '',
       aclName (acl_Name acl), ''
	   ) {'',
       opt_text (rh_Header rh \<noteq> []) (concat [''
		set '', rh_Header rh, '' = "'', rh_Failure rh, ''";'']),
       opt_text (acl_FailStatus acl \<ge> 100) (concat [''
		return(synth('', utoa (acl_FailStatus acl), ''));'']),
       ''
	}'',
       opt_text (rh_Header rh \<noteq> []) (concat [''
	else {
		set '', rh_Header rh, '' = "'', rh_Success rh, ''";
	}''])])\<close>

definition render_acls :: "Spec \<Rightarrow> string" where
  \<open>render_acls spec =
     concat [''
import std;'', concat (map render_acl_decl (sp_ACLs spec)), ''

sub vcl_recv {'',
       opt_text (hasXFF (sp_ACLs spec)) ''
        std.collect(req.http.X-Forwarded-For);'',
       concat (map render_acl_check (sp_ACLs spec)), ''
}
'']\<close>

section \<open>auth.tmpl\<close>

definition render_auth_set :: "Auth \<Rightarrow> string" where
  \<open>render_auth_set auth =
     concat [''
	new '', credsMatcher (auth_Realm auth), '' = re2.set(anchor=both);'',
       concat (map (\<lambda>cred. concat [''
	'', credsMatcher (auth_Realm auth), ''.add("Basic'' @ bslash @ ''s+'' @ bslash @ ''Q'', cred,
         bslash @ ''E'' @ bslash @ ''s*");'']) (auth_Credentials auth)),
       ''
	'', credsMatcher (auth_Realm auth), ''.compile();
'']\<close>

definition render_auth_check :: "Auth \<Rightarrow> string" where
  \<open>render_auth_check auth =
     concat [''
	if ('', concat (map render_term (auth_Conditions auth)),
       (if AuthStatus_code (auth_Status auth) = 401
        then concat [''
	    !'', credsMatcher (auth_Realm auth), ''.match(req.http.Authorization)'']
        else concat [''
	    !'', credsMatcher (auth_Realm auth), ''.match(req.http.Proxy-Authorization)'']),
       ''
	   ) {'',
       (if auth_UTF8 auth
        then concat [''
		set req.http.VK8S-Authenticate =
			{"Basic realm="'', auth_Realm auth, ''", charset="UTF-8""};'']
        else concat [''
		set req.http.VK8S-Authenticate = {"Basic realm="'', auth_Realm auth, ''""};'']),
       ''
		return(synth(60000 + '', utoa (AuthStatus_code (auth_Status auth)), ''));
	}'']\<close>

definition render_auths :: "Spec \<Rightarrow> string" where
  \<open>render_auths spec =
     concat [''
import re2;

sub vcl_init {'', concat (map render_auth_set (sp_Auths spec)), ''}

sub vcl_recv {'', concat (map render_auth_check (sp_Auths spec)), ''
}

sub vcl_synth {
	if (resp.status == 60401) {
		set resp.http.WWW-Authenticate = req.http.VK8S-Authenticate;
		return(deliver);
	}
	if (resp.status == 60407) {
		set resp.http.Proxy-Authenticate = req.http.VK8S-Authenticate;
		return(deliver);
	}
}
'']\<close>

section \<open>recv\_disposition.tmpl\<close>

definition render_disp_matcher :: "nat \<Rightarrow> nat \<Rightarrow> Condition \<Rightarrow> string" where
  \<open>render_disp_matcher didx cidx c =
     opt_text (reqNeedsMatcher c) (concat [''sub vcl_init {
	new '', reqObj didx cidx, '' = '', vmod (cond_Compare c), ''.set('', reqFlags c, '');'',
       concat (map (\<lambda>val. concat [''
	'', reqObj didx cidx, ''.add("'', val, ''");'']) (cond_Values c)),
       opt_text (cond_Compare c = Match) (concat [''
	'', reqObj didx cidx, ''.compile();'']), ''
}

''])\<close>

text \<open>
  One condition of the conjunction.  \<open>Negate\<close> puts a \<open>!\<close> in front, whichever of the three forms
  follows.
\<close>

definition render_disp_cond :: "nat \<Rightarrow> nat \<Rightarrow> Condition \<Rightarrow> (unit, string) outcome" where
  \<open>render_disp_cond didx cidx c =
     obind
       (if reqNeedsMatcher c
        then Ok (concat [reqObj didx cidx, ''.'', match (cond_Compare c), ''('',
                   cond_Comparand c, '')''])
        else if cond_Compare c = Exists then Ok (cond_Comparand c)
        else obind (reqValue c) (\<lambda>v. Ok (concat [cond_Comparand c, '' '',
               cmpRelation (cond_Compare c) (cond_Negate c), '' '', v])))
       (\<lambda>e. Ok (concat [opt_text (cidx \<noteq> 0) '' &&
            '', opt_text (cond_Negate c) ''! '', e]))\<close>

definition render_disposition :: "DispositionType \<Rightarrow> string" where
  \<open>render_disposition d =
     (if dt_Action d = ''synth''
      then concat [''synth('', utoa (dt_Status d),
             opt_text (dt_Reason d \<noteq> []) (concat ['', "'', dt_Reason d, ''"'']), '')'']
      else dt_Action d)\<close>

definition render_disp :: "nat \<Rightarrow> DispositionSpec \<Rightarrow> (unit, string) outcome" where
  \<open>render_disp didx d =
     obind (omap (\<lambda>(cidx, c). render_disp_cond didx cidx c) (enumerate 0 (disp_Conditions d)))
       (\<lambda>cs. Ok (concat [''
	if ('', concat cs, '') {
		return ('', render_disposition (disp_Disposition d), '');
	}'']))\<close>

definition render_disps :: "Spec \<Rightarrow> (unit, string) outcome" where
  \<open>render_disps spec =
     obind (omap (\<lambda>(didx, d). render_disp didx d) (enumerate 0 (sp_Dispositions spec)))
       (\<lambda>ds. Ok (concat [''
import re2;
import selector;

'',
         concat (map (\<lambda>(didx, d).
             concat (map (\<lambda>(cidx, c). render_disp_matcher didx cidx c)
               (enumerate 0 (disp_Conditions d))))
           (enumerate 0 (sp_Dispositions spec))), ''
sub vcl_recv {'', concat ds, ''
	return (hash);
}
'']))\<close>

section \<open>rewrite.tmpl\<close>

definition render_rewrite_init :: "nat \<Rightarrow> Rewrite \<Rightarrow> string" where
  \<open>render_rewrite_init i r =
     opt_text (needsMatcher r) (concat [''sub vcl_init {
	new '', rewrName i, '' = '', vmod (rw_Compare r), ''.set('', rewrFlags r, '');'',
       concat (map (\<lambda>rule. concat [''
	'', rewrName i, ''.add("'', rwr_Value rule, ''", string="'', rwr_Rewrite rule, ''"'',
         opt_text (needsSave r) '', save=true'',
         opt_text (needsRegex r) (concat ['', regex="'', saveRegex r rule, ''"'']),
         opt_text (needsNeverCapture r) '', never_capture=true'', '');'']) (rw_Rules r)),
       opt_text (rw_Compare r = Match) (concat [''
	'', rewrName i, ''.compile();'']), ''
}''])\<close>

definition render_rewrite_match :: "nat \<Rightarrow> Rewrite \<Rightarrow> string" where
  \<open>render_rewrite_match i r =
     opt_text (needsMatcher r) (concat [''
	if ('', rewrName i, ''.'', match (rw_Compare r), ''('', rw_Source r, '')) {'',
       opt_text (needsUniqueCheck r) (concat [''
		if ('', rewrName i, ''.nmatches() != 1) {
			std.log('', rw_Source r, '' + " had " +
				'', rewrName i, ''.nmatches() + " matches");
			return(fail);
		}''])])\<close>

definition render_rewrite_action :: "nat \<Rightarrow> Rewrite \<Rightarrow> string" where
  \<open>render_rewrite_action i r =
     (case rw_Method r of
        Delete \<Rightarrow> concat [''
		unset '', rw_Target r, '';'']
      | Append \<Rightarrow> concat [''
		set '', rw_Target r, '' = '', rewrOperand1 r, '' + '', rewrOperand2 r i, '';'']
      | Prepend \<Rightarrow> concat [''
		set '', rw_Target r, '' = '', rewrOperand2 r i, '' + '', rewrOperand1 r, '';'']
      | Replace \<Rightarrow> concat [''
		set '', rw_Target r, '' = '', rewrOperand2 r i, '';'']
      | _ \<Rightarrow> concat [''
		set '', rw_Target r, '' =
			'', rewrName i, ''.'', rewrOp r, ''('', rw_Source r, '',
		                       '', rewrName i, ''.string('', rewrSelect r, '')'',
           opt_text (needsAll r) '', all=true'',
           opt_text (needsSelectEnum r) (concat ['', '', rewrSelect r]), '');''])\<close>

definition render_rewrite :: "nat \<Rightarrow> Rewrite \<Rightarrow> string" where
  \<open>render_rewrite i r =
     concat [render_rewrite_init i r, ''

sub vcl_'', rewrSub r, '' {'',
       render_rewrite_match i r,
       render_rewrite_action i r,
       opt_text (needsMatcher r) ''
	}'', ''
}'']\<close>

definition render_rewrites :: "Spec \<Rightarrow> string" where
  \<open>render_rewrites spec =
     concat [''
import re2;
import selector;

'', concat (map (\<lambda>(i, r). render_rewrite i r) (enumerate 0 (sp_Rewrites spec))), ''
'']\<close>

section \<open>vcl.tmpl\<close>

text \<open>
  A director's warmup is printed as a \<open>float64\<close> with \<open>%v\<close>: the shortest decimal text of \<open>w/100\<close>,
  in exponent form from one million on.
\<close>

fun strip_zeros :: "nat list \<Rightarrow> nat list" where
  "strip_zeros [] = []"
| "strip_zeros (d # ds) = (if strip_zeros ds = [] \<and> d = 0 then [] else d # strip_zeros ds)"

definition fmt_pct :: "int32 \<Rightarrow> string" where
  \<open>fmt_pct w =
     (let a = nat \<bar>sint w\<bar>; ds = digits 10 a; frac = strip_zeros [a div 10 mod 10, a mod 10];
          rest = strip_zeros (tl ds); ex = length ds - 3
      in (if sint w < 0 then ''-'' else [])
         @ (if a < 100000000
            then text_base 10 (a div 100)
                 @ (if frac = [] then [] else ''.'' @ map digit_char frac)
            else digit_char (hd ds) # (if rest = [] then [] else ''.'' @ map digit_char rest)
                 @ ''e+'' @ (if ex < 10 then ''0'' else []) @ text_base 10 ex))\<close>

text \<open>The settings of a probe that both probe templates print.\<close>

definition render_probe_times :: "Probe \<Rightarrow> string" where
  \<open>render_probe_times p =
     concat [
       opt_text (probe_Timeout p \<noteq> []) (concat [''
	.timeout = '', probe_Timeout p, '';'']),
       opt_text (probe_Interval p \<noteq> []) (concat [''
	.interval = '', probe_Interval p, '';'']),
       opt_text (probe_Initial p \<noteq> []) (concat [''
	.initial = '', probe_Initial p, '';'']),
       opt_text (probe_Window p \<noteq> []) (concat [''
	.window = '', probe_Window p, '';'']),
       opt_text (probe_Threshold p \<noteq> []) (concat [''
	.threshold = '', probe_Threshold p, '';''])]\<close>

definition render_probe :: "string \<Rightarrow> Probe \<Rightarrow> string" where
  \<open>render_probe name p =
     concat [''

probe '', probeName name, '' {'',
       (if probe_URL p \<noteq> [] then concat [''
	.url = "'', probe_URL p, ''";'']
        else if probe_Request p \<noteq> [] then concat [''
	.request ='', concat (map (\<lambda>line. concat [''
		"'', line, ''"'']) (probe_Request p)), ''
		;'']
        else []),
       opt_text (probe_ExpResponse p \<noteq> 0) (concat [''
	.expected_response = '', utoa (probe_ExpResponse p), '';'']),
       render_probe_times p, ''
}'']\<close>

definition render_svc_probe :: "string \<times> Service \<Rightarrow> string" where
  "render_svc_probe p =
     (case svc_Probe (snd p) of None \<Rightarrow> [] | Some probe \<Rightarrow> render_probe (fst p) probe)"

definition render_backend :: "string \<Rightarrow> Service \<Rightarrow> Address \<Rightarrow> string" where
  \<open>render_backend name svc addr =
     concat [''backend '', backendName svc (addr_IP addr), '' {
	.host = "'', addr_IP addr, ''";
	.port = "'', itoa32 (addr_Port addr), ''";'',
       opt_text (svc_HostHeader svc \<noteq> []) (concat [''
	.host_header = "'', svc_HostHeader svc, ''";'']),
       opt_text (svc_ConnectTimeout svc \<noteq> []) (concat [''
	.connect_timeout = '', svc_ConnectTimeout svc, '';'']),
       opt_text (svc_FirstByteTimeout svc \<noteq> []) (concat [''
	.first_byte_timeout = '', svc_FirstByteTimeout svc, '';'']),
       opt_text (svc_BetweenBytesTimeout svc \<noteq> []) (concat [''
	.between_bytes_timeout = '', svc_BetweenBytesTimeout svc, '';'']),
       opt_text (svc_ProxyHeader svc \<noteq> 0) (concat [''
	.proxy_header = '', utoa (svc_ProxyHeader svc), '';'']),
       opt_text (svc_MaxConnections svc \<noteq> 0) (concat [''
	.max_connections = '', utoa (svc_MaxConnections svc), '';'']),
       opt_text (svc_Probe svc \<noteq> None) (concat [''
	.probe = '', probeName name, '';'']), ''
}
'']\<close>

definition render_backends :: "string \<times> Service \<Rightarrow> string" where
  "render_backends p = concat (map (render_backend (fst p) (snd p)) (svc_Addresses (snd p)))"

definition render_host :: "Rule \<Rightarrow> string" where
  \<open>render_host rule =
     concat [''
	vk8s_hosts.add("'' @ bslash @ ''Q'', rule_Host rule,
       bslash @ ''E(:'' @ bslash @ ''d+)?");'']\<close>

text \<open>
  Warmup and rampup are printed for shard directors only; a service without a director has type
  round-robin.
\<close>

definition render_shard_params :: "Service \<Rightarrow> string" where
  \<open>render_shard_params svc =
     (case svc_Director svc of
        None \<Rightarrow> []
      | Some d \<Rightarrow>
          concat [
            opt_text (dir_Warmup d \<noteq> 0) (concat [''
	'', directorName svc, ''.set_warmup('', fmt_pct (dir_Warmup d), '');'']),
            opt_text (dir_Rampup d \<noteq> []) (concat [''
	'', directorName svc, ''.set_rampup('', dir_Rampup d, '');''])])\<close>

definition render_director :: "string \<times> Service \<Rightarrow> string" where
  \<open>render_director p =
     (let svc = snd p; dt = dirType svc in
      concat [''
	new '', directorName svc, '' = directors.'', dt, ''();'',
       concat (map (\<lambda>addr. concat [''
	'', directorName svc, ''.add_backend('', backendName svc (addr_IP addr),
         opt_text (dt = ''random'') ''
		, 1.0'', ''
		);'']) (svc_Addresses svc)),
       opt_text (dt = ''shard'') (concat [render_shard_params svc, ''
	'', directorName svc, ''.reconfigure();'']), ''
''])\<close>

definition render_url_set :: "Rule \<Rightarrow> string" where
  \<open>render_url_set rule =
     concat [''
	new '', urlMatcher rule, '' = re2.set(posix_syntax=true, anchor=start);'',
       concat (map (\<lambda>(path, svc). concat [''
	'', urlMatcher rule, ''.add("'', path, ''",
				backend='', directorName svc, ''.backend());'']) (rule_PathMap rule)),
       ''
	'', urlMatcher rule, ''.compile();
'']\<close>

definition render_host_branch :: "nat \<Rightarrow> Rule \<Rightarrow> string" where
  \<open>render_host_branch i rule =
     concat [''
		elsif (vk8s_hosts.which() == '', text_base 10 (i + 1), '') {
			if ('', urlMatcher rule, ''.match(req.url)) {
				set req.backend_hint = '', urlMatcher rule, ''.backend(select=FIRST);
			}
		}'']\<close>

definition render_routing :: "Spec \<Rightarrow> string" where
  \<open>render_routing spec =
     opt_text (sp_Rules spec \<noteq> []) (concat [''
	if (vk8s_hosts.match(req.http.Host)) {
		if (vk8s_hosts.nmatches() != 1) {
			# Fail fast when the match was not unique.
			return (fail);
		}
		if (0 != 0) {
			#
		}'', concat (map (\<lambda>(i, r). render_host_branch i r) (enumerate 0 (sp_Rules spec))), ''
	}''])\<close>

definition render_default :: "Spec \<Rightarrow> string" where
  \<open>render_default spec =
     (if svc_Name (sp_DefaultService spec) \<noteq> [] then concat [''
		set req.backend_hint = '', directorName (sp_DefaultService spec), ''.backend();'']
      else ''
		return (synth(404));'')\<close>

definition render_ingress :: "Spec \<Rightarrow> string" where
  \<open>render_ingress spec =
     concat [''vcl 4.0;

import std;
import directors;
import re2;

backend vk8s_notfound {
	# 192.0.2.0/24 reserved for docs & examples (RFC5737).
	.host = "192.0.2.255";
	.port = "80";
}'', concat (map render_svc_probe (sp_AllServices spec)), ''

'', concat (map render_backends (sp_AllServices spec)), ''

sub vcl_init {'',
       opt_text (sp_Rules spec \<noteq> []) (concat [''
	new vk8s_hosts = re2.set(anchor=both);'', concat (map render_host (sp_Rules spec)), ''
	vk8s_hosts.compile();
'']),
       concat (map render_director (sp_AllServices spec)),
       concat (map render_url_set (sp_Rules spec)), ''}

sub vk8s_set_backend {
	set req.backend_hint = vk8s_notfound;'', render_routing spec, ''

	if (req.backend_hint == vk8s_notfound) {'', render_default spec, ''
	}
}

sub vcl_miss {
	call vk8s_set_backend;
}

sub vcl_pass {
	call vk8s_set_backend;
}

sub vcl_pipe {
	call vk8s_set_backend;
}

sub vcl_hit {
	if (obj.ttl < 0s) {
		# Set a backend for a background fetch.
		call vk8s_set_backend;
	}
}
'']\<close>

section \<open>self-shard.tmpl\<close>

text \<open>\<open>index $node.Addresses 0\<close> is an error for a node without addresses.\<close>

definition node_addr :: "Service \<Rightarrow> (unit, Address) outcome" where
  "node_addr node = (case svc_Addresses node of [] \<Rightarrow> Err () | a # _ \<Rightarrow> Ok a)"

definition render_node :: "Service \<Rightarrow> (unit, string) outcome" where
  \<open>render_node node =
     obind (node_addr node) (\<lambda>a. Ok (concat [''backend '', svc_Name node, '' {
	.host = "'', addr_IP a, ''";
	.port = "'', itoa32 (addr_Port a), ''";
	.probe = vk8s_probe_varnish;
}

'']))\<close>

definition render_node_acl :: "Service \<Rightarrow> (unit, string) outcome" where
  \<open>render_node_acl node =
     obind (node_addr node) (\<lambda>a. Ok (concat [''
	"'', addr_IP a, ''";'']))\<close>

definition render_shard :: "ShardCluster \<Rightarrow> (unit, string) outcome" where
  \<open>render_shard sc =
     obind (omap render_node (shard_Nodes sc)) (\<lambda>nodes.
     obind (omap render_node_acl (shard_Nodes sc)) (\<lambda>acls.
     Ok (concat [''
import std;
import directors;

probe vk8s_probe_varnish {
	.request = "HEAD /vk8s_cluster_health HTTP/1.1"
	           "Host: vk8s_cluster"
	           "Connection: close";'', render_probe_times (shard_Probe sc), ''
}

'', concat nodes, ''acl vk8s_cluster_acl {'', concat acls, ''
}

sub vcl_init {
	new vk8s_cluster = directors.shard();
	'', concat (map (\<lambda>node. concat [''vk8s_cluster.add_backend('', svc_Name node, '');
	'']) (shard_Nodes sc)), ''vk8s_cluster.reconfigure();
}

sub vcl_recv {
	if (remote.ip ~ vk8s_cluster_acl) {
		if (req.http.Host == "vk8s_cluster") {
			if (req.url == "/vk8s_cluster_health") {
				return (synth(200));
			}
			return (synth(404));
		}

		# prevent deadlock for accidental cyclic requests
		set req.hash_ignore_busy = true;

		# if we're async, don't deliver stale
		if (req.http.VK8S-Is-Bgfetch == "true") {
			set req.grace = 0s;
		}

		return (hash);
	}
}

sub vcl_backend_fetch {
	if (bereq.retries == 0 
	    && !bereq.uncacheable
	    && remote.ip !~ vk8s_cluster_acl
	    && "" + vk8s_cluster.backend(resolve=NOW) != server.identity) {
		set bereq.backend = vk8s_cluster.backend(resolve=NOW);
		set bereq.http.VK8S-Is-Bgfetch = bereq.is_bgfetch;
		return (fetch);
	}
}

sub vcl_backend_response {
	if (bereq.backend == vk8s_cluster.backend(resolve=LAZY)) {
	        if (beresp.http.VK8S-Cluster-TTL) {
		        set beresp.ttl = std.duration(
                	    beresp.http.VK8S-Cluster-TTL + "s", 1s);
		        if (beresp.ttl > '', shard_MaxSecondaryTTL sc, '') {
			        set beresp.ttl = '', shard_MaxSecondaryTTL sc, '';
		        }
		        unset beresp.http.VK8S-Cluster-TTL;
	        }
                else {
			set beresp.uncacheable = true;
		}
		return (deliver);
	}
}

sub vcl_backend_error {
	if (bereq.backend == vk8s_cluster.backend(resolve=LAZY)) {
		return (deliver);
	}
}

sub vcl_deliver {
	unset resp.http.VK8S-Cluster-TTL;
	if (remote.ip ~ vk8s_cluster_acl) {
		if (! obj.uncacheable) {
			set resp.http.VK8S-Cluster-TTL = obj.ttl;
		}
		return (deliver);
	}
}
''])))\<close>

section \<open>GetSrc\<close>

text \<open>The error (or recovered panic) of a template is returned as the error of \<open>GetSrc\<close>.\<close>

definition tmpl_result :: "tmpl_error \<Rightarrow> (unit, string) outcome \<Rightarrow> (tmpl_error, string) outcome" where
  "tmpl_result e r = (case r of Ok s \<Rightarrow> Ok s | _ \<Rightarrow> Err e)"

definition GetSrc :: "Spec \<Rightarrow> (tmpl_error, string) outcome" where
  "GetSrc spec =
     (let ingress = render_ingress spec in
      obind (if shard_Nodes (sp_ShardCluster spec) \<noteq> []
             then tmpl_result ShardTmplError (render_shard (sp_ShardCluster spec)) else Ok [])
        (\<lambda>shard.
      let acls = (if sp_ACLs spec \<noteq> [] then render_acls spec else []);
          auths = (if sp_Auths spec \<noteq> [] then render_auths spec else []);
          rewrites = (if sp_Rewrites spec \<noteq> [] then render_rewrites spec else [])
      in obind (if sp_Dispositions spec \<noteq> []
                then tmpl_result ReqDispTmplError (render_disps spec) else Ok [])
        (\<lambda>disps. Ok (ingress @ shard @ acls @ auths @ rewrites @ disps @ sp_VCL spec))))"

text \<open>When a source is produced: every condition that compares with a value has one, and every node
  of a cluster has an address.\<close>

definition cond_renderable :: "Condition \<Rightarrow> bool" where
  "cond_renderable c \<longleftrightarrow>
     reqNeedsMatcher c \<or> cond_Compare c = Exists \<or> cond_Count c \<noteq> None \<or> cond_Values c \<noteq> []"

lemma render_disp_cond_ex: "(\<exists>s. render_disp_cond i j c = Ok s) \<longleftrightarrow> cond_renderable c"
  by (auto simp: render_disp_cond_def cond_renderable_def reqValue_def obind_Ok_iff
        split: option.split list.split)

lemma enumerate_conds:
  "(\<forall>x \<in> set (enumerate n cs). case x of (i, c) \<Rightarrow> P c) \<longleftrightarrow> (\<forall>c \<in> set cs. P c)"
  by (induction cs arbitrary: n) auto

lemma render_disp_ex: "(\<exists>s. render_disp i d = Ok s) \<longleftrightarrow> (\<forall>c \<in> set (disp_Conditions d). cond_renderable c)"
proof -
  have "(\<exists>s. render_disp i d = Ok s) \<longleftrightarrow>
      (\<exists>cs. omap (\<lambda>(j, c). render_disp_cond i j c) (enumerate 0 (disp_Conditions d)) = Ok cs)"
    by (auto simp: render_disp_def obind_Ok_iff)
  also have "\<dots> \<longleftrightarrow> (\<forall>x \<in> set (enumerate 0 (disp_Conditions d)). case x of (j, c) \<Rightarrow> cond_renderable c)"
    unfolding omap_ex_iff by (simp add: case_prod_unfold render_disp_cond_ex)
  finally show ?thesis by (simp only: enumerate_conds)
qed

lemma render_disps_ex:
  "(\<exists>s. render_disps spec = Ok s) \<longleftrightarrow>
     (\<forall>d \<in> set (sp_Dispositions spec). \<forall>c \<in> set (disp_Conditions d). cond_renderable c)"
proof -
  have "(\<exists>s. render_disps spec = Ok s) \<longleftrightarrow>
      (\<exists>ds. omap (\<lambda>(i, d). render_disp i d) (enumerate 0 (sp_Dispositions spec)) = Ok ds)"
    by (auto simp: render_disps_def obind_Ok_iff)
  also have "\<dots> \<longleftrightarrow> (\<forall>x \<in> set (enumerate 0 (sp_Dispositions spec)).
      case x of (i, d) \<Rightarrow> \<forall>c \<in> set (disp_Conditions d). cond_renderable c)"
    unfolding omap_ex_iff by (simp add: case_prod_unfold render_disp_ex)
  finally show ?thesis by (simp only: enumerate_conds)
qed

lemma render_shard_ex:
  "(\<exists>s. render_shard sc = Ok s) \<longleftrightarrow> (\<forall>n \<in> set (shard_Nodes sc). svc_Addresses n \<noteq> [])"
proof -
  have node: "(\<exists>s. render_node n = Ok s) \<longleftrightarrow> svc_Addresses n \<noteq> []"
    "(\<exists>s. render_node_acl n = Ok s) \<longleftrightarrow> svc_Addresses n \<noteq> []" for n
    by (auto simp: render_node_def render_node_acl_def node_addr_def split: list.split)
  have "(\<exists>s. render_shard sc = Ok s) \<longleftrightarrow>
      (\<exists>x. omap render_node (shard_Nodes sc) = Ok x) \<and> (\<exists>y. omap render_node_acl (shard_Nodes sc) = Ok y)"
    by (auto simp: render_shard_def obind_Ok_iff)
  then show ?thesis by (simp add: omap_ex_iff node)
qed

lemma tmpl_result_ex: "(\<exists>s. tmpl_result e r = Ok s) \<longleftrightarrow> (\<exists>s. r = Ok s)"
  by (cases r) (auto simp: tmpl_result_def)

lemma GetSrc_Ok_iff:
  "(\<exists>src. GetSrc spec = Ok src) \<longleftrightarrow>
     (\<forall>n \<in> set (shard_Nodes (sp_ShardCluster spec)). svc_Addresses n \<noteq> [])
     \<and> (\<forall>d \<in> set (sp_Dispositions spec). \<forall>c \<in> set (disp_Conditions d). cond_renderable c)"
proof -
  have shard: "(\<exists>x. (if shard_Nodes (sp_ShardCluster spec) \<noteq> []
      then tmpl_result ShardTmplError (render_shard (sp_ShardCluster spec)) else Ok []) = Ok x)
      \<longleftrightarrow> (\<forall>n \<in> set (shard_Nodes (sp_ShardCluster spec)). svc_Addresses n \<noteq> [])"
    by (simp add: tmpl_result_ex render_shard_ex)
  have disps: "(\<exists>x. (if sp_Dispositions spec \<noteq> []
      then tmpl_result ReqDispTmplError (render_disps spec) else Ok []) = Ok x)
      \<longleftrightarrow> (\<forall>d \<in> set (sp_Dispositions spec). \<forall>c \<in> set (disp_Conditions d). cond_renderable c)"
    by (simp add: tmpl_result_ex render_disps_ex)
  show ?thesis
    unfolding GetSrc_def Let_def obind_Ok_iff by (simp only: flip: shard disps) blast
qed

lemma GetSrc_no_Panic: "GetSrc spec \<noteq> Panic"
  by (auto simp: GetSrc_def Let_def tmpl_result_def obind_Panic_iff split: outcome.split_asm)

end
