(* ===== verification/VarnishAdmin.thy ===== *)
theory VarnishAdmin
  imports VclCanon VclRender
begin

text \<open>
  The administration interface of a Varnish instance.  The package \<open>varnishapi/pkg/admin\<close> is
  outside the repository: it is a record of functions over a world of type \<open>'w\<close> (all instances
  and the network), an argument of every operation that uses it.  \<open>Dial\<close> gives a connection
  (a handle) and the banner.  What the controller relies on is the locale \<open>varnish_admin\<close>: which
  entries of the VCL list an instance has after a successful command.  \<open>sim_admin\<close> is a concrete
  instance of the interface (a small Varnish) that satisfies the contract.
\<close>

datatype adm_error = EOF | AdmFailure string

record VCLData =
  vd_Name :: string
  vd_LabelVCL :: string
  vd_State :: string

abbreviation "ColdState \<equiv> ''cold''"
abbreviation "WarmState \<equiv> ''warm''"
abbreviation "Running \<equiv> ''running''"

record 'w admin =
  adm_Dial :: "string \<Rightarrow> bytes \<Rightarrow> 'w \<Rightarrow> (adm_error + nat \<times> string) \<times> 'w"
  adm_Close :: "nat \<Rightarrow> 'w \<Rightarrow> 'w"
  adm_VCLList :: "nat \<Rightarrow> 'w \<Rightarrow> (adm_error + VCLData list) \<times> 'w"
  adm_VCLInline :: "nat \<Rightarrow> string \<Rightarrow> string \<Rightarrow> 'w \<Rightarrow> adm_error option \<times> 'w"
  adm_VCLLabel :: "nat \<Rightarrow> string \<Rightarrow> string \<Rightarrow> 'w \<Rightarrow> adm_error option \<times> 'w"
  adm_VCLDiscard :: "nat \<Rightarrow> string \<Rightarrow> 'w \<Rightarrow> adm_error option \<times> 'w"
  adm_Ping :: "nat \<Rightarrow> 'w \<Rightarrow> adm_error option \<times> 'w"
  adm_Status :: "nat \<Rightarrow> 'w \<Rightarrow> (adm_error + string) \<times> 'w"
  adm_GetPanic :: "nat \<Rightarrow> 'w \<Rightarrow> (adm_error + string) \<times> 'w"

text \<open>The names the controller uses at an instance.\<close>

abbreviation "regularLabel \<equiv> ''vk8s_regular''"
abbreviation "readinessLabel \<equiv> ''vk8s_readiness''"
abbreviation "readyCfg \<equiv> ''vk8s_ready''"
abbreviation "notAvailCfg \<equiv> ''vk8s_notavailable''"
abbreviation "ingressPrefix \<equiv> ''vk8s_ing_''"

section \<open>Tests on a VCL list\<close>

definition has_vcl :: "string \<Rightarrow> VCLData list \<Rightarrow> bool" where
  "has_vcl name vcls \<longleftrightarrow> (\<exists>v \<in> set vcls. vd_Name v = name)"

definition has_label :: "string \<Rightarrow> string \<Rightarrow> VCLData list \<Rightarrow> bool" where
  "has_label lbl cfg vcls \<longleftrightarrow> (\<exists>v \<in> set vcls. vd_LabelVCL v = cfg \<and> vd_Name v = lbl)"

section \<open>The contract\<close>

text \<open>
  \<open>vcls a w\<close> is the VCL list of the instance at address \<open>a\<close>; \<open>at w c a\<close> says that handle \<open>c\<close> is
  open to \<open>a\<close>.  A command changes the list of its own instance only; a successful load adds the
  configuration and keeps the labels, a successful label command points the label and keeps the
  other labels and all configurations.
\<close>

locale varnish_admin =
  fixes ADM :: "'w admin"
    and vcls :: "string \<Rightarrow> 'w \<Rightarrow> VCLData list"
    and at :: "'w \<Rightarrow> nat \<Rightarrow> string \<Rightarrow> bool"
  assumes dial_ok: "adm_Dial ADM a s w = (Inr (c, b), w') \<Longrightarrow> at w' c a"
    and dial_vcls: "adm_Dial ADM a s w = (d, w') \<Longrightarrow> vcls x w' = vcls x w"
    and close_vcls: "vcls x (adm_Close ADM c w) = vcls x w"
    and list_ok: "at w c a \<Longrightarrow> adm_VCLList ADM c w = (Inr vs, w') \<Longrightarrow> vs = vcls a w"
    and list_frame: "adm_VCLList ADM c w = (r, w') \<Longrightarrow>
          vcls x w' = vcls x w \<and> (at w c a \<longrightarrow> at w' c a)"
    and inline_ok: "at w c a \<Longrightarrow> adm_VCLInline ADM c n src w = (None, w') \<Longrightarrow>
          has_vcl n (vcls a w') \<and> (\<forall>l cfg. has_label l cfg (vcls a w) \<longrightarrow> has_label l cfg (vcls a w'))"
    and inline_frame: "at w c a \<Longrightarrow> adm_VCLInline ADM c n src w = (e, w') \<Longrightarrow>
          at w' c a \<and> (\<forall>x. x \<noteq> a \<longrightarrow> vcls x w' = vcls x w)"
    and label_ok: "at w c a \<Longrightarrow> adm_VCLLabel ADM c l cfg w = (None, w') \<Longrightarrow>
          has_label l cfg (vcls a w')
          \<and> (\<forall>n. has_vcl n (vcls a w) \<longrightarrow> has_vcl n (vcls a w'))
          \<and> (\<forall>m cf. m \<noteq> l \<longrightarrow> has_label m cf (vcls a w) \<longrightarrow> has_label m cf (vcls a w'))"
    and label_frame: "at w c a \<Longrightarrow> adm_VCLLabel ADM c l cfg w = (e, w') \<Longrightarrow>
          at w' c a \<and> (\<forall>x. x \<noteq> a \<longrightarrow> vcls x w' = vcls x w)"

section \<open>A small Varnish\<close>

text \<open>
  Instances at addresses, each with its secret, its VCL list and the sources of its
  configurations, and a fault that makes every command fail with a given error.  A handle is
  the position of the instance in the list.
\<close>

record SimInst =
  si_addr :: string
  si_secret :: bytes
  si_vcls :: "VCLData list"
  si_src :: "string gomap"
  si_fault :: "adm_error option"

type_synonym sim = "SimInst list"

fun sim_find :: "string \<Rightarrow> sim \<Rightarrow> nat option" where
  "sim_find a [] = None"
| "sim_find a (i # is) = (if si_addr i = a then Some 0 else map_option Suc (sim_find a is))"

definition sim_vcls :: "string \<Rightarrow> sim \<Rightarrow> VCLData list" where
  "sim_vcls a w = (case sim_find a w of None \<Rightarrow> [] | Some n \<Rightarrow> si_vcls (w ! n))"

definition sim_at :: "sim \<Rightarrow> nat \<Rightarrow> string \<Rightarrow> bool" where
  "sim_at w c a \<longleftrightarrow> sim_find a w = Some c"

definition sim_Dial :: "string \<Rightarrow> bytes \<Rightarrow> sim \<Rightarrow> (adm_error + nat \<times> string) \<times> sim" where
  "sim_Dial a s w =
     (case sim_find a w of
        None \<Rightarrow> (Inl (AdmFailure ''connection refused''), w)
      | Some c \<Rightarrow> if si_secret (w ! c) = s then (Inr (c, ''Varnish''), w)
                  else (Inl (AdmFailure ''authentication failed''), w))"

text \<open>A command at an open handle: it fails with the fault of the instance, if there is one.\<close>

definition sim_cmd :: "nat \<Rightarrow> (SimInst \<Rightarrow> SimInst) \<Rightarrow> sim \<Rightarrow> adm_error option \<times> sim" where
  "sim_cmd c f w =
     (if c < length w then
        (case si_fault (w ! c) of
           Some e \<Rightarrow> (Some e, w)
         | None \<Rightarrow> (None, w[c := f (w ! c)]))
      else (Some EOF, w))"

definition sim_query :: "nat \<Rightarrow> (SimInst \<Rightarrow> 'a) \<Rightarrow> sim \<Rightarrow> (adm_error + 'a) \<times> sim" where
  "sim_query c f w =
     (if c < length w then
        (case si_fault (w ! c) of Some e \<Rightarrow> (Inl e, w) | None \<Rightarrow> (Inr (f (w ! c)), w))
      else (Inl EOF, w))"

definition sim_load :: "string \<Rightarrow> string \<Rightarrow> SimInst \<Rightarrow> SimInst" where
  "sim_load n src i =
     i\<lparr>si_vcls := si_vcls i @ [\<lparr>vd_Name = n, vd_LabelVCL = [], vd_State = WarmState\<rparr>],
       si_src := gm_put n src (si_src i)\<rparr>"

definition sim_label :: "string \<Rightarrow> string \<Rightarrow> SimInst \<Rightarrow> SimInst" where
  "sim_label l cfg i =
     i\<lparr>si_vcls := filter (\<lambda>v. vd_Name v \<noteq> l) (si_vcls i)
                    @ [\<lparr>vd_Name = l, vd_LabelVCL = cfg, vd_State = WarmState\<rparr>]\<rparr>"

definition sim_discard :: "string \<Rightarrow> SimInst \<Rightarrow> SimInst" where
  "sim_discard n i =
     i\<lparr>si_vcls := filter (\<lambda>v. vd_Name v \<noteq> n) (si_vcls i), si_src := gm_del n (si_src i)\<rparr>"

definition sim_admin :: "sim admin" where
  "sim_admin =
     \<lparr>adm_Dial = sim_Dial,
      adm_Close = (\<lambda>c w. w),
      adm_VCLList = (\<lambda>c. sim_query c si_vcls),
      adm_VCLInline = (\<lambda>c n src. sim_cmd c (sim_load n src)),
      adm_VCLLabel = (\<lambda>c l cfg. sim_cmd c (sim_label l cfg)),
      adm_VCLDiscard = (\<lambda>c n. sim_cmd c (sim_discard n)),
      adm_Ping = (\<lambda>c. sim_cmd c (\<lambda>i. i)),
      adm_Status = (\<lambda>c. sim_query c (\<lambda>_. Running)),
      adm_GetPanic = (\<lambda>c. sim_query c (\<lambda>_. []))\<rparr>"

lemma sim_find_Some: "sim_find a w = Some c \<Longrightarrow> c < length w \<and> si_addr (w ! c) = a"
  by (induction w arbitrary: c) (auto split: if_splits)

lemma sim_find_update:
  "si_addr (f (w ! c)) = si_addr (w ! c) \<Longrightarrow> sim_find a (w[c := f (w ! c)]) = sim_find a w"
proof (induction w arbitrary: c)
  case (Cons i w)
  then show ?case by (cases c) auto
qed simp

lemma sim_find_inj: "sim_find a w = Some c \<Longrightarrow> sim_find b w = Some c \<Longrightarrow> a = b"
  using sim_find_Some by blast

lemma sim_vcls_update:
  assumes "si_addr (f (w ! c)) = si_addr (w ! c)" and "sim_find a w = Some c"
  shows "sim_vcls x (w[c := f (w ! c)])
    = (if x = a then si_vcls (f (w ! c)) else sim_vcls x w)"
proof -
  have c: "c < length w" using sim_find_Some [OF assms(2)] by simp
  show ?thesis
  proof (cases "x = a")
    case True
    with assms c show ?thesis by (simp add: sim_vcls_def sim_find_update)
  next
    case False
    have "w[c := f (w ! c)] ! d = w ! d" if "sim_find x w = Some d" for d
      using that False assms(2) sim_find_inj by (metis nth_list_update_neq)
    with False assms(1) show ?thesis
      by (simp add: sim_vcls_def sim_find_update split: option.split)
  qed
qed

lemma sim_cmd_frame:
  assumes "sim_cmd c f w = (e, w')" and "sim_find a w = Some c"
    and "si_addr (f (w ! c)) = si_addr (w ! c)"
  shows "sim_find a w' = Some c" and "\<And>x. x \<noteq> a \<Longrightarrow> sim_vcls x w' = sim_vcls x w"
    and "e = None \<Longrightarrow> sim_vcls a w' = si_vcls (f (w ! c))"
proof -
  have "w' = w \<and> e \<noteq> None \<or> w' = w[c := f (w ! c)]"
  proof (cases "c < length w \<and> si_fault (w ! c) = None")
    case True
    with assms(1) show ?thesis by (simp add: sim_cmd_def)
  next
    case False
    then have "fst (sim_cmd c f w) \<noteq> None" and "snd (sim_cmd c f w) = w"
      by (auto simp: sim_cmd_def)
    with assms(1) show ?thesis by simp
  qed
  with assms(2,3) show "sim_find a w' = Some c"
    and "\<And>x. x \<noteq> a \<Longrightarrow> sim_vcls x w' = sim_vcls x w"
    and "e = None \<Longrightarrow> sim_vcls a w' = si_vcls (f (w ! c))"
    by (auto simp: sim_find_update sim_vcls_update)
qed

lemma sim_addr_kept [simp]:
  "si_addr (sim_load n src i) = si_addr i" "si_addr (sim_label l cfg i) = si_addr i"
  by (simp_all add: sim_load_def sim_label_def)

lemma sim_vcls_at: "sim_find a w = Some c \<Longrightarrow> sim_vcls a w = si_vcls (w ! c)"
  by (simp add: sim_vcls_def)

interpretation sim: varnish_admin sim_admin sim_vcls sim_at
proof
  fix a s w c b w'
  assume "adm_Dial sim_admin a s w = (Inr (c, b), w')"
  then show "sim_at w' c a"
    by (auto simp: sim_admin_def sim_Dial_def sim_at_def split: option.splits if_splits)
next
  fix a s w r w' x
  assume "adm_Dial sim_admin a s w = (r, w')"
  then show "sim_vcls x w' = sim_vcls x w"
    by (auto simp: sim_admin_def sim_Dial_def split: option.splits if_splits)
next
  fix x c w
  show "sim_vcls x (adm_Close sim_admin c w) = sim_vcls x w"
    by (simp add: sim_admin_def)
next
  fix w c a vs w'
  assume "sim_at w c a" and "adm_VCLList sim_admin c w = (Inr vs, w')"
  then show "vs = sim_vcls a w"
    by (auto simp: sim_admin_def sim_query_def sim_at_def sim_vcls_def split: option.splits if_splits)
next
  fix c w r w' x a
  assume "adm_VCLList sim_admin c w = (r, w')"
  then show "sim_vcls x w' = sim_vcls x w \<and> (sim_at w c a \<longrightarrow> sim_at w' c a)"
    by (auto simp: sim_admin_def sim_query_def split: option.splits if_splits)
next
  fix w c a n src w'
  assume at: "sim_at w c a" and "adm_VCLInline sim_admin c n src w = (None, w')"
  then have cmd: "sim_cmd c (sim_load n src) w = (None, w')" by (simp add: sim_admin_def)
  from sim_cmd_frame(3) [OF cmd] at
  have "sim_vcls a w' = si_vcls (sim_load n src (w ! c))" by (simp add: sim_at_def)
  with at show "has_vcl n (sim_vcls a w')
      \<and> (\<forall>l cfg. has_label l cfg (sim_vcls a w) \<longrightarrow> has_label l cfg (sim_vcls a w'))"
    by (auto simp: sim_at_def sim_vcls_at sim_load_def has_vcl_def has_label_def)
next
  fix w c a n src e w'
  assume "sim_at w c a" and "adm_VCLInline sim_admin c n src w = (e, w')"
  then show "sim_at w' c a \<and> (\<forall>x. x \<noteq> a \<longrightarrow> sim_vcls x w' = sim_vcls x w)"
    using sim_cmd_frame(1,2) [of c "sim_load n src" w e w' a]
    by (simp add: sim_admin_def sim_at_def)
next
  fix w c a l cfg w'
  assume at: "sim_at w c a" and "adm_VCLLabel sim_admin c l cfg w = (None, w')"
  then have cmd: "sim_cmd c (sim_label l cfg) w = (None, w')" by (simp add: sim_admin_def)
  from sim_cmd_frame(3) [OF cmd] at
  have "sim_vcls a w' = si_vcls (sim_label l cfg (w ! c))" by (simp add: sim_at_def)
  with at show "has_label l cfg (sim_vcls a w')
      \<and> (\<forall>n. has_vcl n (sim_vcls a w) \<longrightarrow> has_vcl n (sim_vcls a w'))
      \<and> (\<forall>m d. m \<noteq> l \<longrightarrow> has_label m d (sim_vcls a w) \<longrightarrow> has_label m d (sim_vcls a w'))"
    by (auto simp: sim_at_def sim_vcls_at sim_label_def has_vcl_def has_label_def)
next
  fix w c a l cfg e w'
  assume "sim_at w c a" and "adm_VCLLabel sim_admin c l cfg w = (e, w')"
  then show "sim_at w' c a \<and> (\<forall>x. x \<noteq> a \<longrightarrow> sim_vcls x w' = sim_vcls x w)"
    using sim_cmd_frame(1,2) [of c "sim_label l cfg" w e w' a]
    by (simp add: sim_admin_def sim_at_def)
qed

end
