(* ===== verification/VarnishCtl.thy ===== *)
theory VarnishCtl
  imports VarnishAdmin
begin

text \<open>
  The Varnish controller of \<open>pkg/varnish/varnish.go\<close>: its state, and every operation that changes
  it.  A \<open>*[]byte\<close> is an address in a heap of byte slices (\<open>vc_heap\<close>), because instances and the
  map \<open>vc.secrets\<close> share secrets by pointer and \<open>SetAdmSecret\<close> writes through it.  A
  \<open>*varnishSvc\<close> or \<open>*varnishInst\<close> has one owner and is a value.  The order in which Go visits a map
  is an argument (\<open>ord\<close>).  Log lines, the metrics of single instances, mutexes and the wait group
  are left out; the gauges are state.
\<close>

section \<open>State\<close>

record Meta =
  meta_Key :: string
  meta_UID :: string
  meta_Ver :: string

definition zero_Meta :: Meta where
  "zero_Meta = \<lparr>meta_Key = [], meta_UID = [], meta_Ver = []\<rparr>"

record VclSpecMeta =
  vm_spec :: Spec
  vm_ings :: "Meta gomap"
  vm_vcfg :: Meta
  vm_bcfg :: "Meta gomap"

record VarnishInst =
  vi_addr :: string
  vi_admSecret :: "nat option"
  vi_Banner :: string

record VarnishSvc =
  vs_instances :: "VarnishInst list"
  vs_spec :: "VclSpecMeta option"
  vs_secrName :: string
  vs_cfgLoaded :: bool

definition new_VarnishSvc :: VarnishSvc where
  "new_VarnishSvc =
     \<lparr>vs_instances = [], vs_spec = None, vs_secrName = [], vs_cfgLoaded = False\<rparr>"

record 'w Controller =
  vc_svcs :: "VarnishSvc gomap"
  vc_secrets :: "nat gomap"
  vc_heap :: "bytes list"
  vc_svcsGauge :: int
  vc_instsGauge :: int
  vc_secretsGauge :: int
  vc_beSvcsGauge :: int
  vc_beEndpsGauge :: int
  vc_world :: 'w

definition NewVarnishController :: "'w \<Rightarrow> 'w Controller" where
  "NewVarnishController w =
     \<lparr>vc_svcs = [], vc_secrets = [], vc_heap = [], vc_svcsGauge = 0, vc_instsGauge = 0,
      vc_secretsGauge = 0, vc_beSvcsGauge = 0, vc_beEndpsGauge = 0, vc_world = w\<rparr>"

section \<open>Errors\<close>

text \<open>\<open>AdmErr\<close> and \<open>AdmErrs\<close> are the types \<open>AdmError\<close> and \<open>AdmErrors\<close> of the source.\<close>

datatype vc_error =
    NoSecret
  | Adm adm_error
  | UnknownService string
  | NoSecretForService string
  | TmplErr tmpl_error
  | NoInstances string
  | UnknownNotReady string
  | AdmErr string vc_error
  | AdmErrs "(string \<times> vc_error) list"

text \<open>The texts of the errors, with the texts \<open>m\<close> of the errors they wrap.\<close>

definition AdmError_Error :: "string \<times> string \<Rightarrow> string" where
  "AdmError_Error e = fst e @ '': '' @ snd e"

definition AdmErrors_Error :: "(string \<times> string) list \<Rightarrow> string" where
  "AdmErrors_Error errs =
     ''['' @ concat (map (\<lambda>e. ''{'' @ AdmError_Error e @ ''}'') errs) @ '']''"

definition errs_result :: "(string \<times> vc_error) list \<Rightarrow> vc_error option" where
  "errs_result errs = (if errs = [] then None else Some (AdmErrs errs))"

lemma errs_result_None [simp]: "errs_result errs = None \<longleftrightarrow> errs = []"
  by (simp add: errs_result_def)

section \<open>Names\<close>

text \<open>\<open>nonAlNum.ReplaceAllLiteralString(s, "_")\<close>: each maximal run of other characters becomes one
  underscore.\<close>

fun replace_runs :: "string \<Rightarrow> string" where
  "replace_runs [] = []"
| "replace_runs (c # s) =
     (if is_alnum c then c # replace_runs s
      else CHR ''_'' # replace_runs (dropWhile (\<lambda>x. \<not> is_alnum x) s))"

definition configName :: "Spec \<Rightarrow> string" where
  "configName spec = replace_runs (ingressPrefix @ DeepHash (Canonical spec))"

lemma replace_runs_alnum: "list_all is_alnum s \<Longrightarrow> replace_runs s = s"
  by (induction s) auto

lemma dropWhile_alnum_append:
  "list_all is_alnum t \<Longrightarrow> t \<noteq> [] \<Longrightarrow>
     dropWhile (\<lambda>x. \<not> is_alnum x) (s @ t) = dropWhile (\<lambda>x. \<not> is_alnum x) s @ t"
  by (cases t) (auto simp: dropWhile_append)

lemma configName_eq: "configName spec = ingressPrefix @ DeepHash (Canonical spec)"
proof -
  have h: "list_all is_alnum (DeepHash (Canonical spec))" by (rule DeepHash_alnum)
  have "DeepHash (Canonical spec) \<noteq> []" by (simp add: DeepHash_def big_text62_def)
  then obtain c s where cs: "DeepHash (Canonical spec) = c # s" by (cases "DeepHash (Canonical spec)") auto
  with h have "is_alnum c" "replace_runs s = s" by (simp_all add: replace_runs_alnum)
  moreover have "is_alnum CHR ''v'' \<and> is_alnum CHR ''k'' \<and> is_alnum CHR ''8'' \<and> is_alnum CHR ''s''
      \<and> is_alnum CHR ''i'' \<and> is_alnum CHR ''n'' \<and> is_alnum CHR ''g'' \<and> \<not> is_alnum CHR ''_''"
    by code_simp
  ultimately show ?thesis by (simp add: configName_def cs)
qed

lemma configName_length: "length (configName spec) \<le> 47"
  using DeepHash_length [of "Canonical spec"] by (simp add: configName_eq)

lemma configName_not_label:
  "configName spec \<noteq> regularLabel" "configName spec \<noteq> readinessLabel"
  "configName spec \<noteq> readyCfg" "configName spec \<noteq> notAvailCfg"
  by (simp_all add: configName_eq)

section \<open>One instance\<close>

text \<open>The secret behind a pointer.\<close>

abbreviation deref :: "bytes list \<Rightarrow> nat \<Rightarrow> bytes" where
  "deref heap p \<equiv> heap ! p"

text \<open>
  The commands of \<open>updateVarnishInstance\<close> on an open connection: load, label as regular, label as
  ready, each only if the VCL list does not show it done.
\<close>

definition load_cfg ::
    "'w admin \<Rightarrow> nat \<Rightarrow> string \<Rightarrow> string \<Rightarrow> VCLData list \<Rightarrow> 'w \<Rightarrow> adm_error option \<times> 'w" where
  "load_cfg ADM c cfgName vclSrc vcls w =
     (if has_vcl cfgName vcls then (None, w) else adm_VCLInline ADM c cfgName vclSrc w)"

definition label_cfg ::
    "'w admin \<Rightarrow> nat \<Rightarrow> string \<Rightarrow> string \<Rightarrow> VCLData list \<Rightarrow> 'w \<Rightarrow> adm_error option \<times> 'w" where
  "label_cfg ADM c lbl cfg vcls w =
     (if has_label lbl cfg vcls then (None, w) else adm_VCLLabel ADM c lbl cfg w)"

definition update_cmds ::
    "'w admin \<Rightarrow> nat \<Rightarrow> string \<Rightarrow> string \<Rightarrow> 'w \<Rightarrow> adm_error option \<times> 'w" where
  "update_cmds ADM c cfgName vclSrc w =
     (case adm_VCLList ADM c w of
        (Inl e, w1) \<Rightarrow> (Some e, w1)
      | (Inr vcls, w1) \<Rightarrow>
          (case load_cfg ADM c cfgName vclSrc vcls w1 of
             (Some e, w2) \<Rightarrow> (Some e, w2)
           | (None, w2) \<Rightarrow>
               (case label_cfg ADM c regularLabel cfgName vcls w2 of
                  (Some e, w3) \<Rightarrow> (Some e, w3)
                | (None, w3) \<Rightarrow> label_cfg ADM c readinessLabel readyCfg vcls w3)))"

definition updateVarnishInstance ::
    "'w admin \<Rightarrow> bytes list \<Rightarrow> VarnishInst \<Rightarrow> string \<Rightarrow> string \<Rightarrow> 'w
      \<Rightarrow> vc_error option \<times> VarnishInst \<times> 'w" where
  "updateVarnishInstance ADM heap inst cfgName vclSrc w =
     (case vi_admSecret inst of
        None \<Rightarrow> (Some NoSecret, inst, w)
      | Some p \<Rightarrow>
          (case adm_Dial ADM (vi_addr inst) (deref heap p) w of
             (Inl e, w1) \<Rightarrow> (Some (Adm e), inst, w1)
           | (Inr (c, banner), w1) \<Rightarrow>
               (case update_cmds ADM c cfgName vclSrc w1 of
                  (e, w2) \<Rightarrow> (map_option Adm e, inst\<lparr>vi_Banner := banner\<rparr>, adm_Close ADM c w2))))"

text \<open>
  As in the source, an error of the label command other than \<open>EOF\<close> is dropped, and \<open>mayClose\<close>
  makes the loss of the connection no error.
\<close>

definition setCfgLabel ::
    "'w admin \<Rightarrow> bytes list \<Rightarrow> VarnishInst \<Rightarrow> string \<Rightarrow> string \<Rightarrow> bool \<Rightarrow> 'w
      \<Rightarrow> vc_error option \<times> VarnishInst \<times> 'w" where
  "setCfgLabel ADM heap inst cfg lbl mayClose w =
     (case vi_admSecret inst of
        None \<Rightarrow> (Some (AdmErr (vi_addr inst) NoSecret), inst, w)
      | Some p \<Rightarrow>
          (case adm_Dial ADM (vi_addr inst) (deref heap p) w of
             (Inl e, w1) \<Rightarrow>
               (if mayClose then None else Some (AdmErr (vi_addr inst) (Adm e)), inst, w1)
           | (Inr (c, banner), w1) \<Rightarrow>
               (case adm_VCLLabel ADM c lbl cfg w1 of
                  (e, w2) \<Rightarrow>
                    (if e = Some EOF \<and> \<not> mayClose
                     then Some (AdmErr (vi_addr inst) (Adm EOF)) else None,
                     inst\<lparr>vi_Banner := banner\<rparr>, adm_Close ADM c w2))))"

section \<open>Loops over instances\<close>

text \<open>
  A loop over instances collects an \<open>AdmError\<close> for each one that fails and goes on with the next;
  it threads the world and keeps the updated instances.
\<close>

fun inst_loop ::
    "(VarnishInst \<Rightarrow> 'w \<Rightarrow> vc_error option \<times> VarnishInst \<times> 'w) \<Rightarrow> VarnishInst list \<Rightarrow> 'w
      \<Rightarrow> (string \<times> vc_error) list \<times> VarnishInst list \<times> 'w" where
  "inst_loop f [] w = ([], [], w)"
| "inst_loop f (i # is) w =
     (case f i w of (e, i', w1) \<Rightarrow>
        (case inst_loop f is w1 of (errs, is', w2) \<Rightarrow>
           ((case e of None \<Rightarrow> errs | Some x \<Rightarrow> (vi_addr i, x) # errs), i' # is', w2)))"

definition put_svc :: "string \<Rightarrow> VarnishSvc \<Rightarrow> 'w Controller \<Rightarrow> 'w Controller" where
  "put_svc name svc vc = vc\<lparr>vc_svcs := gm_put name svc (vc_svcs vc)\<rparr>"

definition set_spec :: "(Spec \<Rightarrow> Spec) \<Rightarrow> VclSpecMeta \<Rightarrow> VclSpecMeta" where
  "set_spec f sp = sp\<lparr>vm_spec := f (vm_spec sp)\<rparr>"

section \<open>updateVarnishSvc\<close>

text \<open>
  The source is generated before \<open>configName\<close> sorts the slices of the stored specification.
\<close>

definition updateVarnishSvc ::
    "'w admin \<Rightarrow> string \<Rightarrow> 'w Controller \<Rightarrow> vc_error option \<times> 'w Controller" where
  "updateVarnishSvc ADM name vc =
     (case gm_get (vc_svcs vc) name of
        None \<Rightarrow> (Some (UnknownService name), vc)
      | Some svc0 \<Rightarrow>
          let svc = svc0\<lparr>vs_cfgLoaded := False\<rparr>; vc1 = put_svc name svc vc in
          if vs_secrName svc = [] then (Some (NoSecretForService name), vc1)
          else
            (case vs_spec svc of
               None \<Rightarrow> (None, vc1)
             | Some sp \<Rightarrow>
                 (case GetSrc (vm_spec sp) of
                    Ok vclSrc \<Rightarrow>
                      let cfgName = configName (vm_spec sp) in
                      (case inst_loop (\<lambda>i. updateVarnishInstance ADM (vc_heap vc) i cfgName vclSrc)
                              (vs_instances svc) (vc_world vc) of
                         (errs, insts, w) \<Rightarrow>
                           (errs_result errs,
                            put_svc name
                              (svc\<lparr>vs_instances := insts,
                                 vs_spec := Some (set_spec Canonical_effect sp),
                                 vs_cfgLoaded := (errs = [])\<rparr>)
                              (vc1\<lparr>vc_world := w\<rparr>)))
                  | Err e \<Rightarrow> (Some (TmplErr e), vc1)
                  | Panic \<Rightarrow> (None, vc1))))"

section \<open>Addresses of a service\<close>

definition adm_addr :: "Address \<Rightarrow> string" where
  "adm_addr a = addr_IP a @ '':'' @ itoa32 (addr_Port a)"

text \<open>
  Instances leave a service by being labelled not available; each success decrements the gauge.
\<close>

definition not_available :: "'w admin \<Rightarrow> bytes list \<Rightarrow> bool \<Rightarrow> VarnishInst \<Rightarrow> 'w
      \<Rightarrow> vc_error option \<times> VarnishInst \<times> 'w" where
  "not_available ADM heap mayClose inst w =
     setCfgLabel ADM heap inst notAvailCfg readinessLabel mayClose w"

definition removeVarnishInstances ::
    "'w admin \<Rightarrow> VarnishInst list \<Rightarrow> 'w Controller
      \<Rightarrow> (string \<times> vc_error) list \<times> VarnishInst list \<times> 'w Controller" where
  "removeVarnishInstances ADM insts vc =
     (case inst_loop (not_available ADM (vc_heap vc) True) insts (vc_world vc) of
        (errs, insts', w) \<Rightarrow>
          (errs, insts', vc\<lparr>vc_world := w,
             vc_instsGauge := vc_instsGauge vc - int (length insts - length errs)\<rparr>))"

text \<open>
  \<open>updateAddrs\<close> and \<open>prevAddrs\<close> are maps: \<open>ord 0\<close> and \<open>ord 1\<close> are the orders in which their keys
  are visited.
\<close>

type_synonym map_order = "nat \<Rightarrow> string list \<Rightarrow> string list"

definition prev_addrs :: "VarnishInst list \<Rightarrow> VarnishInst gomap" where
  "prev_addrs insts = gm_of_list (map (\<lambda>i. (vi_addr i, i)) insts)"

definition update_addrs :: "Address list \<Rightarrow> unit gomap" where
  "update_addrs addrs = gm_of_list (map (\<lambda>a. (adm_addr a, ())) addrs)"

definition new_inst :: "nat option \<Rightarrow> string \<Rightarrow> VarnishInst" where
  "new_inst secrPtr addr = \<lparr>vi_addr = addr, vi_admSecret = secrPtr, vi_Banner = []\<rparr>"

definition keep_insts :: "map_order \<Rightarrow> VarnishInst list \<Rightarrow> Address list \<Rightarrow> VarnishInst list" where
  "keep_insts ord insts addrs =
     concat (map (\<lambda>a. case gm_get (prev_addrs insts) a of None \<Rightarrow> [] | Some i \<Rightarrow> [i])
       (ord 0 (gm_keys (update_addrs addrs))))"

definition new_insts ::
    "map_order \<Rightarrow> nat option \<Rightarrow> VarnishInst list \<Rightarrow> Address list \<Rightarrow> VarnishInst list" where
  "new_insts ord secrPtr insts addrs =
     map (new_inst secrPtr)
       (filter (\<lambda>a. gm_get (prev_addrs insts) a = None)
         (ord 0 (gm_keys (update_addrs addrs))))"

definition rem_insts :: "map_order \<Rightarrow> VarnishInst list \<Rightarrow> Address list \<Rightarrow> VarnishInst list" where
  "rem_insts ord insts addrs =
     concat (map (\<lambda>a. if gm_get (update_addrs addrs) a = None
                      then (case gm_get (prev_addrs insts) a of None \<Rightarrow> [] | Some i \<Rightarrow> [i])
                      else [])
       (ord 1 (gm_keys (prev_addrs insts))))"

definition updateVarnishSvcAddrs ::
    "'w admin \<Rightarrow> map_order \<Rightarrow> string \<Rightarrow> Address list \<Rightarrow> nat option \<Rightarrow> bool \<Rightarrow> 'w Controller
      \<Rightarrow> vc_error option \<times> 'w Controller" where
  "updateVarnishSvcAddrs ADM ord key addrs secrPtr loadVCL vc =
     (case gm_get (vc_svcs vc) key of
        None \<Rightarrow> (Some (UnknownService key), vc)
      | Some svc \<Rightarrow>
          let keep = keep_insts ord (vs_instances svc) addrs;
              new = new_insts ord secrPtr (vs_instances svc) addrs;
              rem = rem_insts ord (vs_instances svc) addrs;
              vc1 = (put_svc key (svc\<lparr>vs_instances := keep @ new\<rparr>) vc)
                      \<lparr>vc_instsGauge := vc_instsGauge vc + int (length new)\<rparr>
          in case removeVarnishInstances ADM rem vc1 of
               (errs, _, vc2) \<Rightarrow>
                 if loadVCL then
                   (case updateVarnishSvc ADM key vc2 of
                      (None, vc3) \<Rightarrow> (errs_result errs, vc3)
                    | (Some (AdmErrs es), vc3) \<Rightarrow> (errs_result (errs @ es), vc3)
                    | (Some e, vc3) \<Rightarrow> (Some e, vc3))
                 else (errs_result errs, vc2))"

text \<open>The pointer of a secret, nil when the secret is not known.\<close>

definition set_secret :: "nat option \<Rightarrow> VarnishInst \<Rightarrow> VarnishInst" where
  "set_secret p i = i\<lparr>vi_admSecret := p\<rparr>"

text \<open>The service a first call creates.\<close>

definition add_svc :: "string \<Rightarrow> Address list \<Rightarrow> 'w Controller \<Rightarrow> 'w Controller" where
  "add_svc key addrs vc =
     (case gm_get (vc_svcs vc) key of
        Some _ \<Rightarrow> vc
      | None \<Rightarrow>
          (put_svc key
             (new_VarnishSvc\<lparr>vs_instances := map (\<lambda>a. new_inst None (adm_addr a)) addrs\<rparr>) vc)
            \<lparr>vc_instsGauge := vc_instsGauge vc + int (length addrs),
             vc_svcsGauge := vc_svcsGauge vc + 1\<rparr>)"

definition AddOrUpdateVarnishSvc ::
    "'w admin \<Rightarrow> map_order \<Rightarrow> string \<Rightarrow> Address list \<Rightarrow> string \<Rightarrow> bool \<Rightarrow> 'w Controller
      \<Rightarrow> vc_error option \<times> 'w Controller" where
  "AddOrUpdateVarnishSvc ADM ord key addrs secrName loadVCL vc =
     (let vc1 = add_svc key addrs vc;
          secrPtr = gm_get (vc_secrets vc1) secrName
      in case gm_get (vc_svcs vc1) key of
           None \<Rightarrow> (None, vc1)
         | Some svc \<Rightarrow>
             updateVarnishSvcAddrs ADM ord key addrs secrPtr loadVCL
               (put_svc key
                  (svc\<lparr>vs_secrName := secrName,
                     vs_instances := map (set_secret secrPtr) (vs_instances svc)\<rparr>) vc1))"

text \<open>As in the source, the service is removed when the instances could \<^emph>\<open>not\<close> be labelled.\<close>

definition DeleteVarnishSvc ::
    "'w admin \<Rightarrow> string \<Rightarrow> 'w Controller \<Rightarrow> vc_error option \<times> 'w Controller" where
  "DeleteVarnishSvc ADM key vc =
     (case gm_get (vc_svcs vc) key of
        None \<Rightarrow> (None, vc)
      | Some svc \<Rightarrow>
          (case removeVarnishInstances ADM (vs_instances svc) vc of
             (errs, insts, vc1) \<Rightarrow>
               let vc2 = put_svc key (svc\<lparr>vs_instances := insts\<rparr>) vc1 in
               (errs_result errs,
                if errs \<noteq> []
                then vc2\<lparr>vc_svcs := gm_del key (vc_svcs vc2), vc_svcsGauge := vc_svcsGauge vc2 - 1\<rparr>
                else vc2)))"

section \<open>Configurations\<close>

definition spec_services :: "VarnishSvc \<Rightarrow> Service gomap" where
  "spec_services svc = (case vs_spec svc of None \<Rightarrow> [] | Some sp \<Rightarrow> sp_AllServices (vm_spec sp))"

definition updateBeGauges :: "'w Controller \<Rightarrow> 'w Controller" where
  "updateBeGauges vc =
     vc\<lparr>vc_beSvcsGauge :=
          int (sum_list (map (\<lambda>(k, svc). length (spec_services svc)) (vc_svcs vc))),
        vc_beEndpsGauge :=
          int (sum_list (map (\<lambda>(k, svc).
            sum_list (map (\<lambda>(k, be). length (svc_Addresses be)) (spec_services svc)))
              (vc_svcs vc)))\<rparr>"

definition ensure_svc :: "string \<Rightarrow> 'w Controller \<Rightarrow> 'w Controller" where
  "ensure_svc key vc =
     (case gm_get (vc_svcs vc) key of
        Some _ \<Rightarrow> vc
      | None \<Rightarrow> (put_svc key new_VarnishSvc vc)\<lparr>vc_svcsGauge := vc_svcsGauge vc + 1\<rparr>)"

definition Update ::
    "'w admin \<Rightarrow> string \<Rightarrow> Spec \<Rightarrow> Meta gomap \<Rightarrow> Meta \<Rightarrow> Meta gomap \<Rightarrow> 'w Controller
      \<Rightarrow> vc_error option \<times> 'w Controller" where
  "Update ADM svcKey spec ingsMeta vcfgMeta bcfgMeta vc =
     (let vc1 = ensure_svc svcKey vc in
      case gm_get (vc_svcs vc1) svcKey of
        None \<Rightarrow> (None, vc1)
      | Some svc \<Rightarrow>
          let sp = \<lparr>vm_spec = spec, vm_ings = ingsMeta, vm_vcfg = vcfgMeta, vm_bcfg = bcfgMeta\<rparr>;
              vc2 = updateBeGauges
                      (put_svc svcKey (svc\<lparr>vs_cfgLoaded := False, vs_spec := Some sp\<rparr>) vc1)
          in if vs_instances svc = [] then (Some (NoInstances svcKey), vc2)
             else updateVarnishSvc ADM svcKey vc2)"

text \<open>As in the source, \<open>cfgLoaded\<close> keeps its value.\<close>

definition SetNotReady ::
    "'w admin \<Rightarrow> string \<Rightarrow> 'w Controller \<Rightarrow> vc_error option \<times> 'w Controller" where
  "SetNotReady ADM svcKey vc =
     (case gm_get (vc_svcs vc) svcKey of
        None \<Rightarrow> (Some (UnknownNotReady svcKey), vc)
      | Some svc \<Rightarrow>
          (case inst_loop (not_available ADM (vc_heap vc) False) (vs_instances svc) (vc_world vc) of
             (errs, insts, w) \<Rightarrow>
               (errs_result errs,
                (put_svc svcKey (svc\<lparr>vs_spec := None, vs_instances := insts\<rparr>) vc)
                  \<lparr>vc_world := w\<rparr>)))"

text \<open>
  The comparison of metadata maps: equal lengths, and each entry of the new map is in the old one.
\<close>

definition metas_match :: "Meta gomap \<Rightarrow> Meta gomap \<Rightarrow> bool" where
  "metas_match new old \<longleftrightarrow>
     (\<forall>(k, v) \<in> set new. gm_get old k = Some v)"

text \<open>
  \<open>HasConfig\<close> dereferences \<open>svc.spec\<close> without a test for nil.  Its last comparison sorts the slices
  of both specifications: what the argument \<open>spec\<close> looks like afterwards is returned, too.
\<close>

definition HasConfig ::
    "string \<Rightarrow> Spec \<Rightarrow> Meta gomap \<Rightarrow> Meta \<Rightarrow> Meta gomap \<Rightarrow> 'w Controller
      \<Rightarrow> (unit, bool \<times> Spec \<times> 'w Controller) outcome" where
  "HasConfig svcKey spec ingsMeta vcfgMeta bcfgMeta vc =
     (case gm_get (vc_svcs vc) svcKey of
        None \<Rightarrow> Ok (False, spec, vc)
      | Some svc \<Rightarrow>
          if \<not> vs_cfgLoaded svc then Ok (False, spec, vc)
          else
            (case vs_spec svc of
               None \<Rightarrow> Panic
             | Some sp \<Rightarrow>
                 if length ingsMeta \<noteq> length (vm_ings sp) then Ok (False, spec, vc)
                 else if length bcfgMeta \<noteq> length (vm_bcfg sp) then Ok (False, spec, vc)
                 else if vcfgMeta \<noteq> vm_vcfg sp then Ok (False, spec, vc)
                 else if \<not> metas_match ingsMeta (vm_ings sp) then Ok (False, spec, vc)
                 else if \<not> metas_match bcfgMeta (vm_bcfg sp) then Ok (False, spec, vc)
                 else Ok (Canonical (vm_spec sp) = Canonical spec, Canonical_effect spec,
                          put_svc svcKey
                            (svc\<lparr>vs_spec := Some (set_spec Canonical_effect sp)\<rparr>) vc)))"

section \<open>Secrets\<close>

text \<open>Go's \<open>copy(dst, src)\<close>.\<close>

definition copy_into :: "bytes \<Rightarrow> bytes \<Rightarrow> bytes" where
  "copy_into dst src = take (length dst) src @ drop (length src) dst"

definition SetAdmSecret :: "string \<Rightarrow> bytes \<Rightarrow> 'w Controller \<Rightarrow> 'w Controller" where
  "SetAdmSecret key secret vc =
     (case gm_get (vc_secrets vc) key of
        Some p \<Rightarrow> vc\<lparr>vc_heap := (vc_heap vc)[p := copy_into (deref (vc_heap vc) p) secret]\<rparr>
      | None \<Rightarrow>
          vc\<lparr>vc_heap := vc_heap vc @ [copy_into (replicate (length secret) (CHR 0x00)) secret],
             vc_secrets := gm_put key (length (vc_heap vc)) (vc_secrets vc),
             vc_secretsGauge := vc_secretsGauge vc + 1\<rparr>)"

definition UpdateSvcForSecret ::
    "'w admin \<Rightarrow> string \<Rightarrow> string \<Rightarrow> 'w Controller \<Rightarrow> vc_error option \<times> 'w Controller" where
  "UpdateSvcForSecret ADM svcKey secretKey vc =
     (let secret = gm_get (vc_secrets vc) secretKey;
          name = (if secret = None then [] else secretKey)
      in if gm_get (vc_svcs vc) svcKey = None \<and> secret = None then (None, vc)
         else
           (let vc1 = ensure_svc svcKey vc in
            case gm_get (vc_svcs vc1) svcKey of
              None \<Rightarrow> (None, vc1)
            | Some svc \<Rightarrow>
                updateVarnishSvc ADM svcKey
                  (put_svc svcKey
                     (svc\<lparr>vs_secrName := name,
                        vs_instances := map (set_secret secret) (vs_instances svc)\<rparr>) vc1)))"

text \<open>Instances keep the pointers they have.\<close>

definition DeleteAdmSecret :: "string \<Rightarrow> 'w Controller \<Rightarrow> 'w Controller" where
  "DeleteAdmSecret name vc =
     (if gm_get (vc_secrets vc) name = None then vc
      else vc\<lparr>vc_secrets := gm_del name (vc_secrets vc),
              vc_secretsGauge := vc_secretsGauge vc - 1\<rparr>)"

end
