(* ===== verification/VarnishInv.thy ===== *)
theory VarnishInv
  imports VarnishCtl
begin

text \<open>
  The invariant of the Varnish controller and its preservation by every operation of
  \<open>varnish.go\<close>.
\<close>

section \<open>Loops over instances\<close>

text \<open>What the body of a loop may do to an instance: it keeps the address and the secret.\<close>

definition keeps_inst :: "(VarnishInst \<Rightarrow> 'w \<Rightarrow> vc_error option \<times> VarnishInst \<times> 'w) \<Rightarrow> bool" where
  "keeps_inst f \<longleftrightarrow>
     (\<forall>i w. vi_addr (fst (snd (f i w))) = vi_addr i
        \<and> vi_admSecret (fst (snd (f i w))) = vi_admSecret i)"

named_theorems keeps "loop bodies that keep the identity of an instance"

lemma keeps_update [keeps]: "keeps_inst (\<lambda>i. updateVarnishInstance ADM heap i n src)"
  by (auto simp: keeps_inst_def updateVarnishInstance_def split: option.split prod.split sum.split)

lemma keeps_not_available [keeps]: "keeps_inst (not_available ADM heap b)"
  by (auto simp: keeps_inst_def not_available_def setCfgLabel_def
        split: option.split prod.split sum.split)

lemma inst_loop_keeps:
  "inst_loop f is w = (errs, is', w') \<Longrightarrow> keeps_inst f \<Longrightarrow>
     map vi_addr is' = map vi_addr is \<and> map vi_admSecret is' = map vi_admSecret is"
proof (induction "is" arbitrary: w errs is' w')
  case (Cons i "is")
  obtain e i' w1 where f: "f i w = (e, i', w1)" by (cases "f i w") auto
  obtain er is1 w2 where l: "inst_loop f is w1 = (er, is1, w2)" by (cases "inst_loop f is w1") auto
  from Cons.prems(2) have "vi_addr i' = vi_addr i" "vi_admSecret i' = vi_admSecret i"
    unfolding keeps_inst_def by (metis f fst_conv snd_conv)+
  with Cons.prems(1) Cons.IH [OF l Cons.prems(2)] show ?case by (auto simp: f l)
qed simp

lemma inst_loop_errs:
  "inst_loop f is w = (errs, is', w') \<Longrightarrow>
     length errs \<le> length is \<and> (\<forall>e \<in> set errs. fst e \<in> vi_addr ` set is)"
proof (induction "is" arbitrary: w errs is' w')
  case (Cons i "is")
  obtain e i' w1 where f: "f i w = (e, i', w1)" by (cases "f i w") auto
  obtain er is1 w2 where l: "inst_loop f is w1 = (er, is1, w2)" by (cases "inst_loop f is w1") auto
  show ?case using Cons.prems Cons.IH [OF l] by (cases e) (auto simp: f l)
qed simp

section \<open>The invariant\<close>

definition secrets_valid :: "nat \<Rightarrow> VarnishSvc \<Rightarrow> bool" where
  "secrets_valid n svc \<longleftrightarrow>
     (\<forall>i \<in> set (vs_instances svc). \<forall>p. vi_admSecret i = Some p \<longrightarrow> p < n)"

definition vc_ok :: "'w Controller \<Rightarrow> bool" where
  "vc_ok vc \<longleftrightarrow>
     gm_ok (vc_svcs vc) \<and> gm_ok (vc_secrets vc)
     \<and> (\<forall>p \<in> snd ` set (vc_secrets vc). p < length (vc_heap vc))
     \<and> distinct (map snd (vc_secrets vc))
     \<and> (\<forall>svc \<in> snd ` set (vc_svcs vc). secrets_valid (length (vc_heap vc)) svc)
     \<and> vc_svcsGauge vc = int (length (vc_svcs vc))
     \<and> vc_secretsGauge vc = int (length (vc_secrets vc))"

lemma vc_ok_New [simp]: "vc_ok (NewVarnishController w)"
  by (simp add: vc_ok_def NewVarnishController_def)

text \<open>The fields an operation on a service leaves alone.\<close>

definition same_store :: "'w Controller \<Rightarrow> 'w Controller \<Rightarrow> bool" where
  "same_store vc vc' \<longleftrightarrow>
     vc_secrets vc' = vc_secrets vc \<and> vc_heap vc' = vc_heap vc
     \<and> vc_secretsGauge vc' = vc_secretsGauge vc"

lemma gm_values_put: "snd ` set (gm_put k v m) \<subseteq> insert v (snd ` set m)"
proof (induction m)
  case (Cons p m)
  then show ?case by (cases p) (simp, blast)
qed simp

lemma gm_get_value: "gm_get m k = Some v \<Longrightarrow> v \<in> snd ` set m"
  by (metis map_of_SomeD image_eqI snd_conv)

lemma put_svc_simps [simp]:
  "vc_svcs (put_svc k svc vc) = gm_put k svc (vc_svcs vc)"
  "vc_secrets (put_svc k svc vc) = vc_secrets vc" "vc_heap (put_svc k svc vc) = vc_heap vc"
  "vc_svcsGauge (put_svc k svc vc) = vc_svcsGauge vc"
  "vc_secretsGauge (put_svc k svc vc) = vc_secretsGauge vc"
  "vc_instsGauge (put_svc k svc vc) = vc_instsGauge vc"
  "vc_world (put_svc k svc vc) = vc_world vc"
  by (simp_all add: put_svc_def)

text \<open>Replacing a known service keeps the invariant.\<close>

lemma vc_ok_put:
  assumes "vc_ok vc" and "gm_get (vc_svcs vc) k = Some svc0"
    and "secrets_valid (length (vc_heap vc)) svc"
  shows "vc_ok (put_svc k svc vc)"
proof -
  have ok: "gm_ok (vc_svcs vc)" using assms(1) by (simp add: vc_ok_def)
  have "\<forall>s \<in> snd ` set (gm_put k svc (vc_svcs vc)). secrets_valid (length (vc_heap vc)) s"
    using assms(1,3) gm_values_put [of k svc "vc_svcs vc"] unfolding vc_ok_def by blast
  with assms(1,2) show ?thesis by (simp add: vc_ok_def gm_length_put [OF ok])
qed

lemma vc_ok_world [simp]:
  "vc_ok (vc\<lparr>vc_world := w\<rparr>) = vc_ok vc" "vc_ok (vc\<lparr>vc_instsGauge := g\<rparr>) = vc_ok vc"
  "vc_ok (updateBeGauges vc) = vc_ok vc"
  by (simp_all add: vc_ok_def updateBeGauges_def)

lemma vc_ok_valid:
  "vc_ok vc \<Longrightarrow> gm_get (vc_svcs vc) k = Some svc \<Longrightarrow> secrets_valid (length (vc_heap vc)) svc"
  using gm_get_value by (fastforce simp: vc_ok_def)

lemma vc_ok_secret:
  "vc_ok vc \<Longrightarrow> gm_get (vc_secrets vc) k = Some p \<Longrightarrow> p < length (vc_heap vc)"
  using gm_get_value by (fastforce simp: vc_ok_def)

lemma secrets_valid_cong:
  "map vi_admSecret (vs_instances svc') = map vi_admSecret (vs_instances svc) \<Longrightarrow>
     secrets_valid n svc \<Longrightarrow> secrets_valid n svc'"
proof -
  assume eq: "map vi_admSecret (vs_instances svc') = map vi_admSecret (vs_instances svc)"
    and v: "secrets_valid n svc"
  have "vi_admSecret ` set (vs_instances svc') = vi_admSecret ` set (vs_instances svc)"
    using arg_cong [OF eq, of set] by simp
  with v show "secrets_valid n svc'" unfolding secrets_valid_def by (metis imageE imageI)
qed

lemma secrets_valid_set:
  "(\<And>p. sp = Some p \<Longrightarrow> p < n) \<Longrightarrow> vs_instances svc = map (set_secret sp) is \<Longrightarrow> secrets_valid n svc"
  by (auto simp: secrets_valid_def set_secret_def)

section \<open>updateVarnishSvc\<close>

text \<open>What \<open>updateVarnishSvc\<close> does to the service it updates, and to nothing else.\<close>

definition updates_svc :: "string \<Rightarrow> 'w Controller \<Rightarrow> 'w Controller \<Rightarrow> bool" where
  "updates_svc k vc vc' \<longleftrightarrow>
     (\<exists>svc svc'. gm_get (vc_svcs vc) k = Some svc \<and> vc_svcs vc' = gm_put k svc' (vc_svcs vc)
        \<and> map vi_admSecret (vs_instances svc') = map vi_admSecret (vs_instances svc)
        \<and> map vi_addr (vs_instances svc') = map vi_addr (vs_instances svc)
        \<and> vs_secrName svc' = vs_secrName svc)
     \<and> same_store vc vc' \<and> vc_svcsGauge vc' = vc_svcsGauge vc
     \<and> vc_instsGauge vc' = vc_instsGauge vc"

lemma vc_ok_updates:
  assumes "vc_ok vc" and "updates_svc k vc vc'"
  shows "vc_ok vc'"
proof -
  from assms(2) obtain svc svc' where
    svc: "gm_get (vc_svcs vc) k = Some svc" and put: "vc_svcs vc' = gm_put k svc' (vc_svcs vc)"
    and sec: "map vi_admSecret (vs_instances svc') = map vi_admSecret (vs_instances svc)"
    and st: "same_store vc vc'" "vc_svcsGauge vc' = vc_svcsGauge vc"
    by (auto simp: updates_svc_def)
  have "secrets_valid (length (vc_heap vc)) svc'"
    by (rule secrets_valid_cong [OF sec vc_ok_valid [OF assms(1) svc]])
  from vc_ok_put [OF assms(1) svc this] put st show ?thesis
    by (simp add: vc_ok_def same_store_def)
qed

lemma updateVarnishSvc_cases:
  assumes "updateVarnishSvc ADM k vc = (e, vc')"
  obtains "gm_get (vc_svcs vc) k = None" "e = Some (UnknownService k)" "vc' = vc"
  | svc where "gm_get (vc_svcs vc) k = Some svc" "vs_secrName svc = []"
      "e = Some (NoSecretForService k)" "vc' = put_svc k (svc\<lparr>vs_cfgLoaded := False\<rparr>) vc"
  | svc where "gm_get (vc_svcs vc) k = Some svc" "vs_secrName svc \<noteq> []" "vs_spec svc = None"
      "e = None" "vc' = put_svc k (svc\<lparr>vs_cfgLoaded := False\<rparr>) vc"
  | svc sp t where "gm_get (vc_svcs vc) k = Some svc" "vs_secrName svc \<noteq> []" "vs_spec svc = Some sp"
      "GetSrc (vm_spec sp) = Err t" "e = Some (TmplErr t)"
      "vc' = put_svc k (svc\<lparr>vs_cfgLoaded := False\<rparr>) vc"
  | svc sp src errs insts w where "gm_get (vc_svcs vc) k = Some svc" "vs_secrName svc \<noteq> []"
      "vs_spec svc = Some sp" "GetSrc (vm_spec sp) = Ok src"
      "inst_loop (\<lambda>i. updateVarnishInstance ADM (vc_heap vc) i (configName (vm_spec sp)) src)
         (vs_instances svc) (vc_world vc) = (errs, insts, w)"
      "e = errs_result errs"
      "vc' = put_svc k (svc\<lparr>vs_instances := insts,
               vs_spec := Some (set_spec Canonical_effect sp), vs_cfgLoaded := (errs = [])\<rparr>)
               ((put_svc k (svc\<lparr>vs_cfgLoaded := False\<rparr>) vc)\<lparr>vc_world := w\<rparr>)"
proof (cases "gm_get (vc_svcs vc) k")
  case None
  show ?thesis by (rule that(1)) (use assms None in \<open>simp_all add: updateVarnishSvc_def\<close>)
next
  case svc: (Some svc)
  note def = assms [unfolded updateVarnishSvc_def svc option.case Let_def, simplified]
  consider "vs_secrName svc = []" | "vs_secrName svc \<noteq> []" "vs_spec svc = None"
    | sp t where "vs_secrName svc \<noteq> []" "vs_spec svc = Some sp" "GetSrc (vm_spec sp) = Err t"
    | sp src where "vs_secrName svc \<noteq> []" "vs_spec svc = Some sp" "GetSrc (vm_spec sp) = Ok src"
    using GetSrc_no_Panic by (metis option.exhaust outcome.exhaust)
  then show ?thesis
  proof cases
    case 1
    show ?thesis by (rule that(2) [OF svc 1]) (use def 1 in simp_all)
  next
    case 2
    show ?thesis by (rule that(3) [OF svc 2]) (use def 2 in simp_all)
  next
    case 3
    show ?thesis by (rule that(4) [OF svc 3]) (use def 3 in simp_all)
  next
    case 4
    obtain errs insts w where loop: "inst_loop
        (\<lambda>i. updateVarnishInstance ADM (vc_heap vc) i (configName (vm_spec sp)) src)
        (vs_instances svc) (vc_world vc) = (errs, insts, w)"
      by (rule prod_cases3)
    show ?thesis by (rule that(5) [OF svc 4 loop]) (use def 4 loop in simp_all)
  qed
qed

lemma gm_put_put [simp]: "gm_ok m \<Longrightarrow> gm_put k v (gm_put k u m) = gm_put k v m"
  by (rule gm.put_put)

lemma updateVarnishSvc_updates:
  assumes "updateVarnishSvc ADM k vc = (e, vc')" and "gm_ok (vc_svcs vc)"
  shows "vc' = vc \<and> gm_get (vc_svcs vc) k = None \<or> updates_svc k vc vc'"
  using assms(1)
proof (cases rule: updateVarnishSvc_cases)
  case (5 svc sp src errs insts w)
  from inst_loop_keeps [OF 5(5)] keeps_update
  have "map vi_addr insts = map vi_addr (vs_instances svc)"
    and "map vi_admSecret insts = map vi_admSecret (vs_instances svc)" by blast+
  with 5 assms(2) show ?thesis by (auto simp: updates_svc_def same_store_def)
qed (auto simp: updates_svc_def same_store_def)

lemma updateVarnishSvc_ok:
  "updateVarnishSvc ADM k vc = (e, vc') \<Longrightarrow> vc_ok vc \<Longrightarrow> vc_ok vc'"
  using updateVarnishSvc_updates [of ADM k vc e vc'] vc_ok_updates [of vc k vc']
  by (auto simp: vc_ok_def)

section \<open>The other operations\<close>

lemma removeVarnishInstances_simps:
  assumes "removeVarnishInstances ADM insts vc = (errs, insts', vc')"
  shows "vc_svcs vc' = vc_svcs vc" "same_store vc vc'" "vc_svcsGauge vc' = vc_svcsGauge vc"
    and "map vi_addr insts' = map vi_addr insts" "map vi_admSecret insts' = map vi_admSecret insts"
    and "vc_instsGauge vc' = vc_instsGauge vc - int (length insts) + int (length errs)"
proof -
  obtain w where l: "inst_loop (not_available ADM (vc_heap vc) True) insts (vc_world vc)
      = (errs, insts', w)"
    and vc': "vc' = vc\<lparr>vc_world := w,
        vc_instsGauge := vc_instsGauge vc - int (length insts - length errs)\<rparr>"
    using assms by (auto simp: removeVarnishInstances_def split: prod.split_asm)
  from vc' show "vc_svcs vc' = vc_svcs vc" "same_store vc vc'" "vc_svcsGauge vc' = vc_svcsGauge vc"
    by (simp_all add: same_store_def)
  from inst_loop_keeps [OF l keeps_not_available]
  show "map vi_addr insts' = map vi_addr insts" "map vi_admSecret insts' = map vi_admSecret insts"
    by blast+
  from inst_loop_errs [OF l] vc'
  show "vc_instsGauge vc' = vc_instsGauge vc - int (length insts) + int (length errs)"
    by (simp add: of_nat_diff)
qed

lemma vc_ok_same:
  "vc_ok vc \<Longrightarrow> vc_svcs vc' = vc_svcs vc \<Longrightarrow> same_store vc vc' \<Longrightarrow>
     vc_svcsGauge vc' = vc_svcsGauge vc \<Longrightarrow> vc_ok vc'"
  by (simp add: vc_ok_def same_store_def)

lemma prev_addrs_value: "gm_get (prev_addrs insts) a = Some i \<Longrightarrow> i \<in> set insts \<and> vi_addr i = a"
  by (auto simp: prev_addrs_def gm_get_of_list dest!: map_of_SomeD)

lemma keep_insts_subset: "set (keep_insts ord insts addrs) \<subseteq> set insts"
  using prev_addrs_value by (fastforce simp: keep_insts_def split: option.split_asm)

lemma rem_insts_subset: "set (rem_insts ord insts addrs) \<subseteq> set insts"
  using prev_addrs_value
  by (fastforce simp: rem_insts_def split: option.split_asm if_split_asm)

lemma updateVarnishSvcAddrs_ok:
  assumes "updateVarnishSvcAddrs ADM ord k addrs sp loadVCL vc = (e, vc')" and "vc_ok vc"
    and "\<And>p. sp = Some p \<Longrightarrow> p < length (vc_heap vc)"
  shows "vc_ok vc'"
proof (cases "gm_get (vc_svcs vc) k")
  case None
  with assms(1,2) show ?thesis by (simp add: updateVarnishSvcAddrs_def)
next
  case (Some svc)
  let ?new = "new_insts ord sp (vs_instances svc) addrs"
  let ?insts = "keep_insts ord (vs_instances svc) addrs @ ?new"
  let ?vc1 = "(put_svc k (svc\<lparr>vs_instances := ?insts\<rparr>) vc)
      \<lparr>vc_instsGauge := vc_instsGauge vc + int (length ?new)\<rparr>"
  obtain errs is' vc2 where r: "removeVarnishInstances ADM (rem_insts ord (vs_instances svc) addrs)
      ?vc1 = (errs, is', vc2)" by (rule prod_cases3)
  have "secrets_valid (length (vc_heap vc)) (svc\<lparr>vs_instances := ?insts\<rparr>)"
    using vc_ok_valid [OF assms(2) Some] assms(3) keep_insts_subset [of ord "vs_instances svc" addrs]
    by (auto simp: secrets_valid_def new_insts_def new_inst_def)
  from vc_ok_put [OF assms(2) Some this] have "vc_ok ?vc1" by simp
  then have 2: "vc_ok vc2" by (rule vc_ok_same) (use removeVarnishInstances_simps [OF r] in simp_all)
  show ?thesis
  proof (cases loadVCL)
    case False
    with assms(1) Some r 2 show ?thesis by (simp add: updateVarnishSvcAddrs_def Let_def)
  next
    case True
    obtain e' vc3 where u: "updateVarnishSvc ADM k vc2 = (e', vc3)" by fastforce
    with assms(1) Some r True have "vc' = vc3"
      by (simp add: updateVarnishSvcAddrs_def Let_def split: option.split_asm vc_error.split_asm)
    with updateVarnishSvc_ok [OF u 2] show ?thesis by simp
  qed
qed

lemma vc_ok_add:
  assumes "vc_ok vc" and "gm_get (vc_svcs vc) k = None"
    and "secrets_valid (length (vc_heap vc)) svc"
  shows "vc_ok ((put_svc k svc vc)\<lparr>vc_svcsGauge := vc_svcsGauge vc + 1\<rparr>)"
proof -
  have ok: "gm_ok (vc_svcs vc)" using assms(1) by (simp add: vc_ok_def)
  have "\<forall>s \<in> snd ` set (gm_put k svc (vc_svcs vc)). secrets_valid (length (vc_heap vc)) s"
    using assms(1,3) gm_values_put [of k svc "vc_svcs vc"] unfolding vc_ok_def by blast
  with assms(1,2) show ?thesis by (simp add: vc_ok_def gm_length_put [OF ok])
qed

lemma ensure_svc_ok: "vc_ok vc \<Longrightarrow> vc_ok (ensure_svc k vc)"
  by (auto simp: ensure_svc_def secrets_valid_def new_VarnishSvc_def intro!: vc_ok_add
        split: option.split)

lemma ensure_svc_get: "\<exists>svc. gm_get (vc_svcs (ensure_svc k vc)) k = Some svc"
  by (auto simp: ensure_svc_def split: option.split)

lemma ensure_svc_store [simp]:
  "vc_secrets (ensure_svc k vc) = vc_secrets vc" "vc_heap (ensure_svc k vc) = vc_heap vc"
  by (simp_all add: ensure_svc_def split: option.split)

lemma add_svc_ok: "vc_ok vc \<Longrightarrow> vc_ok (add_svc k addrs vc)"
proof -
  assume ok: "vc_ok vc"
  show "vc_ok (add_svc k addrs vc)"
  proof (cases "gm_get (vc_svcs vc) k")
    case None
    let ?s = "new_VarnishSvc\<lparr>vs_instances := map (\<lambda>a. new_inst None (adm_addr a)) addrs\<rparr>"
    have "secrets_valid (length (vc_heap vc)) ?s" by (auto simp: secrets_valid_def new_inst_def)
    from vc_ok_add [OF ok None this] None show ?thesis by (simp add: add_svc_def vc_ok_def)
  next
    case (Some svc)
    with ok show ?thesis by (simp add: add_svc_def)
  qed
qed

lemma add_svc_store [simp]:
  "vc_secrets (add_svc k addrs vc) = vc_secrets vc" "vc_heap (add_svc k addrs vc) = vc_heap vc"
  by (simp_all add: add_svc_def split: option.split)

lemma AddOrUpdateVarnishSvc_ok:
  assumes "AddOrUpdateVarnishSvc ADM ord k addrs secr loadVCL vc = (e, vc')" and "vc_ok vc"
  shows "vc_ok vc'"
proof -
  let ?vc1 = "add_svc k addrs vc"
  obtain svc where svc: "gm_get (vc_svcs ?vc1) k = Some svc"
    by (cases "gm_get (vc_svcs vc) k") (auto simp: add_svc_def)
  let ?p = "gm_get (vc_secrets vc) secr"
  let ?svc = "svc\<lparr>vs_secrName := secr, vs_instances := map (set_secret ?p) (vs_instances svc)\<rparr>"
  have ok1: "vc_ok ?vc1" by (rule add_svc_ok [OF assms(2)])
  have p: "\<And>p. ?p = Some p \<Longrightarrow> p < length (vc_heap ?vc1)"
    using vc_ok_secret [OF assms(2)] by simp
  then have "secrets_valid (length (vc_heap ?vc1)) ?svc"
    by (rule secrets_valid_set) auto
  from vc_ok_put [OF ok1 svc this] have "vc_ok (put_svc k ?svc ?vc1)" .
  moreover from assms(1) svc
  have "updateVarnishSvcAddrs ADM ord k addrs ?p loadVCL (put_svc k ?svc ?vc1) = (e, vc')"
    by (simp add: AddOrUpdateVarnishSvc_def Let_def)
  ultimately show ?thesis using p by (auto intro: updateVarnishSvcAddrs_ok)
qed

lemma DeleteVarnishSvc_ok:
  assumes "DeleteVarnishSvc ADM k vc = (e, vc')" and "vc_ok vc"
  shows "vc_ok vc'"
proof (cases "gm_get (vc_svcs vc) k")
  case None
  with assms show ?thesis by (simp add: DeleteVarnishSvc_def)
next
  case (Some svc)
  obtain errs insts vc1 where r: "removeVarnishInstances ADM (vs_instances svc) vc = (errs, insts, vc1)"
    by (rule prod_cases3)
  note simps = removeVarnishInstances_simps [OF r]
  let ?vc2 = "put_svc k (svc\<lparr>vs_instances := insts\<rparr>) vc1"
  have ok1: "vc_ok vc1" by (rule vc_ok_same [OF assms(2)]) (use simps in simp_all)
  have "secrets_valid (length (vc_heap vc1)) (svc\<lparr>vs_instances := insts\<rparr>)"
  proof (rule secrets_valid_cong)
    show "map vi_admSecret (vs_instances (svc\<lparr>vs_instances := insts\<rparr>))
        = map vi_admSecret (vs_instances svc)"
      using simps(5) by simp
    show "secrets_valid (length (vc_heap vc1)) svc"
      using vc_ok_valid [OF assms(2) Some] simps(2) by (simp add: same_store_def)
  qed
  from vc_ok_put [OF ok1 _ this] Some simps have ok2: "vc_ok ?vc2" by simp
  let ?m = "gm_put k (svc\<lparr>vs_instances := insts\<rparr>) (vc_svcs vc1)"
  have "gm_ok ?m" using ok2 by (simp add: vc_ok_def)
  then have len: "length (gm_del k ?m) = length ?m - 1" and "?m \<noteq> []"
    using gm_length_del [of ?m k] by (auto intro: notI) (metis gm_get_put map_of_eq_empty_iff option.distinct(1) fun_upd_same)
  then have "int (length (gm_del k ?m)) = int (length ?m) - 1"
    by (cases ?m) auto
  moreover have "set (gm_del k ?m) \<subseteq> set ?m" by (auto simp: gm_del_def)
  ultimately have "vc_ok (?vc2\<lparr>vc_svcs := gm_del k (vc_svcs ?vc2),
      vc_svcsGauge := vc_svcsGauge ?vc2 - 1\<rparr>)"
    using ok2 by (auto simp: vc_ok_def)
  with ok2 assms(1) Some r show ?thesis
    by (auto simp: DeleteVarnishSvc_def Let_def split: if_split_asm)
qed

lemma Update_ok:
  assumes "Update ADM k spec im vm bm vc = (e, vc')" and "vc_ok vc"
  shows "vc_ok vc'"
proof -
  let ?vc1 = "ensure_svc k vc"
  obtain svc where svc: "gm_get (vc_svcs ?vc1) k = Some svc" using ensure_svc_get by blast
  let ?svc = "svc\<lparr>vs_cfgLoaded := False,
      vs_spec := Some \<lparr>vm_spec = spec, vm_ings = im, vm_vcfg = vm, vm_bcfg = bm\<rparr>\<rparr>"
  have ok1: "vc_ok ?vc1" by (rule ensure_svc_ok [OF assms(2)])
  have "secrets_valid (length (vc_heap ?vc1)) ?svc"
    using vc_ok_valid [OF ok1 svc] by (simp add: secrets_valid_def)
  from vc_ok_put [OF ok1 svc this] have ok2: "vc_ok (updateBeGauges (put_svc k ?svc ?vc1))"
    by (simp only: vc_ok_world)
  show ?thesis
  proof (cases "vs_instances svc = []")
    case True
    with assms(1) svc ok2 show ?thesis by (simp add: Update_def Let_def del: vc_ok_world)
  next
    case False
    with assms(1) svc
    have "updateVarnishSvc ADM k (updateBeGauges (put_svc k ?svc ?vc1)) = (e, vc')"
      by (simp add: Update_def Let_def)
    with ok2 show ?thesis by (blast intro: updateVarnishSvc_ok)
  qed
qed

lemma SetNotReady_ok:
  assumes "SetNotReady ADM k vc = (e, vc')" and "vc_ok vc"
  shows "vc_ok vc'"
proof (cases "gm_get (vc_svcs vc) k")
  case None
  with assms show ?thesis by (simp add: SetNotReady_def)
next
  case (Some svc)
  obtain errs insts w where l: "inst_loop (not_available ADM (vc_heap vc) False) (vs_instances svc)
      (vc_world vc) = (errs, insts, w)" by (rule prod_cases3)
  let ?svc = "svc\<lparr>vs_spec := None, vs_instances := insts\<rparr>"
  have "secrets_valid (length (vc_heap vc)) ?svc"
    by (rule secrets_valid_cong [OF _ vc_ok_valid [OF assms(2) Some]])
      (use inst_loop_keeps [OF l keeps_not_available] in simp)
  from vc_ok_put [OF assms(2) Some this] assms(1) Some l show ?thesis
    by (auto simp: SetNotReady_def)
qed

lemma HasConfig_ok:
  assumes "HasConfig k spec im vm bm vc = Ok (b, s', vc')" and "vc_ok vc"
  shows "vc_ok vc'"
proof (cases "gm_get (vc_svcs vc) k")
  case None
  with assms show ?thesis by (simp add: HasConfig_def)
next
  case (Some svc)
  have "vc_ok (put_svc k (svc\<lparr>vs_spec := sp\<rparr>) vc)" for sp
    using vc_ok_put [OF assms(2) Some] vc_ok_valid [OF assms(2) Some]
    by (simp add: secrets_valid_def)
  with assms Some show ?thesis
    by (auto simp: HasConfig_def split: option.split_asm if_split_asm)
qed

lemma distinct_values_put:
  "gm_ok m \<Longrightarrow> gm_get m k = None \<Longrightarrow> v \<notin> snd ` set m \<Longrightarrow> distinct (map snd m) \<Longrightarrow>
     distinct (map snd (gm_put k v m))"
proof (induction m)
  case (Cons p m)
  have "v \<notin> snd ` set m" "snd p \<notin> snd ` set m" "snd p \<noteq> v" using Cons.prems by auto
  moreover have "snd ` set (gm_put k v m) \<subseteq> insert v (snd ` set m)" by (rule gm_values_put)
  ultimately show ?case using Cons by (cases p) (auto simp: gm_ok_Cons split: if_split_asm)
qed simp

lemma SetAdmSecret_ok:
  assumes "vc_ok vc"
  shows "vc_ok (SetAdmSecret k secret vc)"
proof (cases "gm_get (vc_secrets vc) k")
  case None
  have ok: "gm_ok (vc_secrets vc)" using assms by (simp add: vc_ok_def)
  have "length (vc_heap vc) \<notin> snd ` set (vc_secrets vc)" using assms by (auto simp: vc_ok_def)
  then have "distinct (map snd (gm_put k (length (vc_heap vc)) (vc_secrets vc)))"
    using assms by (intro distinct_values_put [OF ok None]) (simp_all add: vc_ok_def)
  moreover have "\<forall>p \<in> snd ` set (gm_put k (length (vc_heap vc)) (vc_secrets vc)).
      p < Suc (length (vc_heap vc))"
    using assms gm_values_put [of k "length (vc_heap vc)" "vc_secrets vc"]
    unfolding vc_ok_def by fastforce
  moreover have "\<forall>svc \<in> snd ` set (vc_svcs vc). secrets_valid (Suc (length (vc_heap vc))) svc"
    using assms unfolding vc_ok_def secrets_valid_def by (meson less_Suc_eq)
  ultimately show ?thesis
    using assms None gm_length_put [OF ok] by (simp add: SetAdmSecret_def vc_ok_def)
next
  case (Some p)
  with assms show ?thesis by (simp add: SetAdmSecret_def vc_ok_def)
qed

lemma UpdateSvcForSecret_ok:
  assumes "UpdateSvcForSecret ADM k sk vc = (e, vc')" and "vc_ok vc"
  shows "vc_ok vc'"
proof (cases "gm_get (vc_svcs vc) k = None \<and> gm_get (vc_secrets vc) sk = None")
  case True
  with assms show ?thesis by (simp add: UpdateSvcForSecret_def)
next
  case False
  let ?vc1 = "ensure_svc k vc"
  obtain svc where svc: "gm_get (vc_svcs ?vc1) k = Some svc" using ensure_svc_get by blast
  let ?s = "gm_get (vc_secrets vc) sk"
  let ?svc = "svc\<lparr>vs_secrName := (if ?s = None then [] else sk),
      vs_instances := map (set_secret ?s) (vs_instances svc)\<rparr>"
  have ok1: "vc_ok ?vc1" by (rule ensure_svc_ok [OF assms(2)])
  have p: "\<And>p. ?s = Some p \<Longrightarrow> p < length (vc_heap ?vc1)" using vc_ok_secret [OF assms(2)] by simp
  then have "secrets_valid (length (vc_heap ?vc1)) ?svc" by (rule secrets_valid_set) auto
  from vc_ok_put [OF ok1 svc this] have "vc_ok (put_svc k ?svc ?vc1)" .
  moreover from assms(1) svc False have "updateVarnishSvc ADM k (put_svc k ?svc ?vc1) = (e, vc')"
    by (auto simp: UpdateSvcForSecret_def Let_def)
  ultimately show ?thesis by (auto intro: updateVarnishSvc_ok)
qed

lemma DeleteAdmSecret_ok:
  assumes "vc_ok vc"
  shows "vc_ok (DeleteAdmSecret k vc)"
proof (cases "gm_get (vc_secrets vc) k")
  case None
  then show ?thesis using assms by (simp add: DeleteAdmSecret_def)
next
  case (Some p)
  have ok: "gm_ok (vc_secrets vc)" using assms by (simp add: vc_ok_def)
  from Some have "vc_secrets vc \<noteq> []" by auto
  then have "int (length (gm_del k (vc_secrets vc))) = int (length (vc_secrets vc)) - 1"
    using gm_length_del [OF ok, of k] Some by (cases "vc_secrets vc") auto
  moreover have "distinct (map snd (gm_del k (vc_secrets vc)))"
    using assms by (simp add: vc_ok_def gm_del_def distinct_map_filter)
  moreover have "set (gm_del k (vc_secrets vc)) \<subseteq> set (vc_secrets vc)" by (auto simp: gm_del_def)
  ultimately show ?thesis
    using assms Some by (auto simp: DeleteAdmSecret_def vc_ok_def)
qed

end
