(* ===== verification/Monitor.thy ===== *)
theory Monitor
  imports VarnishInv GoLib
begin

text \<open>
  The monitor of \<open>pkg/varnish/monitor.go\<close>: the check of one instance, one round over the services,
  and the events it generates for the Services (severity, Service key, reason).
\<close>

datatype severity = EvtInfo | EvtWarn | EvtError

type_synonym event = "severity \<times> string \<times> string"

abbreviation "noAdmSecret \<equiv> ''NoAdminSecret''"
abbreviation "connectErr \<equiv> ''ConnectFailure''"
abbreviation "pingErr \<equiv> ''PingFailure''"
abbreviation "statusErr \<equiv> ''StatusFailure''"
abbreviation "statusNotRun \<equiv> ''StatusNotRunning''"
abbreviation "panicErr \<equiv> ''PanicFailure''"
abbreviation "panicReason \<equiv> ''Panic''"
abbreviation "vclListErr \<equiv> ''VCLListFailure''"
abbreviation "discardErr \<equiv> ''VCLDiscardFailure''"
abbreviation "updateErr \<equiv> ''UpdateFailure''"
abbreviation "monitorGood \<equiv> ''MonitorGood''"

section \<open>One instance\<close>

definition discardable :: "VCLData \<Rightarrow> bool" where
  "discardable v \<longleftrightarrow> HasPrefix (vd_Name v) ingressPrefix \<and> vd_State v = ColdState"

fun discard_loop ::
    "'w admin \<Rightarrow> nat \<Rightarrow> string \<Rightarrow> VCLData list \<Rightarrow> 'w \<Rightarrow> bool \<times> event list \<times> 'w" where
  "discard_loop ADM c svc [] w = (True, [], w)"
| "discard_loop ADM c svc (v # vs) w =
     (if discardable v then
        (case adm_VCLDiscard ADM c (vd_Name v) w of
           (Some e, w1) \<Rightarrow> (False, [(EvtError, svc, discardErr)], w1)
         | (None, w1) \<Rightarrow> discard_loop ADM c svc vs w1)
      else discard_loop ADM c svc vs w)"

text \<open>
  The commands on an open connection.  As in the source, the reason of the event for a panic is the
  text of the panic: the local variable \<open>panic\<close> hides the constant.
\<close>

definition check_cmds ::
    "'w admin \<Rightarrow> nat \<Rightarrow> string \<Rightarrow> 'w \<Rightarrow> bool \<times> event list \<times> 'w" where
  "check_cmds ADM c svc w =
     (case adm_Ping ADM c w of
        (Some e, w1) \<Rightarrow> (False, [(EvtError, svc, pingErr)], w1)
      | (None, w1) \<Rightarrow>
     (case adm_Status ADM c w1 of
        (Inl e, w2) \<Rightarrow> (False, [(EvtError, svc, statusErr)], w2)
      | (Inr state, w2) \<Rightarrow>
          let ev1 = (if state = Running then [] else [(EvtWarn, svc, statusNotRun)]) in
     (case adm_GetPanic ADM c w2 of
        (Inl e, w3) \<Rightarrow> (False, ev1 @ [(EvtError, svc, panicErr)], w3)
      | (Inr panic, w3) \<Rightarrow>
          let ev2 = (if panic = [] then [] else [(EvtError, svc, panic)]) in
     (case adm_VCLList ADM c w3 of
        (Inl e, w4) \<Rightarrow> (False, ev1 @ ev2 @ [(EvtError, svc, vclListErr)], w4)
      | (Inr vcls, w4) \<Rightarrow>
          (case discard_loop ADM c svc vcls w4 of
             (ok, ev3, w5) \<Rightarrow> (ok, ev1 @ ev2 @ ev3, w5))))))"

definition checkInst ::
    "'w admin \<Rightarrow> bytes list \<Rightarrow> string \<Rightarrow> VarnishInst \<Rightarrow> 'w
      \<Rightarrow> bool \<times> event list \<times> VarnishInst \<times> 'w" where
  "checkInst ADM heap svc inst w =
     (case vi_admSecret inst of
        None \<Rightarrow> (False, [(EvtWarn, svc, noAdmSecret)], inst, w)
      | Some p \<Rightarrow>
          (case adm_Dial ADM (vi_addr inst) (deref heap p) w of
             (Inl e, w1) \<Rightarrow> (False, [(EvtError, svc, connectErr)], inst, w1)
           | (Inr (c, banner), w1) \<Rightarrow>
               (case check_cmds ADM c svc w1 of
                  (ok, evs, w2) \<Rightarrow> (ok, evs, inst\<lparr>vi_Banner := banner\<rparr>, adm_Close ADM c w2))))"

section \<open>One round\<close>

fun check_loop ::
    "'w admin \<Rightarrow> bytes list \<Rightarrow> string \<Rightarrow> VarnishInst list \<Rightarrow> 'w
      \<Rightarrow> bool \<times> event list \<times> VarnishInst list \<times> 'w" where
  "check_loop ADM heap svc [] w = (True, [], [], w)"
| "check_loop ADM heap svc (i # is) w =
     (case checkInst ADM heap svc i w of (ok, ev, i', w1) \<Rightarrow>
        (case check_loop ADM heap svc is w1 of (ok', ev', is', w2) \<Rightarrow>
           (ok \<and> ok', ev @ ev', i' # is', w2)))"

definition monitor_svc ::
    "'w admin \<Rightarrow> string \<Rightarrow> 'w Controller \<Rightarrow> event list \<times> 'w Controller" where
  "monitor_svc ADM svcName vc =
     (case gm_get (vc_svcs vc) svcName of
        None \<Rightarrow> ([], vc)
      | Some svc \<Rightarrow>
          (case check_loop ADM (vc_heap vc) svcName (vs_instances svc) (vc_world vc) of
             (good, evs, insts, w) \<Rightarrow>
               (case updateVarnishSvc ADM svcName
                       ((put_svc svcName (svc\<lparr>vs_instances := insts\<rparr>) vc)\<lparr>vc_world := w\<rparr>) of
                  (Some e, vc2) \<Rightarrow> (evs @ [(EvtError, svcName, updateErr)], vc2)
                | (None, vc2) \<Rightarrow>
                    (evs @ (if good then [(EvtInfo, svcName, monitorGood)] else []), vc2))))"

text \<open>The services of a round, in the order in which the map is visited.\<close>

fun monitor_round ::
    "'w admin \<Rightarrow> string list \<Rightarrow> 'w Controller \<Rightarrow> event list \<times> 'w Controller" where
  "monitor_round ADM [] vc = ([], vc)"
| "monitor_round ADM (k # ks) vc =
     (case monitor_svc ADM k vc of (ev, vc1) \<Rightarrow>
        (case monitor_round ADM ks vc1 of (ev', vc2) \<Rightarrow> (ev @ ev', vc2)))"

section \<open>The invariant\<close>

lemma checkInst_keeps:
  "checkInst ADM heap svc i w = (ok, ev, i', w') \<Longrightarrow>
     vi_addr i' = vi_addr i \<and> vi_admSecret i' = vi_admSecret i"
  by (auto simp: checkInst_def split: option.split_asm sum.split_asm prod.split_asm)

lemma check_loop_keeps:
  "check_loop ADM heap svc is w = (ok, ev, is', w') \<Longrightarrow>
     map vi_addr is' = map vi_addr is \<and> map vi_admSecret is' = map vi_admSecret is"
proof (induction "is" arbitrary: w ok ev is' w')
  case (Cons i "is")
  obtain o1 e1 i1 w1 where c: "checkInst ADM heap svc i w = (o1, e1, i1, w1)" by (rule prod_cases4)
  obtain o2 e2 is2 w2 where l: "check_loop ADM heap svc is w1 = (o2, e2, is2, w2)"
    by (rule prod_cases4)
  from Cons.prems Cons.IH [OF l] checkInst_keeps [OF c] show ?case by (auto simp: c l)
qed simp

lemma monitor_svc_ok:
  assumes "monitor_svc ADM k vc = (evs, vc')" and "vc_ok vc"
  shows "vc_ok vc'"
proof (cases "gm_get (vc_svcs vc) k")
  case None
  with assms show ?thesis by (simp add: monitor_svc_def)
next
  case (Some svc)
  obtain good ev insts w where l: "check_loop ADM (vc_heap vc) k (vs_instances svc) (vc_world vc)
      = (good, ev, insts, w)" by (rule prod_cases4)
  let ?vc1 = "(put_svc k (svc\<lparr>vs_instances := insts\<rparr>) vc)\<lparr>vc_world := w\<rparr>"
  have "secrets_valid (length (vc_heap vc)) (svc\<lparr>vs_instances := insts\<rparr>)"
    by (rule secrets_valid_cong [OF _ vc_ok_valid [OF assms(2) Some]])
      (use check_loop_keeps [OF l] in simp)
  from vc_ok_put [OF assms(2) Some this] have ok1: "vc_ok ?vc1" by simp
  obtain e vc2 where u: "updateVarnishSvc ADM k ?vc1 = (e, vc2)" by fastforce
  from assms(1) Some l u have "vc' = vc2" by (auto simp: monitor_svc_def split: option.split_asm)
  with updateVarnishSvc_ok [OF u ok1] show ?thesis by simp
qed

lemma monitor_round_ok: "monitor_round ADM ks vc = (evs, vc') \<Longrightarrow> vc_ok vc \<Longrightarrow> vc_ok vc'"
proof (induction ks arbitrary: vc evs)
  case (Cons k ks)
  obtain ev vc1 where m: "monitor_svc ADM k vc = (ev, vc1)" by fastforce
  obtain ev' vc2 where r: "monitor_round ADM ks vc1 = (ev', vc2)" by fastforce
  from Cons.prems(1) m r have "vc' = vc2" by simp
  with r have "monitor_round ADM ks vc1 = (ev', vc')" by simp
  then show ?case by (rule Cons.IH [OF _ monitor_svc_ok [OF m Cons.prems(2)]])
qed simp

section \<open>Events\<close>

text \<open>A panic found at a reachable instance is reported, but with its own text as the reason, and it
  does not fail the check.\<close>

lemma check_cmds_panic:
  assumes "adm_Ping ADM c w = (None, w1)" and "adm_Status ADM c w1 = (Inr Running, w2)"
    and "adm_GetPanic ADM c w2 = (Inr p, w3)" and "p \<noteq> []"
    and "adm_VCLList ADM c w3 = (Inr vs, w4)"
  shows "check_cmds ADM c svc w =
    (case discard_loop ADM c svc vs w4 of (ok, ev, w5) \<Rightarrow> (ok, (EvtError, svc, p) # ev, w5))"
  using assms by (simp add: check_cmds_def split: prod.split)

text \<open>A label of the controller is never discarded.\<close>

lemma labels_not_discardable:
  "vd_Name v \<in> {regularLabel, readinessLabel, readyCfg, notAvailCfg} \<Longrightarrow> \<not> discardable v"
  by (auto simp: discardable_def HasPrefix_def)

end
