(* ===== verification/VarnishAddrs.thy ===== *)
theory VarnishAddrs
  imports Monitor
begin

text \<open>
  The addresses of a Varnish Service: after \<open>AddOrUpdateVarnishSvc\<close> they are the given ones, each
  once, whatever the order in which the maps are visited; every other operation keeps them.
\<close>

section \<open>The addresses of a service\<close>

text \<open>Go visits every key of a map once, in any order.\<close>

definition map_order_ok :: "map_order \<Rightarrow> bool" where
  "map_order_ok ord \<longleftrightarrow> (\<forall>n xs. mset (ord n xs) = mset xs)"

lemma map_order_set: "map_order_ok ord \<Longrightarrow> set (ord n xs) = set xs"
  unfolding map_order_ok_def by (metis set_mset_mset)

lemma map_order_distinct: "map_order_ok ord \<Longrightarrow> distinct (ord n xs) = distinct xs"
  unfolding map_order_ok_def by (metis mset_eq_imp_distinct_iff)

lemma prev_addrs_None: "gm_get (prev_addrs insts) a = None \<longleftrightarrow> a \<notin> vi_addr ` set insts"
  by (auto simp: prev_addrs_def gm_get_of_list map_of_eq_None_iff image_image)

lemma prev_addrs_addr:
  "gm_get (prev_addrs insts) a = Some i \<Longrightarrow> vi_addr i = a"
  using prev_addrs_value by blast

lemma concat_case_filter:
  "concat (map (\<lambda>a. case f a of None \<Rightarrow> [] | Some i \<Rightarrow> [i]) xs)
     = map (the \<circ> f) (filter (\<lambda>a. f a \<noteq> None) xs)"
  by (induction xs) (auto split: option.split)

text \<open>The instances kept and created have exactly the given addresses, each once.\<close>

lemma new_addresses:
  assumes "map_order_ok ord"
  shows "mset (map vi_addr (keep_insts ord insts addrs @ new_insts ord sp insts addrs))
    = mset (gm_keys (update_addrs addrs))"
proof -
  let ?ks = "ord 0 (gm_keys (update_addrs addrs))"
  let ?f = "gm_get (prev_addrs insts)"
  have "map vi_addr (keep_insts ord insts addrs) = filter (\<lambda>a. ?f a \<noteq> None) ?ks"
    using prev_addrs_addr [of insts]
    by (auto simp: keep_insts_def concat_case_filter intro!: map_idI)
  moreover have "map vi_addr (new_insts ord sp insts addrs) = filter (\<lambda>a. ?f a = None) ?ks"
    by (simp add: new_insts_def new_inst_def comp_def)
  ultimately have "mset (map vi_addr (keep_insts ord insts addrs @ new_insts ord sp insts addrs))
      = mset ?ks"
    using multiset_partition [of "mset ?ks" "\<lambda>a. ?f a = None"] by (simp add: add.commute)
  with assms show ?thesis by (simp add: map_order_ok_def)
qed

lemma update_addrs_keys: "set (gm_keys (update_addrs addrs)) = adm_addr ` set addrs"
  unfolding update_addrs_def gm_keys_of_list by (simp add: image_image)

lemma update_addrs_distinct: "distinct (gm_keys (update_addrs addrs))"
  by (simp add: update_addrs_def gm_ok_distinct)

lemma updateVarnishSvc_get:
  assumes "updateVarnishSvc ADM k vc = (e, vc')" and "vc_ok vc"
    and "gm_get (vc_svcs vc) k = Some svc"
  shows "\<exists>svc'. vc_svcs vc' = gm_put k svc' (vc_svcs vc)
     \<and> map vi_addr (vs_instances svc') = map vi_addr (vs_instances svc)"
  using updateVarnishSvc_updates [OF assms(1)] assms(2,3) by (auto simp: vc_ok_def updates_svc_def)

lemma updateVarnishSvcAddrs_addresses:
  assumes "updateVarnishSvcAddrs ADM ord k addrs sp loadVCL vc = (e, vc')" and "vc_ok vc"
    and "\<And>p. sp = Some p \<Longrightarrow> p < length (vc_heap vc)"
    and "gm_get (vc_svcs vc) k = Some svc" and "map_order_ok ord"
  shows "\<exists>svc'. vc_svcs vc' = gm_put k svc' (vc_svcs vc)
     \<and> mset (map vi_addr (vs_instances svc')) = mset (gm_keys (update_addrs addrs))"
proof -
  let ?new = "new_insts ord sp (vs_instances svc) addrs"
  let ?insts = "keep_insts ord (vs_instances svc) addrs @ ?new"
  let ?vc1 = "(put_svc k (svc\<lparr>vs_instances := ?insts\<rparr>) vc)
      \<lparr>vc_instsGauge := vc_instsGauge vc + int (length ?new)\<rparr>"
  obtain errs is' vc2 where r: "removeVarnishInstances ADM (rem_insts ord (vs_instances svc) addrs)
      ?vc1 = (errs, is', vc2)" by (rule prod_cases3)
  note rs = removeVarnishInstances_simps [OF r]
  have put2: "vc_svcs vc2 = gm_put k (svc\<lparr>vs_instances := ?insts\<rparr>) (vc_svcs vc)"
    using rs(1) by simp
  then have get2: "gm_get (vc_svcs vc2) k = Some (svc\<lparr>vs_instances := ?insts\<rparr>)" by simp
  have ok: "gm_ok (vc_svcs vc)" using assms(2) by (simp add: vc_ok_def)
  have "secrets_valid (length (vc_heap vc)) (svc\<lparr>vs_instances := ?insts\<rparr>)"
    using vc_ok_valid [OF assms(2,4)] assms(3) keep_insts_subset [of ord "vs_instances svc" addrs]
    by (auto simp: secrets_valid_def new_insts_def new_inst_def)
  from vc_ok_put [OF assms(2,4) this] have "vc_ok ?vc1" by simp
  then have ok2: "vc_ok vc2" by (rule vc_ok_same) (use rs in simp_all)
  note new = new_addresses [OF assms(5), of "vs_instances svc" addrs sp]
  show ?thesis
  proof (cases loadVCL)
    case False
    with assms(1,4) r have "vc' = vc2" by (simp add: updateVarnishSvcAddrs_def Let_def)
    with put2 new show ?thesis by auto
  next
    case True
    obtain e' vc3 where u: "updateVarnishSvc ADM k vc2 = (e', vc3)" by fastforce
    with assms(1,4) r True have "vc' = vc3"
      by (simp add: updateVarnishSvcAddrs_def Let_def split: option.split_asm vc_error.split_asm)
    moreover from updateVarnishSvc_get [OF u ok2 get2] obtain svc' where
      "vc_svcs vc3 = gm_put k svc' (vc_svcs vc)"
      and a: "map vi_addr (vs_instances svc') = map vi_addr ?insts"
      using put2 ok by auto
    moreover have "mset (map vi_addr (vs_instances svc')) = mset (gm_keys (update_addrs addrs))"
      unfolding a by (rule new)
    ultimately show ?thesis by blast
  qed
qed

lemma AddOrUpdateVarnishSvc_addresses:
  assumes "AddOrUpdateVarnishSvc ADM ord k addrs secr loadVCL vc = (e, vc')" and "vc_ok vc"
    and "map_order_ok ord"
  shows "\<exists>svc. vc_svcs vc' = gm_put k svc (vc_svcs vc)
     \<and> mset (map vi_addr (vs_instances svc)) = mset (gm_keys (update_addrs addrs))"
proof -
  let ?vc1 = "add_svc k addrs vc"
  obtain svc where svc: "gm_get (vc_svcs ?vc1) k = Some svc"
    by (cases "gm_get (vc_svcs vc) k") (auto simp: add_svc_def)
  let ?p = "gm_get (vc_secrets vc) secr"
  let ?svc = "svc\<lparr>vs_secrName := secr, vs_instances := map (set_secret ?p) (vs_instances svc)\<rparr>"
  have ok1: "vc_ok ?vc1" by (rule add_svc_ok [OF assms(2)])
  have p: "\<And>p. ?p = Some p \<Longrightarrow> p < length (vc_heap ?vc1)"
    using vc_ok_secret [OF assms(2)] by simp
  then have "secrets_valid (length (vc_heap ?vc1)) ?svc"
    by (rule secrets_valid_set) auto
  from vc_ok_put [OF ok1 svc this] have ok: "vc_ok (put_svc k ?svc ?vc1)" .
  from assms(1) svc
  have "updateVarnishSvcAddrs ADM ord k addrs ?p loadVCL (put_svc k ?svc ?vc1) = (e, vc')"
    by (simp add: AddOrUpdateVarnishSvc_def Let_def)
  from updateVarnishSvcAddrs_addresses [OF this ok _ _ assms(3)] p obtain svc' where
    "vc_svcs vc' = gm_put k svc' (gm_put k ?svc (vc_svcs ?vc1))"
    "mset (map vi_addr (vs_instances svc')) = mset (gm_keys (update_addrs addrs))" by auto
  moreover have "gm_put k s (gm_put k t (vc_svcs ?vc1)) = gm_put k s (vc_svcs vc)" for s t
    using assms(2) by (cases "gm_get (vc_svcs vc) k") (simp_all add: add_svc_def vc_ok_def)
  ultimately show ?thesis by auto
qed

section \<open>Distinct addresses\<close>

definition addrs_distinct :: "'w Controller \<Rightarrow> bool" where
  "addrs_distinct vc \<longleftrightarrow> (\<forall>svc \<in> snd ` set (vc_svcs vc). distinct (map vi_addr (vs_instances svc)))"

lemma addrs_distinct_get:
  "addrs_distinct vc \<Longrightarrow> gm_get (vc_svcs vc) k = Some svc \<Longrightarrow> distinct (map vi_addr (vs_instances svc))"
  using gm_get_value by (fastforce simp: addrs_distinct_def)

lemma addrs_distinct_put:
  assumes "addrs_distinct vc" and put: "vc_svcs vc' = gm_put k svc (vc_svcs vc)"
    and "distinct (map vi_addr (vs_instances svc))"
  shows "addrs_distinct vc'"
  unfolding addrs_distinct_def
proof
  fix s assume "s \<in> snd ` set (vc_svcs vc')"
  then have "s = svc \<or> s \<in> snd ` set (vc_svcs vc)"
    unfolding put using gm_values_put by (metis insertE subsetD)
  with assms(1,3) show "distinct (map vi_addr (vs_instances s))"
    unfolding addrs_distinct_def by blast
qed

lemma addrs_distinct_same:
  "addrs_distinct vc \<Longrightarrow> vc_svcs vc' = vc_svcs vc \<Longrightarrow> addrs_distinct vc'"
  by (simp add: addrs_distinct_def)

lemma updates_svc_distinct:
  assumes "updates_svc k vc vc'" and "addrs_distinct vc"
  shows "addrs_distinct vc'"
proof -
  from assms(1) obtain svc svc' where svc: "gm_get (vc_svcs vc) k = Some svc"
    and put: "vc_svcs vc' = gm_put k svc' (vc_svcs vc)"
    and a: "map vi_addr (vs_instances svc') = map vi_addr (vs_instances svc)"
    by (auto simp: updates_svc_def)
  show ?thesis
    by (rule addrs_distinct_put [OF assms(2) put]) (use addrs_distinct_get [OF assms(2) svc] a in simp)
qed

lemma updateVarnishSvc_distinct:
  "updateVarnishSvc ADM k vc = (e, vc') \<Longrightarrow> vc_ok vc \<Longrightarrow> addrs_distinct vc \<Longrightarrow> addrs_distinct vc'"
  using updateVarnishSvc_updates [of ADM k vc e vc'] updates_svc_distinct
  by (auto simp: vc_ok_def)

lemma AddOrUpdateVarnishSvc_distinct:
  assumes "AddOrUpdateVarnishSvc ADM ord k addrs secr loadVCL vc = (e, vc')" and "vc_ok vc"
    and "map_order_ok ord" and "addrs_distinct vc"
  shows "addrs_distinct vc'"
proof -
  from AddOrUpdateVarnishSvc_addresses [OF assms(1-3)] obtain svc where
    put: "vc_svcs vc' = gm_put k svc (vc_svcs vc)"
    and m: "mset (map vi_addr (vs_instances svc)) = mset (gm_keys (update_addrs addrs))" by blast
  have "distinct (map vi_addr (vs_instances svc))"
    using mset_eq_imp_distinct_iff [OF m] update_addrs_distinct by blast
  with put assms(4) show ?thesis by (blast intro: addrs_distinct_put)
qed

lemma ensure_svc_distinct: "addrs_distinct vc \<Longrightarrow> addrs_distinct (ensure_svc k vc)"
proof (cases "gm_get (vc_svcs vc) k")
  case None
  assume "addrs_distinct vc"
  then show ?thesis
    by (rule addrs_distinct_put [of _ _ k new_VarnishSvc])
      (simp_all add: ensure_svc_def None new_VarnishSvc_def)
qed (simp add: ensure_svc_def)

lemma DeleteVarnishSvc_distinct:
  assumes "DeleteVarnishSvc ADM k vc = (e, vc')" and "addrs_distinct vc"
  shows "addrs_distinct vc'"
proof (cases "gm_get (vc_svcs vc) k")
  case None
  with assms show ?thesis by (simp add: DeleteVarnishSvc_def)
next
  case (Some svc)
  obtain errs insts vc1 where r: "removeVarnishInstances ADM (vs_instances svc) vc = (errs, insts, vc1)"
    by (rule prod_cases3)
  note simps = removeVarnishInstances_simps [OF r]
  let ?vc2 = "put_svc k (svc\<lparr>vs_instances := insts\<rparr>) vc1"
  have d: "addrs_distinct ?vc2"
    by (rule addrs_distinct_put [OF assms(2), of _ k "svc\<lparr>vs_instances := insts\<rparr>"])
      (use simps addrs_distinct_get [OF assms(2) Some] in simp_all)
  have "set (gm_del k (vc_svcs ?vc2)) \<subseteq> set (vc_svcs ?vc2)" by (auto simp: gm_del_def)
  with d have "addrs_distinct (?vc2\<lparr>vc_svcs := gm_del k (vc_svcs ?vc2),
      vc_svcsGauge := vc_svcsGauge ?vc2 - 1\<rparr>)"
    unfolding addrs_distinct_def by auto
  with d assms(1) Some r show ?thesis
    by (auto simp: DeleteVarnishSvc_def Let_def split: if_split_asm)
qed

lemma Update_distinct:
  assumes "Update ADM k spec im vm bm vc = (e, vc')" and "vc_ok vc" and "addrs_distinct vc"
  shows "addrs_distinct vc'"
proof -
  let ?vc1 = "ensure_svc k vc"
  obtain svc where svc: "gm_get (vc_svcs ?vc1) k = Some svc" using ensure_svc_get by blast
  let ?svc = "svc\<lparr>vs_cfgLoaded := False,
      vs_spec := Some \<lparr>vm_spec = spec, vm_ings = im, vm_vcfg = vm, vm_bcfg = bm\<rparr>\<rparr>"
  let ?vc2 = "updateBeGauges (put_svc k ?svc ?vc1)"
  have ok1: "vc_ok ?vc1" by (rule ensure_svc_ok [OF assms(2)])
  have d1: "addrs_distinct ?vc1" by (rule ensure_svc_distinct [OF assms(3)])
  have "secrets_valid (length (vc_heap ?vc1)) ?svc"
    using vc_ok_valid [OF ok1 svc] by (simp add: secrets_valid_def)
  from vc_ok_put [OF ok1 svc this] have ok2: "vc_ok ?vc2" by (simp only: vc_ok_world)
  have d2: "addrs_distinct ?vc2"
    by (rule addrs_distinct_put [OF d1, of _ k ?svc])
      (use addrs_distinct_get [OF d1 svc] in \<open>simp_all add: updateBeGauges_def\<close>)
  show ?thesis
  proof (cases "vs_instances svc = []")
    case True
    with assms(1) svc d2 show ?thesis by (simp add: Update_def Let_def)
  next
    case False
    with assms(1) svc have "updateVarnishSvc ADM k ?vc2 = (e, vc')"
      by (simp add: Update_def Let_def)
    then show ?thesis by (rule updateVarnishSvc_distinct [OF _ ok2 d2])
  qed
qed

lemma SetNotReady_distinct:
  assumes "SetNotReady ADM k vc = (e, vc')" and "addrs_distinct vc"
  shows "addrs_distinct vc'"
proof (cases "gm_get (vc_svcs vc) k")
  case None
  with assms show ?thesis by (simp add: SetNotReady_def)
next
  case (Some svc)
  obtain errs insts w where l: "inst_loop (not_available ADM (vc_heap vc) False) (vs_instances svc)
      (vc_world vc) = (errs, insts, w)" by (rule prod_cases3)
  from inst_loop_keeps [OF l keeps_not_available] addrs_distinct_get [OF assms(2) Some]
  have "distinct (map vi_addr insts)" by simp
  moreover from assms(1) Some l
  have "vc_svcs vc' = gm_put k (svc\<lparr>vs_spec := None, vs_instances := insts\<rparr>) (vc_svcs vc)"
    by (auto simp: SetNotReady_def)
  ultimately show ?thesis by (auto intro: addrs_distinct_put [OF assms(2)])
qed

lemma HasConfig_distinct:
  assumes "HasConfig k spec im vm bm vc = Ok (b, s', vc')" and "addrs_distinct vc"
  shows "addrs_distinct vc'"
proof (cases "gm_get (vc_svcs vc) k")
  case None
  with assms show ?thesis by (simp add: HasConfig_def)
next
  case (Some svc)
  have "addrs_distinct (put_svc k (svc\<lparr>vs_spec := sp\<rparr>) vc)" for sp
    by (rule addrs_distinct_put [OF assms(2), of _ k "svc\<lparr>vs_spec := sp\<rparr>"])
      (use addrs_distinct_get [OF assms(2) Some] in simp_all)
  with assms Some show ?thesis
    by (auto simp: HasConfig_def split: option.split_asm if_split_asm)
qed

lemma set_secret_addr [simp]: "vi_addr (set_secret p i) = vi_addr i"
  by (simp add: set_secret_def)

lemma UpdateSvcForSecret_distinct:
  assumes "UpdateSvcForSecret ADM k sk vc = (e, vc')" and "vc_ok vc" and "addrs_distinct vc"
  shows "addrs_distinct vc'"
proof (cases "gm_get (vc_svcs vc) k = None \<and> gm_get (vc_secrets vc) sk = None")
  case True
  with assms show ?thesis by (simp add: UpdateSvcForSecret_def)
next
  case False
  let ?vc1 = "ensure_svc k vc"
  obtain svc where svc: "gm_get (vc_svcs ?vc1) k = Some svc" using ensure_svc_get by blast
  let ?s = "gm_get (vc_secrets vc) sk"
  let ?svc = "svc\<lparr>vs_secrName := (if ?s = None then [] else sk),
      vs_instances := map (set_secret ?s) (vs_instances svc)\<rparr>"
  have ok1: "vc_ok ?vc1" by (rule ensure_svc_ok [OF assms(2)])
  have d1: "addrs_distinct ?vc1" by (rule ensure_svc_distinct [OF assms(3)])
  have p: "\<And>p. ?s = Some p \<Longrightarrow> p < length (vc_heap ?vc1)" using vc_ok_secret [OF assms(2)] by simp
  then have "secrets_valid (length (vc_heap ?vc1)) ?svc" by (rule secrets_valid_set) auto
  from vc_ok_put [OF ok1 svc this] have ok2: "vc_ok (put_svc k ?svc ?vc1)" .
  have d2: "addrs_distinct (put_svc k ?svc ?vc1)"
    by (rule addrs_distinct_put [OF d1, of _ k ?svc])
      (use addrs_distinct_get [OF d1 svc] in \<open>simp_all add: comp_def\<close>)
  from assms(1) svc False have "updateVarnishSvc ADM k (put_svc k ?svc ?vc1) = (e, vc')"
    by (auto simp: UpdateSvcForSecret_def Let_def)
  then show ?thesis by (rule updateVarnishSvc_distinct [OF _ ok2 d2])
qed

lemma monitor_svc_distinct:
  assumes "monitor_svc ADM k vc = (evs, vc')" and "vc_ok vc" and "addrs_distinct vc"
  shows "addrs_distinct vc'"
proof (cases "gm_get (vc_svcs vc) k")
  case None
  with assms show ?thesis by (simp add: monitor_svc_def)
next
  case (Some svc)
  obtain good ev insts w where l: "check_loop ADM (vc_heap vc) k (vs_instances svc) (vc_world vc)
      = (good, ev, insts, w)" by (rule prod_cases4)
  let ?svc = "svc\<lparr>vs_instances := insts\<rparr>"
  let ?vc1 = "(put_svc k ?svc vc)\<lparr>vc_world := w\<rparr>"
  have "secrets_valid (length (vc_heap vc)) ?svc"
    by (rule secrets_valid_cong [OF _ vc_ok_valid [OF assms(2) Some]])
      (use check_loop_keeps [OF l] in simp)
  from vc_ok_put [OF assms(2) Some this] have ok1: "vc_ok ?vc1" by simp
  have d1: "addrs_distinct ?vc1"
    by (rule addrs_distinct_put [OF assms(3), of _ k ?svc])
      (use addrs_distinct_get [OF assms(3) Some] check_loop_keeps [OF l] in simp_all)
  obtain e vc2 where u: "updateVarnishSvc ADM k ?vc1 = (e, vc2)" by fastforce
  from assms(1) Some l u have "vc' = vc2" by (auto simp: monitor_svc_def split: option.split_asm)
  with updateVarnishSvc_distinct [OF u ok1 d1] show ?thesis by simp
qed

lemma SetAdmSecret_svcs [simp]: "vc_svcs (SetAdmSecret k secret vc) = vc_svcs vc"
  by (simp add: SetAdmSecret_def split: option.split)

lemma DeleteAdmSecret_svcs [simp]: "vc_svcs (DeleteAdmSecret k vc) = vc_svcs vc"
  by (simp add: DeleteAdmSecret_def)

lemma secrets_distinct [simp]:
  "addrs_distinct (SetAdmSecret k secret vc) = addrs_distinct vc"
  "addrs_distinct (DeleteAdmSecret k vc) = addrs_distinct vc"
  by (simp_all add: addrs_distinct_def)

end
