(* ===== verification/VarnishReach.thy ===== *)
theory VarnishReach
  imports VarnishAddrs
begin

text \<open>
  The Varnish controller as a transition system: the calls of the ingress controller and the work of
  the monitor as a step relation, the reachable states, and what holds in all of them.
\<close>

section \<open>Reachable states\<close>

text \<open>
  The calls of the exported operations, and the parts of a round of
  the monitor, one per service.  Calls of \<open>HasConfig\<close> that panic end
  the process and have no successor.
\<close>

inductive vc_step :: "'w admin \<Rightarrow> 'w Controller \<Rightarrow> 'w Controller \<Rightarrow> bool" for ADM where
  step_AddOrUpdate: "map_order_ok ord \<Longrightarrow>
     AddOrUpdateVarnishSvc ADM ord k addrs secr loadVCL vc = (e, vc') \<Longrightarrow> vc_step ADM vc vc'"
| step_Delete: "DeleteVarnishSvc ADM k vc = (e, vc') \<Longrightarrow> vc_step ADM vc vc'"
| step_Update: "Update ADM k spec im vm bm vc = (e, vc') \<Longrightarrow> vc_step ADM vc vc'"
| step_SetNotReady: "SetNotReady ADM k vc = (e, vc') \<Longrightarrow> vc_step ADM vc vc'"
| step_HasConfig: "HasConfig k spec im vm bm vc = Ok (b, s', vc') \<Longrightarrow> vc_step ADM vc vc'"
| step_SetAdmSecret: "vc_step ADM vc (SetAdmSecret k secret vc)"
| step_UpdateSvcForSecret: "UpdateSvcForSecret ADM k sk vc = (e, vc') \<Longrightarrow> vc_step ADM vc vc'"
| step_DeleteAdmSecret: "vc_step ADM vc (DeleteAdmSecret k vc)"
| step_monitor: "monitor_svc ADM k vc = (evs, vc') \<Longrightarrow> vc_step ADM vc vc'"

inductive vc_reach :: "'w admin \<Rightarrow> 'w Controller \<Rightarrow> bool" for ADM where
  reach_init: "vc_reach ADM (NewVarnishController w)"
| reach_step: "vc_reach ADM vc \<Longrightarrow> vc_step ADM vc vc' \<Longrightarrow> vc_reach ADM vc'"

inductive_cases vc_stepE: "vc_step ADM vc vc'"

lemma vc_step_ok: "vc_step ADM vc vc' \<Longrightarrow> vc_ok vc \<Longrightarrow> vc_ok vc'"
  by (erule vc_stepE)
    (auto intro: AddOrUpdateVarnishSvc_ok DeleteVarnishSvc_ok Update_ok SetNotReady_ok HasConfig_ok
      SetAdmSecret_ok UpdateSvcForSecret_ok DeleteAdmSecret_ok monitor_svc_ok)

lemma vc_reach_ok: "vc_reach ADM vc \<Longrightarrow> vc_ok vc"
  by (induction rule: vc_reach.induct) (auto intro: vc_step_ok)

lemma vc_step_distinct: "vc_step ADM vc vc' \<Longrightarrow> vc_ok vc \<Longrightarrow> addrs_distinct vc \<Longrightarrow> addrs_distinct vc'"
  by (erule vc_stepE)
    (auto intro: AddOrUpdateVarnishSvc_distinct DeleteVarnishSvc_distinct Update_distinct
      SetNotReady_distinct HasConfig_distinct UpdateSvcForSecret_distinct monitor_svc_distinct)

lemma vc_reach_distinct: "vc_reach ADM vc \<Longrightarrow> addrs_distinct vc"
proof (induction rule: vc_reach.induct)
  case (reach_init w)
  show ?case by (simp add: addrs_distinct_def NewVarnishController_def)
next
  case (reach_step vc vc')
  then show ?case using vc_step_distinct vc_reach_ok by blast
qed

end
