(* ===== verification/VarnishSync.thy ===== *)
theory VarnishSync
  imports VarnishReach
begin

text \<open>
  What a successful synchronisation means at the instances: proved once under the contract of the
  administration interface (\<open>varnish_admin\<close>), for a connection, an instance, the instances of a
  service and a service.  Then the check for a loaded configuration, secrets, and the deletion of a
  service.
\<close>

section \<open>Under the contract of the administration interface\<close>

text \<open>The instance has the configuration, the regular label points to it and it is ready.\<close>

definition configured :: "string \<Rightarrow> VCLData list \<Rightarrow> bool" where
  "configured n vs \<longleftrightarrow>
     has_vcl n vs \<and> has_label regularLabel n vs \<and> has_label readinessLabel readyCfg vs"

context varnish_admin
begin

lemma load_cfg_ok:
  assumes "at w c a" and "load_cfg ADM c n src (vcls a w) w = (None, w')"
  shows "has_vcl n (vcls a w')"
    and "has_label l cf (vcls a w) \<Longrightarrow> has_label l cf (vcls a w')"
  using assms inline_ok by (auto simp: load_cfg_def split: if_split_asm)

lemma load_cfg_frame:
  assumes "at w c a" and "load_cfg ADM c n src vs w = (e, w')"
  shows "at w' c a" and "x \<noteq> a \<Longrightarrow> vcls x w' = vcls x w"
  using assms inline_frame by (auto simp: load_cfg_def split: if_split_asm)

lemma label_cfg_ok:
  assumes "at w c a" and "label_cfg ADM c l cf vs w = (None, w')"
    and "has_label l cf vs \<Longrightarrow> has_label l cf (vcls a w)"
  shows "has_label l cf (vcls a w')"
    and "has_vcl n (vcls a w) \<Longrightarrow> has_vcl n (vcls a w')"
    and "m \<noteq> l \<Longrightarrow> has_label m d (vcls a w) \<Longrightarrow> has_label m d (vcls a w')"
  using assms label_ok by (auto simp: label_cfg_def split: if_split_asm)

lemma label_cfg_frame:
  assumes "at w c a" and "label_cfg ADM c l cf vs w = (e, w')"
  shows "at w' c a" and "x \<noteq> a \<Longrightarrow> vcls x w' = vcls x w"
  using assms label_frame by (auto simp: label_cfg_def split: if_split_asm)

lemma update_cmds_frame:
  assumes "at w c a" and "update_cmds ADM c n src w = (e, w')" and "x \<noteq> a"
  shows "vcls x w' = vcls x w"
proof -
  obtain r w1 where l: "adm_VCLList ADM c w = (r, w1)" by fastforce
  note f1 = list_frame [OF l]
  show ?thesis
  proof (cases r)
    case (Inl e1)
    with assms(2) l f1 show ?thesis by (simp add: update_cmds_def)
  next
    case (Inr vs)
    obtain e2 w2 where l2: "load_cfg ADM c n src vs w1 = (e2, w2)" by fastforce
    from f1 assms(1) have at1: "at w1 c a" by blast
    note f2 = load_cfg_frame [OF at1 l2]
    obtain e3 w3 where l3: "label_cfg ADM c regularLabel n vs w2 = (e3, w3)" by fastforce
    note f3 = label_cfg_frame [OF f2(1) l3]
    obtain e4 w4 where l4: "label_cfg ADM c readinessLabel readyCfg vs w3 = (e4, w4)" by fastforce
    note f4 = label_cfg_frame [OF f3(1) l4]
    from assms(2) have "w' \<in> {w2, w3, w4}"
      by (auto simp: update_cmds_def l Inr l2 l3 l4 split: option.split_asm)
    with f1 f2(2) f3(2) f4(2) assms(3) show ?thesis by auto
  qed
qed

lemma update_cmds_ok:
  assumes "at w c a" and "update_cmds ADM c n src w = (None, w')"
  shows "configured n (vcls a w')"
proof -
  from assms(2) obtain vs w1 where l: "adm_VCLList ADM c w = (Inr vs, w1)"
    by (auto simp: update_cmds_def split: prod.split_asm sum.split_asm)
  have vs: "vs = vcls a w1" using list_ok [OF assms(1) l] list_frame [OF l] by simp
  have at1: "at w1 c a" using list_frame [OF l] assms(1) by blast
  from assms(2) l obtain w2 where l2: "load_cfg ADM c n src vs w1 = (None, w2)"
    by (auto simp: update_cmds_def split: prod.split_asm option.split_asm)
  note at2 = load_cfg_frame(1) [OF at1 l2]
  note ok2 = load_cfg_ok [OF at1 l2 [unfolded vs]]
  from assms(2) l l2 obtain w3 where l3: "label_cfg ADM c regularLabel n vs w2 = (None, w3)"
    by (auto simp: update_cmds_def split: prod.split_asm option.split_asm)
  note at3 = label_cfg_frame(1) [OF at2 l3]
  have k3: "has_label regularLabel n vs \<Longrightarrow> has_label regularLabel n (vcls a w2)"
    using ok2(2) vs by simp
  note ok3 = label_cfg_ok [OF at2 l3 k3]
  from assms(2) l l2 l3 have l4: "label_cfg ADM c readinessLabel readyCfg vs w3 = (None, w')"
    by (simp add: update_cmds_def)
  have k4: "has_label readinessLabel readyCfg vs \<Longrightarrow> has_label readinessLabel readyCfg (vcls a w3)"
    using ok3(3) [of readinessLabel readyCfg] ok2(2) vs by simp
  note ok4 = label_cfg_ok [OF at3 l4 k4]
  show ?thesis
    using ok2(1) ok3(1,2) ok4 by (simp add: configured_def)
qed

lemma updateVarnishInstance_frame:
  assumes "updateVarnishInstance ADM heap i n src w = (e, i', w')" and "x \<noteq> vi_addr i"
  shows "vcls x w' = vcls x w"
proof (cases "vi_admSecret i")
  case None
  with assms(1) show ?thesis by (simp add: updateVarnishInstance_def)
next
  case (Some p)
  obtain r w1 where d: "adm_Dial ADM (vi_addr i) (heap ! p) w = (r, w1)" by fastforce
  note f = dial_vcls [OF d]
  show ?thesis
  proof (cases r)
    case (Inl e1)
    with assms(1) Some d f show ?thesis by (simp add: updateVarnishInstance_def)
  next
    case (Inr cb)
    obtain c b where cb: "cb = (c, b)" by fastforce
    obtain e2 w2 where u: "update_cmds ADM c n src w1 = (e2, w2)" by fastforce
    from dial_ok d Inr cb have "at w1 c (vi_addr i)" by blast
    from update_cmds_frame [OF this u assms(2)] f have "vcls x w2 = vcls x w" by simp
    moreover from assms(1) Some d Inr cb u have "w' = adm_Close ADM c w2"
      by (simp add: updateVarnishInstance_def)
    ultimately show ?thesis by (simp add: close_vcls)
  qed
qed

lemma updateVarnishInstance_configured:
  assumes "updateVarnishInstance ADM heap i n src w = (None, i', w')"
  shows "configured n (vcls (vi_addr i) w')"
proof -
  from assms obtain p c b w1 w2 where
    d: "adm_Dial ADM (vi_addr i) (heap ! p) w = (Inr (c, b), w1)"
    and u: "update_cmds ADM c n src w1 = (None, w2)" and w': "w' = adm_Close ADM c w2"
    by (auto simp: updateVarnishInstance_def split: option.split_asm prod.split_asm sum.split_asm)
  from update_cmds_ok [OF dial_ok [OF d] u] show ?thesis by (simp add: w' close_vcls)
qed

text \<open>The loop leaves the addresses it does not visit alone, and configures those it does not
  report.\<close>

lemma inst_loop_frame:
  assumes "inst_loop (\<lambda>i. updateVarnishInstance ADM heap i n src) is w = (errs, is', w')"
    and "x \<notin> vi_addr ` set is"
  shows "vcls x w' = vcls x w"
  using assms
proof (induction "is" arbitrary: w errs is' w')
  case (Cons i "is")
  obtain e i1 w1 where u: "updateVarnishInstance ADM heap i n src w = (e, i1, w1)"
    by (rule prod_cases3)
  obtain er is1 w2 where l:
    "inst_loop (\<lambda>i. updateVarnishInstance ADM heap i n src) is w1 = (er, is1, w2)"
    by (rule prod_cases3)
  from Cons.prems(1) u l have "w' = w2" by simp
  with Cons.IH [OF l] updateVarnishInstance_frame [OF u] Cons.prems(2) show ?case by auto
qed simp

lemma inst_loop_configured:
  assumes "inst_loop (\<lambda>i. updateVarnishInstance ADM heap i n src) is w = (errs, is', w')"
    and "distinct (map vi_addr is)" and "i \<in> set is" and "vi_addr i \<notin> fst ` set errs"
  shows "configured n (vcls (vi_addr i) w')"
  using assms
proof (induction "is" arbitrary: w errs is' w')
  case (Cons j "is")
  obtain e j1 w1 where u: "updateVarnishInstance ADM heap j n src w = (e, j1, w1)"
    by (rule prod_cases3)
  obtain er is1 w2 where l:
    "inst_loop (\<lambda>i. updateVarnishInstance ADM heap i n src) is w1 = (er, is1, w2)"
    by (rule prod_cases3)
  from Cons.prems(1) u l have w': "w' = w2"
    and errs: "errs = (case e of None \<Rightarrow> er | Some x \<Rightarrow> (vi_addr j, x) # er)" by simp_all
  show ?case
  proof (cases "i = j")
    case True
    with errs Cons.prems(4) u have "configured n (vcls (vi_addr j) w1)"
      by (cases e) (auto dest: updateVarnishInstance_configured)
    moreover have "vi_addr j \<notin> vi_addr ` set is" using Cons.prems(2) by simp
    ultimately show ?thesis using inst_loop_frame [OF l] w' True by simp
  next
    case False
    with Cons.prems errs have "i \<in> set is" "vi_addr i \<notin> fst ` set er" "distinct (map vi_addr is)"
      by (auto split: option.split_asm)
    with Cons.IH [OF l] w' show ?thesis by simp
  qed
qed simp

text \<open>A service that was synchronised without error.\<close>

lemma updateVarnishSvc_configured:
  assumes "updateVarnishSvc ADM k vc = (None, vc')" and "gm_get (vc_svcs vc) k = Some svc"
    and "vs_spec svc = Some sp" and "distinct (map vi_addr (vs_instances svc))"
  shows "\<exists>svc'. gm_get (vc_svcs vc') k = Some svc' \<and> vs_cfgLoaded svc'
     \<and> vs_spec svc' = Some (set_spec Canonical_effect sp)
     \<and> map vi_addr (vs_instances svc') = map vi_addr (vs_instances svc)
     \<and> (\<forall>i \<in> set (vs_instances svc').
          configured (configName (vm_spec sp)) (vcls (vi_addr i) (vc_world vc')))"
  using assms(1)
proof (cases rule: updateVarnishSvc_cases)
  case (5 svc1 sp1 src errs insts w)
  from 5(6) have "errs = []" using errs_result_None [of errs] by simp
  with 5 assms(2,3) have eq: "svc1 = svc" "sp1 = sp" "errs = []" by simp_all
  note loop = 5(5) [unfolded eq]
  have addrs: "map vi_addr insts = map vi_addr (vs_instances svc)"
    using inst_loop_keeps [OF loop keeps_update] by blast
  then have addr: "vi_addr ` set insts = vi_addr ` set (vs_instances svc)"
    by (metis list.set_map)
  have "configured (configName (vm_spec sp)) (vcls (vi_addr i) w)" if "i \<in> set insts" for i
  proof -
    from that addr obtain j where j: "j \<in> set (vs_instances svc)" "vi_addr i = vi_addr j"
      by (metis imageE imageI)
    from inst_loop_configured [OF loop assms(4) j(1)] j(2) show ?thesis by simp
  qed
  with 5(7) eq addrs show ?thesis by simp
qed (use assms(2,3) in simp_all)

lemma Update_configured:
  assumes "Update ADM k spec im vm bm vc = (None, vc')" and "addrs_distinct vc"
  shows "\<exists>svc. gm_get (vc_svcs vc') k = Some svc \<and> vs_cfgLoaded svc \<and> vs_instances svc \<noteq> []
     \<and> vs_spec svc = Some \<lparr>vm_spec = Canonical_effect spec, vm_ings = im, vm_vcfg = vm, vm_bcfg = bm\<rparr>
     \<and> (\<forall>i \<in> set (vs_instances svc).
          configured (configName spec) (vcls (vi_addr i) (vc_world vc')))"
proof -
  let ?vc1 = "ensure_svc k vc"
  obtain svc where svc: "gm_get (vc_svcs ?vc1) k = Some svc" using ensure_svc_get by blast
  let ?sp = "\<lparr>vm_spec = spec, vm_ings = im, vm_vcfg = vm, vm_bcfg = bm\<rparr>"
  let ?svc = "svc\<lparr>vs_cfgLoaded := False, vs_spec := Some ?sp\<rparr>"
  let ?vc2 = "updateBeGauges (put_svc k ?svc ?vc1)"
  from assms(1) svc have ne: "vs_instances svc \<noteq> []"
    and u: "updateVarnishSvc ADM k ?vc2 = (None, vc')"
    by (auto simp: Update_def Let_def split: if_split_asm)
  have "distinct (map vi_addr (vs_instances svc))"
    by (rule addrs_distinct_get [OF ensure_svc_distinct [OF assms(2)] svc])
  with updateVarnishSvc_configured [OF u, of ?svc ?sp] obtain svc' where
    "gm_get (vc_svcs vc') k = Some svc'" "vs_cfgLoaded svc'"
    "vs_spec svc' = Some (set_spec Canonical_effect ?sp)"
    "map vi_addr (vs_instances svc') = map vi_addr (vs_instances svc)"
    "\<forall>i \<in> set (vs_instances svc').
       configured (configName spec) (vcls (vi_addr i) (vc_world vc'))"
    by (auto simp: updateBeGauges_def)
  moreover from this(4) ne have "vs_instances svc' \<noteq> []" by auto
  ultimately show ?thesis by (auto simp: set_spec_def)
qed

end

section \<open>Whether a configuration is loaded\<close>

lemma HasConfig_iff:
  assumes "gm_get (vc_svcs vc) k = Some svc" and "vs_spec svc = Some sp"
    and "gm_ok im" and "gm_ok bm" and "gm_ok (vm_ings sp)" and "gm_ok (vm_bcfg sp)"
  shows "(\<exists>s' vc'. HasConfig k spec im vm bm vc = Ok (True, s', vc')) \<longleftrightarrow>
     vs_cfgLoaded svc \<and> im = vm_ings sp \<and> bm = vm_bcfg sp \<and> vm = vm_vcfg sp
     \<and> Canonical (vm_spec sp) = Canonical spec"
proof -
  have eq: "m = n" if "gm_ok m" "gm_ok n" "length m = length n" "metas_match m n" for m n
  proof -
    have "set m \<subseteq> set n" using that(4) gm_get_in [OF that(2)] by (auto simp: metas_match_def)
    moreover have "card (set m) = length m" "card (set n) = length n"
      using gm_ok_distinct that(1,2) by (metis distinct_card distinct_map)+
    ultimately have "set m = set n" using that(3) by (metis List.finite_set card_subset_eq)
    then have "gm_get m k' = gm_get n k'" for k'
      using that(1,2) gm_get_in by (metis not_None_eq)
    with that(1,2) show ?thesis by (rule gm_ext)
  qed
  have refl: "metas_match m m" if "gm_ok m" for m
    using gm_get_in [OF that] by (auto simp: metas_match_def)
  show ?thesis
  proof
    assume "\<exists>s' vc'. HasConfig k spec im vm bm vc = Ok (True, s', vc')"
    with assms(1,2) eq assms(3-6) show "vs_cfgLoaded svc \<and> im = vm_ings sp \<and> bm = vm_bcfg sp
        \<and> vm = vm_vcfg sp \<and> Canonical (vm_spec sp) = Canonical spec"
      by (auto simp: HasConfig_def split: if_split_asm)
  qed (use assms refl in \<open>simp add: HasConfig_def\<close>)
qed

text \<open>After \<open>SetNotReady\<close> on a service whose configuration was loaded, \<open>HasConfig\<close> panics.\<close>

lemma SetNotReady_HasConfig:
  assumes "SetNotReady ADM k vc = (e, vc')" and "gm_get (vc_svcs vc) k = Some svc"
    and "vs_cfgLoaded svc"
  shows "HasConfig k spec im vm bm vc' = Panic"
proof -
  obtain errs insts w where l: "inst_loop (not_available ADM (vc_heap vc) False) (vs_instances svc)
      (vc_world vc) = (errs, insts, w)" by (rule prod_cases3)
  with assms have "gm_get (vc_svcs vc') k = Some (svc\<lparr>vs_spec := None, vs_instances := insts\<rparr>)"
    by (auto simp: SetNotReady_def)
  with assms(3) show ?thesis by (simp add: HasConfig_def)
qed

section \<open>Secrets\<close>

lemma length_copy_into [simp]: "length (copy_into dst src) = length dst"
  by (simp add: copy_into_def)

lemma copy_into_eq_iff: "copy_into dst src = src \<longleftrightarrow> length dst = length src"
  by (metis append_Nil2 copy_into_def drop_all order_refl length_copy_into take_all)

text \<open>The secret an instance uses through its pointer.\<close>

definition secret_at :: "'w Controller \<Rightarrow> string \<Rightarrow> bytes option" where
  "secret_at vc key = map_option (deref (vc_heap vc)) (gm_get (vc_secrets vc) key)"

lemma SetAdmSecret_new:
  "gm_get (vc_secrets vc) key = None \<Longrightarrow> secret_at (SetAdmSecret key secret vc) key = Some secret"
  by (simp add: secret_at_def SetAdmSecret_def copy_into_eq_iff)

lemma SetAdmSecret_known:
  assumes "vc_ok vc" and "secret_at vc key = Some old"
  shows "secret_at (SetAdmSecret key secret vc) key = Some (copy_into old secret)"
  using assms vc_ok_secret [OF assms(1)]
  by (auto simp: secret_at_def SetAdmSecret_def)

lemma distinct_snd_inj:
  "distinct (map snd m) \<Longrightarrow> (a, p) \<in> set m \<Longrightarrow> (b, p) \<in> set m \<Longrightarrow> a = b"
  by (metis distinct_map inj_onD prod.inject snd_conv)

lemma SetAdmSecret_other:
  assumes "vc_ok vc" and "other \<noteq> key"
  shows "secret_at (SetAdmSecret key secret vc) other = secret_at vc other"
proof (cases "gm_get (vc_secrets vc) other")
  case None
  with assms(2) show ?thesis by (simp add: secret_at_def SetAdmSecret_def split: option.split)
next
  case (Some q)
  have "p \<noteq> q" if "gm_get (vc_secrets vc) key = Some p" for p
    using that Some assms distinct_snd_inj [of "vc_secrets vc"]
    by (metis map_of_SomeD vc_ok_def)
  moreover have "q < length (vc_heap vc)" using vc_ok_secret [OF assms(1) Some] .
  ultimately show ?thesis using Some assms(2)
    by (auto simp: secret_at_def SetAdmSecret_def nth_append split: option.split)
qed

section \<open>Deleting a service\<close>

lemma DeleteVarnishSvc_kept:
  assumes "DeleteVarnishSvc ADM k vc = (None, vc')" and "gm_get (vc_svcs vc) k = Some svc"
  shows "\<exists>svc'. gm_get (vc_svcs vc') k = Some svc' \<and> vs_spec svc' = vs_spec svc
     \<and> map vi_addr (vs_instances svc') = map vi_addr (vs_instances svc)
     \<and> vc_instsGauge vc' = vc_instsGauge vc - int (length (vs_instances svc))"
proof -
  obtain errs insts vc1 where r: "removeVarnishInstances ADM (vs_instances svc) vc = (errs, insts, vc1)"
    by (rule prod_cases3)
  with assms have "errs = []" and "vc' = put_svc k (svc\<lparr>vs_instances := insts\<rparr>) vc1"
    by (auto simp: DeleteVarnishSvc_def Let_def split: if_split_asm)
  with removeVarnishInstances_simps [OF r] show ?thesis by simp
qed

lemma DeleteVarnishSvc_removed:
  assumes "DeleteVarnishSvc ADM k vc = (Some e, vc')" and "vc_ok vc"
  shows "gm_get (vc_svcs vc') k = None"
  using assms
  by (auto simp: DeleteVarnishSvc_def Let_def errs_result_def
        split: option.split_asm prod.split_asm if_split_asm)

end
