(* ===== verification/IngressSync.thy ===== *)
theory IngressSync
  imports SpecBuild VarnishSync
begin

text \<open>
  The synchronisation of Ingresses (\<open>pkg/controller/ingress.go\<close>): which Varnish Service implements
  an Ingress, which Ingresses a Varnish Service implements, and \<open>addOrUpdateIng\<close>, which builds the
  configuration and hands it to the Varnish controller.  The state of a worker is the Varnish
  controller, the objects it has added to its queue and the events it has generated.
\<close>

section \<open>The state of a worker\<close>

text \<open>
  The objects a worker may be handed: the six resource types, a tombstone
  (\<open>cache.DeletedFinalStateUnknown\<close>, with its key and the last known object), or anything else.
\<close>

datatype KObj =
    OIngress Ingress
  | OService KService
  | OEndpoints Endpoints
  | OSecret Secret
  | OVarnishConfig VarnishConfig
  | OBackendConfig BackendConfig
  | OTombstone string KObj
  | OOther

datatype SyncType = SyncAdd | SyncUpdate | SyncDelete

record SyncObj =
  so_Type :: SyncType
  so_Obj :: KObj

definition update_obj :: "KObj \<Rightarrow> SyncObj" where
  "update_obj obj = \<lparr>so_Type = SyncUpdate, so_Obj = obj\<rparr>"

text \<open>
  What is fixed for a worker: its namespace, its Ingress class, the listers, the administration
  interface, and the orders in which maps are visited.  Its state: the Varnish controller, the objects
  added to its queue, the increments of \<open>syncCounters\<close> (kind and reason) and the Events handed to the
  recorder (object, type and reason; without the text of the message).
\<close>

record 'w Worker =
  wk_namespace :: string
  wk_ingClass :: string
  wk_listers :: Listers
  wk_admin :: "'w admin"
  wk_auth_order :: "nat \<Rightarrow> (string \<times> bytes) list \<Rightarrow> (string \<times> bytes) list"
  wk_addr_order :: map_order

record 'w WState =
  ws_vc :: "'w Controller"
  ws_queue :: "SyncObj list"
  ws_events :: "(string \<times> string) list"
  ws_recorded :: "(KObj \<times> event_type \<times> string) list"

datatype worker_error =
    CtlErr ctl_error
  | VcErr vc_error
  | NoVarnishSvcForIngress string

type_synonym 'w handler = "'w WState \<Rightarrow> (worker_error, unit) outcome \<times> 'w WState"

definition enqueue :: "SyncObj \<Rightarrow> 'w WState \<Rightarrow> 'w WState" where
  "enqueue item st = st\<lparr>ws_queue := ws_queue st @ [item]\<rparr>"

text \<open>A handler that needs a value computed without a change of state.\<close>

definition with_ok ::
    "(ctl_error, 'a) outcome \<Rightarrow> ('a \<Rightarrow> 'w handler) \<Rightarrow> 'w handler" where
  "with_ok r f st =
     (case r of Ok x \<Rightarrow> f x st | Err e \<Rightarrow> (Err (CtlErr e), st) | Panic \<Rightarrow> (Panic, st))"

lemma with_ok_simps [simp]:
  "with_ok (Ok x) f st = f x st" "with_ok (Err e) f st = (Err (CtlErr e), st)"
  "with_ok Panic f st = (Panic, st)"
  by (simp_all add: with_ok_def)

text \<open>A call of the Varnish controller.\<close>

definition vc_call :: "('w Controller \<Rightarrow> vc_error option \<times> 'w Controller) \<Rightarrow> 'w handler" where
  "vc_call call st =
     (case call (ws_vc st) of
        (e, vc) \<Rightarrow> (case e of None \<Rightarrow> Ok () | Some x \<Rightarrow> Err (VcErr x), st\<lparr>ws_vc := vc\<rparr>))"

section \<open>Services and Ingresses\<close>

abbreviation "ingressClassKey \<equiv> ''kubernetes.io/ingress.class''"
abbreviation "varnishSvcKey \<equiv> ''ingress.varnish-cache.org/varnish-svc''"

definition isVarnishIngress :: "string \<Rightarrow> Ingress \<Rightarrow> bool" where
  "isVarnishIngress ingClass ing \<longleftrightarrow>
     gm_get (om_Annotations (ing_Meta ing)) ingressClassKey = Some ingClass"

text \<open>The annotation \<open>varnish-svc\<close>, split; the namespace defaults to \<open>dflt\<close>.\<close>

definition split_target :: "Listers \<Rightarrow> string \<Rightarrow> string \<Rightarrow> (ctl_error, string \<times> string) outcome" where
  "split_target L dflt v =
     (case l_splitKey L v of
        None \<Rightarrow> Err (BadKey v)
      | Some (ns, name) \<Rightarrow> Ok (if ns = [] then dflt else ns, name))"

definition getVarnishSvcForIng ::
    "Listers \<Rightarrow> string \<Rightarrow> Ingress \<Rightarrow> (ctl_error, KService option) outcome" where
  "getVarnishSvcForIng L ns ing =
     obind (lift_api (l_svc_List L)) (\<lambda>svcs.
     case gm_get (om_Annotations (ing_Meta ing)) varnishSvcKey of
       Some varnishSvc \<Rightarrow>
         obind (split_target L ns varnishSvc) (\<lambda>(targetNs, targetSvc).
           Ok (find (\<lambda>svc. ks_Namespace svc = targetNs \<and> ks_Name svc = targetSvc) svcs))
     | None \<Rightarrow>
         (case svcs of
            [svc] \<Rightarrow> Ok (Some svc)
          | _ \<Rightarrow>
              obind (lift_api (l_svc_ns_List L ns)) (\<lambda>nsSvcs.
                case nsSvcs of [svc] \<Rightarrow> Ok (Some svc) | _ \<Rightarrow> Ok None)))"

text \<open>Whether an Ingress is one for the service; \<open>allN\<close> and \<open>nsN\<close> count the Varnish Services in the
  cluster and in the namespace of the worker.\<close>

definition ing_for_svc ::
    "Listers \<Rightarrow> KService \<Rightarrow> nat \<Rightarrow> nat \<Rightarrow> Ingress \<Rightarrow> (ctl_error, bool) outcome" where
  "ing_for_svc L svc allN nsN ing =
     (case gm_get (om_Annotations (ing_Meta ing)) varnishSvcKey of
        Some ingSvc \<Rightarrow>
          obind (split_target L (ing_ns ing) ingSvc) (\<lambda>(targetNs, targetSvc).
            Ok (targetNs = ks_Namespace svc \<and> targetSvc = ks_Name svc))
      | None \<Rightarrow> Ok (allN = 1 \<or> (ing_Namespace ing = ks_Namespace svc \<and> nsN = 1)))"

fun ings_loop ::
    "Listers \<Rightarrow> string \<Rightarrow> KService \<Rightarrow> nat \<Rightarrow> nat \<Rightarrow> Ingress list \<Rightarrow> (ctl_error, Ingress list) outcome" where
  "ings_loop L cls svc allN nsN [] = Ok []"
| "ings_loop L cls svc allN nsN (ing # ings) =
     (if \<not> isVarnishIngress cls ing then ings_loop L cls svc allN nsN ings
      else
        obind (ing_for_svc L svc allN nsN ing) (\<lambda>b.
        obind (ings_loop L cls svc allN nsN ings) (\<lambda>rest.
          Ok (if b then ing # rest else rest))))"

definition getIngsForVarnishSvc ::
    "Listers \<Rightarrow> string \<Rightarrow> string \<Rightarrow> KService \<Rightarrow> (ctl_error, Ingress list) outcome" where
  "getIngsForVarnishSvc L ns cls svc =
     obind (lift_api (l_ing_List L)) (\<lambda>ings.
     obind (lift_api (l_svc_List L)) (\<lambda>allSvcs.
     obind (lift_api (l_svc_ns_List L ns)) (\<lambda>nsSvcs.
       ings_loop L cls svc (length allSvcs) (length nsSvcs) ings)))"

section \<open>The configuration of a Varnish Service\<close>

definition meta_of :: "ObjectMeta \<Rightarrow> Meta" where
  "meta_of m = \<lparr>meta_Key = meta_key m, meta_UID = om_UID m, meta_Ver = om_ResourceVersion m\<rparr>"

text \<open>The last VarnishConfig of the list that names the service: \<open>break\<close> leaves the inner loop only.\<close>

definition select_vcfg :: "string \<Rightarrow> VarnishConfig list \<Rightarrow> VarnishConfig option" where
  "select_vcfg svcName vcfgs =
     fold (\<lambda>v acc. if svcName \<in> set (vcs_Services (vcfg_Spec v)) then Some v else acc) vcfgs None"

definition apply_vcfg ::
    "'w Worker \<Rightarrow> KService \<Rightarrow> VarnishConfig \<Rightarrow> Spec \<Rightarrow> (ctl_error, Spec) outcome" where
  "apply_vcfg W svc vcfg spec =
     obind (configSharding (wk_listers W) spec vcfg svc) (\<lambda>s1.
     obind (configAuth (wk_auth_order W) (wk_listers W) (wk_namespace W) s1 vcfg) (\<lambda>s2.
     obind (configRewrites (configACL s2 vcfg) vcfg) (\<lambda>s3.
     obind (configReqDisps s3 (vcs_ReqDispositions (vcfg_Spec vcfg))) (\<lambda>s4.
       Ok (s4\<lparr>sp_VCL := vcs_VCL (vcfg_Spec vcfg)\<rparr>)))))"

definition ings_meta :: "Ingress list \<Rightarrow> Meta gomap" where
  "ings_meta ings = gm_of_list (map (\<lambda>ing. (ing_key ing, meta_of (ing_Meta ing))) ings)"

record IngConfig =
  ic_spec :: Spec
  ic_ings :: "Meta gomap"
  ic_vcfg :: Meta
  ic_bcfg :: "Meta gomap"

definition build_config ::
    "'w Worker \<Rightarrow> KService \<Rightarrow> Ingress list \<Rightarrow> (ctl_error, IngConfig) outcome" where
  "build_config W svc ings =
     obind (ings2VCLSpec (wk_listers W) ings) (\<lambda>(spec, bcfgs).
     obind (lift_api (l_vcfg_List (wk_listers W) (wk_namespace W))) (\<lambda>vcfgs.
     let vcfg = select_vcfg (ks_Name svc) vcfgs in
     obind (case vcfg of None \<Rightarrow> Ok spec | Some v \<Rightarrow> apply_vcfg W svc v spec) (\<lambda>spec'.
       Ok \<lparr>ic_spec = spec', ic_ings = ings_meta ings,
           ic_vcfg = (case vcfg of None \<Rightarrow> zero_Meta | Some v \<Rightarrow> meta_of (vcfg_Meta v)),
           ic_bcfg = gm_map (\<lambda>b. meta_of (bcfg_Meta b)) bcfgs\<rparr>)))"

section \<open>addOrUpdateIng\<close>

text \<open>
  The check and the update.  The trace message before the check computes the canonical form, which
  sorts slices of the specification.
\<close>

definition install_config :: "'w Worker \<Rightarrow> string \<Rightarrow> IngConfig \<Rightarrow> 'w handler" where
  "install_config W svcKey cfg st =
     (case HasConfig svcKey (Canonical_effect (ic_spec cfg)) (ic_ings cfg) (ic_vcfg cfg) (ic_bcfg cfg)
             (ws_vc st) of
        Panic \<Rightarrow> (Panic, st)
      | Err _ \<Rightarrow> (Panic, st)
      | Ok (True, _, vc) \<Rightarrow> (Ok (), st\<lparr>ws_vc := vc\<rparr>)
      | Ok (False, spec, vc) \<Rightarrow>
          vc_call (Update (wk_admin W) svcKey spec (ic_ings cfg) (ic_vcfg cfg) (ic_bcfg cfg))
            (st\<lparr>ws_vc := vc\<rparr>))"

definition addOrUpdateIng :: "'w Worker \<Rightarrow> Ingress \<Rightarrow> 'w handler" where
  "addOrUpdateIng W ing st =
     with_ok (getVarnishSvcForIng (wk_listers W) (wk_namespace W) ing) (\<lambda>svc st.
       case svc of
         None \<Rightarrow> (Err (NoVarnishSvcForIngress (ing_key ing)), st)
       | Some svc \<Rightarrow>
           (case getIngsForVarnishSvc (wk_listers W) (wk_namespace W) (wk_ingClass W) svc of
              Ok ings \<Rightarrow>
                if ings = [] then vc_call (SetNotReady (wk_admin W) (svc_key svc)) st
                else with_ok (build_config W svc ings) (install_config W (svc_key svc)) st
            | Err _ \<Rightarrow> (Ok (), st)
            | Panic \<Rightarrow> (Panic, st))) st"

definition syncIng :: "'w Worker \<Rightarrow> string \<Rightarrow> 'w handler" where
  "syncIng W key st =
     with_ok (lift_api (l_ing_Get (wk_listers W) (wk_namespace W) key)) (\<lambda>ing st.
       if \<not> isVarnishIngress (wk_ingClass W) ing then (Ok (), st)
       else addOrUpdateIng W ing st) st"

text \<open>As in the source, the class of a deleted Ingress is not checked.\<close>

definition deleteIng :: "'w Worker \<Rightarrow> KObj \<Rightarrow> 'w handler" where
  "deleteIng W obj st =
     (case obj of OIngress ing \<Rightarrow> addOrUpdateIng W ing st | _ \<Rightarrow> (Ok (), st))"

section \<open>What a validated configuration gives\<close>

text \<open>
  What \<open>syncVcfg\<close> checks of a VarnishConfig before it triggers a synchronisation, and what makes its
  translation free of nil dereferences.
\<close>

definition vcfg_valid :: "VarnishConfigSpec \<Rightarrow> bool" where
  "vcfg_valid v \<longleftrightarrow>
     (\<forall>d \<in> set (vcs_ReqDispositions v). reqdisp_valid d)
     \<and> (\<forall>s. vcs_SelfSharding v = Some s \<longrightarrow> probe_safe (ss_Probe s))"

definition conds_renderable :: "Spec \<Rightarrow> bool" where
  "conds_renderable spec \<longleftrightarrow>
     (\<forall>d \<in> set (sp_Dispositions spec). \<forall>c \<in> set (disp_Conditions d). cond_renderable c)"

definition nodes_addressed :: "Spec \<Rightarrow> bool" where
  "nodes_addressed spec \<longleftrightarrow> (\<forall>n \<in> set (shard_Nodes (sp_ShardCluster spec)). svc_Addresses n \<noteq> [])"

lemma GetSrc_total: "conds_renderable spec \<Longrightarrow> nodes_addressed spec \<Longrightarrow> \<exists>src. GetSrc spec = Ok src"
  by (simp add: GetSrc_Ok_iff conds_renderable_def nodes_addressed_def)

lemma condition_valid_renderable:
  assumes "condition_valid c"
  shows "cond_renderable (configReqCondition c)"
proof (cases "rc_Values c = [] \<and> rc_Count c = None")
  case True
  with assms have "rc_Compare c \<in> {vcr_Exists, vcr_NotExists}"
    by (simp add: condition_valid_def)
  then have "fst (configComparison (rc_Compare c)) = Exists" by (simp only: configComparison_Exists)
  then show ?thesis by (simp add: cond_renderable_def configReqCondition_def)
next
  case False
  then show ?thesis by (auto simp: cond_renderable_def configReqCondition_def)
qed

lemma configReqDisps_renderable:
  assumes "configReqDisps spec ds = Ok spec'" and "\<forall>d \<in> set ds. reqdisp_valid d"
    and "conds_renderable spec"
  shows "conds_renderable spec'"
proof (cases "ds = []")
  case True
  with assms show ?thesis by (simp add: configReqDisps_def)
next
  case False
  with assms(1) have "\<exists>vds. omap configReqDisp ds = Ok vds \<and> Ok (spec\<lparr>sp_Dispositions := vds\<rparr>)
      = (Ok spec' :: (ctl_error, Spec) outcome)"
    by (simp add: configReqDisps_def obind_Ok_iff)
  then obtain vds where vds: "omap configReqDisp ds = Ok vds"
    and spec': "spec' = spec\<lparr>sp_Dispositions := vds\<rparr>"
    unfolding outcome.inject by blast
  have "\<forall>c \<in> set (disp_Conditions vd). cond_renderable c" if "vd \<in> set vds" for vd
  proof -
    from vds that obtain d where "d \<in> set ds" and d: "configReqDisp d = Ok vd"
      unfolding omap_Ok_iff by (auto simp: list_all2_conv_all_nth in_set_conv_nth) blast
    with assms(2) have "reqdisp_valid d" by blast
    with d show ?thesis
      by (auto simp: configReqDisp_def obind_Ok_iff reqdisp_valid_def condition_valid_renderable)
  qed
  then show ?thesis by (simp add: conds_renderable_def spec')
qed

lemma configReqDisps_no_Err: "configReqDisps spec ds \<noteq> Err e"
proof -
  have "omap configReqDisp ds \<noteq> Err y" for y
  proof (induction ds)
    case (Cons d ds)
    then show ?case
      by (cases "configReqDisp d"; cases "omap configReqDisp ds") (simp_all add: configReqDisp_no_Err)
  qed simp
  then show ?thesis by (cases "omap configReqDisp ds") (auto simp: configReqDisps_def)
qed

lemma configReqDisps_valid:
  assumes "\<forall>d \<in> set ds. reqdisp_valid d"
  shows "\<exists>spec'. configReqDisps spec ds = Ok spec'"
proof -
  have "configReqDisps spec ds \<noteq> Panic"
    using assms by (auto simp: configReqDisps_Panic_iff reqdisp_valid_def)
  then show ?thesis by (cases "configReqDisps spec ds") (auto simp: configReqDisps_no_Err)
qed

lemma configReqDisps_other:
  "configReqDisps spec ds = Ok spec' \<Longrightarrow>
     sp_ShardCluster spec' = sp_ShardCluster spec \<and> sp_Rules spec' = sp_Rules spec
     \<and> sp_AllServices spec' = sp_AllServices spec"
  by (auto simp: configReqDisps_def obind_Ok_iff split: if_split_asm)

lemma configAuth_other:
  "configAuth ord L ns spec v = Ok spec' \<Longrightarrow>
     sp_ShardCluster spec' = sp_ShardCluster spec \<and> sp_Rules spec' = sp_Rules spec
     \<and> sp_AllServices spec' = sp_AllServices spec \<and> sp_Dispositions spec' = sp_Dispositions spec"
  by (auto simp: configAuth_def obind_Ok_iff split: if_split_asm)

lemma configRewrites_other:
  "configRewrites spec v = Ok spec' \<Longrightarrow>
     sp_ShardCluster spec' = sp_ShardCluster spec \<and> sp_Rules spec' = sp_Rules spec
     \<and> sp_AllServices spec' = sp_AllServices spec \<and> sp_Dispositions spec' = sp_Dispositions spec"
  by (auto simp: configRewrites_def obind_Ok_iff split: if_split_asm)

lemma configACL_other [simp]:
  "sp_ShardCluster (configACL spec v) = sp_ShardCluster spec"
  "sp_Rules (configACL spec v) = sp_Rules spec"
  "sp_AllServices (configACL spec v) = sp_AllServices spec"
  "sp_Dispositions (configACL spec v) = sp_Dispositions spec"
  by (simp_all add: configACL_def)

lemma configSharding_other:
  "configSharding L spec v svc = Ok spec' \<Longrightarrow>
     sp_Rules spec' = sp_Rules spec \<and> sp_AllServices spec' = sp_AllServices spec
     \<and> sp_Dispositions spec' = sp_Dispositions spec"
  by (auto simp: configSharding_def obind_Ok_iff Let_def split: option.split_asm)

lemma spec_ports_agree_cong:
  "sp_ShardCluster t = sp_ShardCluster s \<Longrightarrow> sp_Rules t = sp_Rules s \<Longrightarrow>
     sp_AllServices t = sp_AllServices s \<Longrightarrow> spec_ports_agree t = spec_ports_agree s"
  by (simp add: spec_ports_agree_def)

lemma apply_vcfg_steps:
  assumes "apply_vcfg W svc v spec = Ok spec'"
  obtains s1 s2 s3 s4 where
    "configSharding (wk_listers W) spec v svc = Ok s1"
    "configAuth (wk_auth_order W) (wk_listers W) (wk_namespace W) s1 v = Ok s2"
    "configRewrites (configACL s2 v) v = Ok s3"
    "configReqDisps s3 (vcs_ReqDispositions (vcfg_Spec v)) = Ok s4"
    "spec' = s4\<lparr>sp_VCL := vcs_VCL (vcfg_Spec v)\<rparr>"
  using assms unfolding apply_vcfg_def obind_Ok_iff outcome.inject
  by (elim exE conjE) (rule that, assumption+, rule sym, assumption)

lemma apply_vcfg_good:
  assumes "apply_vcfg W svc v spec = Ok spec'" and "vcfg_valid (vcfg_Spec v)"
    and "conds_renderable spec" and "nodes_addressed spec"
  shows "conds_renderable spec' \<and> nodes_addressed spec'"
  using assms(1)
proof (rule apply_vcfg_steps)
  fix s1 s2 s3 s4
  assume 1: "configSharding (wk_listers W) spec v svc = Ok s1"
    and 2: "configAuth (wk_auth_order W) (wk_listers W) (wk_namespace W) s1 v = Ok s2"
    and 3: "configRewrites (configACL s2 v) v = Ok s3"
    and 4: "configReqDisps s3 (vcs_ReqDispositions (vcfg_Spec v)) = Ok s4"
    and 5: "spec' = s4\<lparr>sp_VCL := vcs_VCL (vcfg_Spec v)\<rparr>"
  have "conds_renderable s3"
    using configSharding_other [OF 1] configAuth_other [OF 2] configRewrites_other [OF 3] assms(3)
    by (simp add: conds_renderable_def)
  then have r: "conds_renderable s4"
    using assms(2) by (intro configReqDisps_renderable [OF 4]) (simp_all add: vcfg_valid_def)
  have "nodes_addressed s1"
    using configSharding_nodes [OF 1] assms(4) by (simp add: nodes_addressed_def)
  then have "nodes_addressed s4"
    using configAuth_other [OF 2] configRewrites_other [OF 3] configReqDisps_other [OF 4]
    by (simp add: nodes_addressed_def)
  with r show ?thesis by (simp add: 5 conds_renderable_def nodes_addressed_def)
qed

lemma apply_vcfg_ports:
  assumes "apply_vcfg W svc v spec = Ok spec'" and "spec_ports_agree spec"
  shows "spec_ports_agree spec'"
  using assms(1)
proof (rule apply_vcfg_steps)
  fix s1 s2 s3 s4
  assume 1: "configSharding (wk_listers W) spec v svc = Ok s1"
    and 2: "configAuth (wk_auth_order W) (wk_listers W) (wk_namespace W) s1 v = Ok s2"
    and 3: "configRewrites (configACL s2 v) v = Ok s3"
    and 4: "configReqDisps s3 (vcs_ReqDispositions (vcfg_Spec v)) = Ok s4"
    and 5: "spec' = s4\<lparr>sp_VCL := vcs_VCL (vcfg_Spec v)\<rparr>"
  have "spec_ports_agree s1" by (rule configSharding_ports [OF 1 assms(2)])
  moreover have "spec_ports_agree spec' = spec_ports_agree s1"
    using configAuth_other [OF 2] configRewrites_other [OF 3] configReqDisps_other [OF 4] 5
    by (intro spec_ports_agree_cong) simp_all
  ultimately show ?thesis by simp
qed

lemma auth_loop_no_Panic [simp]: "auth_loop ord L ns i auths \<noteq> Panic"
  by (induction auths arbitrary: i) (auto simp: obind_Panic_iff)

lemma apply_vcfg_no_Panic:
  assumes "vcfg_valid (vcfg_Spec v)"
  shows "apply_vcfg W svc v spec \<noteq> Panic"
proof -
  have 1: "configSharding L spec v svc \<noteq> Panic" for L spec
    using assms by (auto simp: configSharding_Panic_iff vcfg_valid_def)
  have 2: "configAuth ord L ns s v \<noteq> Panic" for ord L ns s
    by (simp add: configAuth_def obind_Panic_iff)
  have "omap configRewrite rws \<noteq> Panic" for rws
    by (induction rws) (auto simp: obind_Panic_iff)
  then have 3: "configRewrites s v \<noteq> Panic" for s by (simp add: configRewrites_def obind_Panic_iff)
  have 4: "configReqDisps s (vcs_ReqDispositions (vcfg_Spec v)) \<noteq> Panic" for s
    using assms by (auto simp: configReqDisps_Panic_iff vcfg_valid_def reqdisp_valid_def)
  show ?thesis by (simp add: apply_vcfg_def obind_Panic_iff 1 2 3 4)
qed

section \<open>Building a configuration\<close>

text \<open>What the listers must provide for a build that cannot panic.\<close>

definition sources_ok :: "'w Worker \<Rightarrow> Ingress list \<Rightarrow> bool" where
  "sources_ok W ings \<longleftrightarrow>
     bcfgs_safe (wk_listers W) \<and> length (filter has_default ings) \<le> 1
     \<and> (\<forall>vcfgs. l_vcfg_List (wk_listers W) (wk_namespace W) = Inr vcfgs \<longrightarrow>
          (\<forall>v \<in> set vcfgs. vcfg_valid (vcfg_Spec v)))"

lemma select_vcfg_in:
  "select_vcfg n vcfgs = Some v \<Longrightarrow> v \<in> set vcfgs \<and> n \<in> set (vcs_Services (vcfg_Spec v))"
proof -
  have "fold (\<lambda>v acc. if n \<in> set (vcs_Services (vcfg_Spec v)) then Some v else acc) vcfgs a = Some v \<Longrightarrow>
      a = Some v \<or> v \<in> set vcfgs \<and> n \<in> set (vcs_Services (vcfg_Spec v))" for a
    by (induction vcfgs arbitrary: a) (fastforce split: if_split_asm)+
  then show "select_vcfg n vcfgs = Some v \<Longrightarrow> v \<in> set vcfgs \<and> n \<in> set (vcs_Services (vcfg_Spec v))"
    unfolding select_vcfg_def by blast
qed

lemma build_config_no_Panic:
  assumes "sources_ok W ings"
  shows "build_config W svc ings \<noteq> Panic"
proof -
  have 1: "ings2VCLSpec (wk_listers W) ings \<noteq> Panic"
    using assms by (intro ings2VCLSpec_no_Panic) (simp_all add: sources_ok_def)
  have 2: "(case select_vcfg n vcfgs of None \<Rightarrow> Ok spec | Some v \<Rightarrow> apply_vcfg W svc v spec) \<noteq> Panic"
    if "l_vcfg_List (wk_listers W) (wk_namespace W) = Inr vcfgs" for vcfgs spec n
  proof (cases "select_vcfg n vcfgs")
    case (Some v)
    then have "v \<in> set vcfgs" using select_vcfg_in by blast
    with assms that have "vcfg_valid (vcfg_Spec v)" by (simp add: sources_ok_def)
    with Some show ?thesis by (simp add: apply_vcfg_no_Panic)
  qed simp
  show ?thesis
    unfolding build_config_def obind_Panic_iff Let_def
    using 1 2 by (auto simp: obind_Panic_iff)
qed

definition config_good :: "IngConfig \<Rightarrow> bool" where
  "config_good cfg \<longleftrightarrow>
     conds_renderable (ic_spec cfg) \<and> nodes_addressed (ic_spec cfg)
     \<and> spec_ports_agree (ic_spec cfg) \<and> gm_ok (ic_ings cfg) \<and> gm_ok (ic_bcfg cfg)"

text \<open>The map of BackendConfigs is a map.\<close>

lemma put_bcfg_ok [simp]: "gm_ok m \<Longrightarrow> gm_ok (put_bcfg n b m)"
  by (cases b) auto

lemma put_service_snd [simp]: "snd (put_service k svc b st) = put_bcfg (svc_Name svc) b (snd st)"
  by (simp add: put_service_def)

lemma path_step_bcfgs: "path_step L ns p st = Ok st' \<Longrightarrow> gm_ok (snd (snd st)) \<Longrightarrow> gm_ok (snd (snd st'))"
  by (auto simp: path_step_def obind_Ok_iff)

lemma rule_step_bcfgs:
  assumes "rule_step L ns r st = Ok st'" and "gm_ok (snd st)"
  shows "gm_ok (snd st')"
proof (cases "ir_HTTP r")
  case None
  with assms show ?thesis by (auto simp: rule_step_def add_rule_def split: if_split_asm)
next
  case (Some paths)
  with assms(1) obtain r1 t where
    loop: "ofold (path_step L ns) paths (\<lparr>rule_Host = ir_Host r, rule_PathMap = []\<rparr>, st) = Ok (r1, t)"
    and st': "st' = add_rule r1 t"
    by (auto simp: rule_step_def obind_Ok_iff split: if_split_asm)
  have "gm_ok (snd (snd (r1, t)))"
    by (rule ofold_invariant [OF loop, where P = "\<lambda>s. gm_ok (snd (snd s))"])
      (use assms(2) path_step_bcfgs in auto)
  then show ?thesis by (simp add: st' add_rule_def)
qed

lemma ing_step_bcfgs:
  assumes "ing_step L ing st = Ok st'" and "gm_ok (snd st)"
  shows "gm_ok (snd st')"
proof -
  from assms(1) obtain t where
    t: "(case ing_Backend ing of None \<Rightarrow> Ok st | Some b \<Rightarrow> default_step L (ing_ns ing) b st) = Ok t"
    and loop: "ofold (rule_step L (ing_ns ing)) (ing_Rules ing) t = Ok st'"
    by (auto simp: ing_step_def obind_Ok_iff)
  have "gm_ok (snd t)"
    using t assms(2)
    by (auto simp: default_step_def obind_Ok_iff split: option.split_asm if_split_asm)
  then show ?thesis
    by (rule ofold_invariant [OF loop, where P = "\<lambda>s. gm_ok (snd s)"]) (rule rule_step_bcfgs)
qed

lemma ings2VCLSpec_bcfgs: "ings2VCLSpec L ings = Ok (spec, bcfgs) \<Longrightarrow> gm_ok bcfgs"
  unfolding ings2VCLSpec_def
  by (drule ofold_invariant [where P = "\<lambda>st. gm_ok (snd st)"]) (auto dest: ing_step_bcfgs)

lemma build_ok_disps:
  assumes "ings2VCLSpec L ings = Ok (spec, bcfgs)"
  shows "conds_renderable spec" and "nodes_addressed spec"
proof -
  have p: "path_step L ns p s = Ok s' \<Longrightarrow>
      sp_Dispositions (fst (snd s')) = sp_Dispositions (fst (snd s))" for ns p s s'
    by (auto simp: path_step_def obind_Ok_iff put_service_def)
  have r: "sp_Dispositions (fst s') = sp_Dispositions (fst s)" if "rule_step L ns r s = Ok s'" for ns r s s'
  proof (cases "ir_HTTP r")
    case None
    with that show ?thesis by (auto simp: rule_step_def add_rule_def split: if_split_asm)
  next
    case (Some paths)
    with that obtain r1 t where
      loop: "ofold (path_step L ns) paths (\<lparr>rule_Host = ir_Host r, rule_PathMap = []\<rparr>, s) = Ok (r1, t)"
      and s': "s' = add_rule r1 t"
      by (auto simp: rule_step_def obind_Ok_iff split: if_split_asm)
    have "sp_Dispositions (fst (snd (r1, t))) = sp_Dispositions (fst s)"
      by (rule ofold_invariant [OF loop, where P = "\<lambda>x. sp_Dispositions (fst (snd x)) = sp_Dispositions (fst s)"])
        (use p in auto)
    then show ?thesis by (simp add: s' add_rule_def)
  qed
  have i: "sp_Dispositions (fst s') = sp_Dispositions (fst s)" if "ing_step L ing s = Ok s'" for ing s s'
  proof -
    from that obtain t where
      t: "(case ing_Backend ing of None \<Rightarrow> Ok s | Some b \<Rightarrow> default_step L (ing_ns ing) b s) = Ok t"
      and loop: "ofold (rule_step L (ing_ns ing)) (ing_Rules ing) t = Ok s'"
      by (auto simp: ing_step_def obind_Ok_iff)
    have "sp_Dispositions (fst t) = sp_Dispositions (fst s)"
      using t by (auto simp: default_step_def obind_Ok_iff put_service_def
          split: option.split_asm if_split_asm)
    moreover have "sp_Dispositions (fst s') = sp_Dispositions (fst t)"
      by (rule ofold_invariant [OF loop, where P = "\<lambda>x. sp_Dispositions (fst x) = sp_Dispositions (fst t)"])
        (use r in auto)
    ultimately show ?thesis by simp
  qed
  have "sp_Dispositions (fst (spec, bcfgs)) = []"
    by (rule ofold_invariant [OF assms [unfolded ings2VCLSpec_def],
          where P = "\<lambda>x. sp_Dispositions (fst x) = []"]) (use i in \<open>auto simp: zero_Spec_def\<close>)
  then show "conds_renderable spec" by (simp add: conds_renderable_def)
  show "nodes_addressed spec"
    using ings2VCLSpec_ok [OF assms] by (simp add: build_ok_def nodes_addressed_def)
qed

lemma build_config_good:
  assumes "build_config W svc ings = Ok cfg" and "sources_ok W ings"
  shows "config_good cfg"
proof -
  from assms(1) obtain spec bcfgs vcfgs spec' where
    1: "ings2VCLSpec (wk_listers W) ings = Ok (spec, bcfgs)"
    and 2: "l_vcfg_List (wk_listers W) (wk_namespace W) = Inr vcfgs"
    and 3: "(case select_vcfg (ks_Name svc) vcfgs of
        None \<Rightarrow> Ok spec | Some v \<Rightarrow> apply_vcfg W svc v spec) = Ok spec'"
    and 4: "ic_spec cfg = spec'" "ic_ings cfg = ings_meta ings"
      "ic_bcfg cfg = gm_map (\<lambda>b. meta_of (bcfg_Meta b)) bcfgs"
    by (auto simp: build_config_def obind_Ok_iff Let_def)
  note d = build_ok_disps [OF 1]
  note p = build_ok_ports [OF ings2VCLSpec_ok [OF 1]]
  have "conds_renderable spec' \<and> nodes_addressed spec' \<and> spec_ports_agree spec'"
  proof (cases "select_vcfg (ks_Name svc) vcfgs")
    case None
    with 3 d p show ?thesis by simp
  next
    case (Some v)
    then have "v \<in> set vcfgs" using select_vcfg_in by blast
    with assms(2) 2 have "vcfg_valid (vcfg_Spec v)" by (simp add: sources_ok_def)
    moreover from 3 Some have a: "apply_vcfg W svc v spec = Ok spec'" by simp
    ultimately show ?thesis using apply_vcfg_good [OF a _ d] apply_vcfg_ports [OF a p] by blast
  qed
  then show ?thesis
    using ings2VCLSpec_bcfgs [OF 1] by (simp add: config_good_def 4 ings_meta_def)
qed

section \<open>Installing a configuration\<close>

text \<open>A service whose configuration counts as loaded has one.\<close>

definition loaded_has_spec :: "string \<Rightarrow> 'w Controller \<Rightarrow> bool" where
  "loaded_has_spec k vc \<longleftrightarrow>
     (\<forall>svc. gm_get (vc_svcs vc) k = Some svc \<longrightarrow> vs_cfgLoaded svc \<longrightarrow> vs_spec svc \<noteq> None)"

lemma HasConfig_Panic_iff:
  "HasConfig k spec im vm bm vc = Panic \<longleftrightarrow> \<not> loaded_has_spec k vc"
  by (auto simp: HasConfig_def loaded_has_spec_def split: option.split)

lemma HasConfig_no_Err: "HasConfig k spec im vm bm vc \<noteq> Err e"
  by (auto simp: HasConfig_def split: option.split)

lemma vc_call_no_Panic [simp]: "fst (vc_call f st) \<noteq> Panic"
  by (auto simp: vc_call_def split: prod.split option.split)

lemma install_config_Panic_iff:
  "fst (install_config W k cfg st) = Panic \<longleftrightarrow> \<not> loaded_has_spec k (ws_vc st)"
proof (cases "HasConfig k (Canonical_effect (ic_spec cfg)) (ic_ings cfg) (ic_vcfg cfg) (ic_bcfg cfg)
    (ws_vc st)")
  case (Ok r)
  then have "loaded_has_spec k (ws_vc st)" by (metis HasConfig_Panic_iff outcome.distinct(3))
  with Ok show ?thesis by (auto simp: install_config_def split: prod.split bool.split)
next
  case (Err e)
  then show ?thesis by (simp add: HasConfig_no_Err)
next
  case Panic
  then have "\<not> loaded_has_spec k (ws_vc st)" using HasConfig_Panic_iff by blast
  with Panic show ?thesis by (simp add: install_config_def)
qed

text \<open>The side effects of \<open>Canonical\<close> leave the good properties alone.\<close>

lemma cond_renderable_canon [simp]: "cond_renderable (canon_cond c) = cond_renderable c"
proof -
  have "mset (sort_strings vs) = mset vs" for vs by simp
  then have "sort_strings vs = [] \<longleftrightarrow> vs = []" and "length (sort_strings vs) = length vs" for vs
    by (metis mset_zero_iff, metis size_mset)
  then show ?thesis
    by (simp add: cond_renderable_def canon_cond_def reqNeedsMatcher_def split: CompareType.split)
qed

lemma canon_svc_addressed [simp]: "svc_Addresses (canon_svc n) = [] \<longleftrightarrow> svc_Addresses n = []"
proof -
  have "mset (canon_addrs xs) = mset xs" for xs by (simp add: canon_addrs_def)
  then have "canon_addrs xs = [] \<longleftrightarrow> xs = []" for xs by (metis mset_zero_iff)
  then show ?thesis by (simp add: canon_svc_def)
qed

lemma effect_renderable [simp]: "conds_renderable (Canonical_effect s) = conds_renderable s"
  by (simp add: conds_renderable_def Canonical_effect_def canon_disp_def)

lemma effect_addressed [simp]: "nodes_addressed (Canonical_effect s) = nodes_addressed s"
  by (simp add: nodes_addressed_def Canonical_effect_def canon_shard_def)

lemma addOrUpdateIng_no_Panic:
  assumes "\<And>svc ings. getVarnishSvcForIng (wk_listers W) (wk_namespace W) ing = Ok (Some svc) \<Longrightarrow>
      getIngsForVarnishSvc (wk_listers W) (wk_namespace W) (wk_ingClass W) svc = Ok ings \<Longrightarrow>
      sources_ok W ings \<and> loaded_has_spec (svc_key svc) (ws_vc st)"
  shows "fst (addOrUpdateIng W ing st) \<noteq> Panic"
proof -
  have b: "ings_loop L cls svc a n ings \<noteq> Panic" for L cls svc a n ings
    by (induction ings)
      (auto simp: obind_Panic_iff ing_for_svc_def split_target_def split: option.split_asm)
  have 2: "getIngsForVarnishSvc L ns cls svc \<noteq> Panic" for L ns cls svc
    by (simp add: getIngsForVarnishSvc_def obind_Panic_iff b)
  have one: "(case xs of [x] \<Rightarrow> Ok (Some x) | _ \<Rightarrow> r) \<noteq> Panic" if "r \<noteq> Panic"
    for xs :: "KService list" and r :: "(ctl_error, KService option) outcome"
    using that by (simp split: list.split)
  have 1: "getVarnishSvcForIng L ns ing \<noteq> Panic" for L ns ing
    unfolding getVarnishSvcForIng_def obind_Panic_iff
    by (auto simp: one obind_Panic_iff split_target_def split: option.split_asm)
  have c: "fst (with_ok (build_config W svc ings) (install_config W (svc_key svc)) st) \<noteq> Panic"
    if "sources_ok W ings" "loaded_has_spec (svc_key svc) (ws_vc st)" for svc ings
  proof (cases "build_config W svc ings")
    case (Ok cfg)
    with that(2) install_config_Panic_iff [of W "svc_key svc" cfg st]
    show ?thesis by simp
  qed (use build_config_no_Panic [OF that(1)] in simp_all)
  show ?thesis
  proof (cases "getVarnishSvcForIng (wk_listers W) (wk_namespace W) ing")
    case (Ok r)
    show ?thesis
    proof (cases r)
      case None
      with Ok show ?thesis by (simp add: addOrUpdateIng_def)
    next
      case (Some svc)
      show ?thesis
      proof (cases "getIngsForVarnishSvc (wk_listers W) (wk_namespace W) (wk_ingClass W) svc")
        case (Ok ings)
        with \<open>getVarnishSvcForIng _ _ _ = Ok r\<close> Some assms [of svc ings] c [of ings svc]
        show ?thesis by (simp add: addOrUpdateIng_def)
      next
        case (Err e)
        with \<open>getVarnishSvcForIng _ _ _ = Ok r\<close> Some show ?thesis
          by (simp add: addOrUpdateIng_def)
      qed (use 2 in blast)
    qed
  next
    case (Err e)
    then show ?thesis by (simp add: addOrUpdateIng_def)
  qed (use 1 in blast)
qed

text \<open>
  An update that succeeds, and the check that follows it: the same configuration is found loaded,
  and installing it again sends no command to any instance.
\<close>

lemma configName_effect: "spec_ports_agree s \<Longrightarrow> configName (Canonical_effect s) = configName s"
  by (simp add: configName_def Canonical_of_effect)

lemma HasConfig_spec:
  assumes "HasConfig k spec im vm bm vc = Ok (b, s, vc')" and "spec_ports_agree spec"
  shows "Canonical s = Canonical spec \<and> spec_ports_agree s \<and> configName s = configName spec"
proof -
  have "s = spec \<or> s = Canonical_effect spec"
    using assms(1) by (auto simp: HasConfig_def split: option.split_asm if_split_asm)
  with assms(2) show ?thesis by (auto simp: Canonical_of_effect configName_effect)
qed

lemma HasConfig_after:
  assumes "gm_get (vc_svcs vc) k = Some svc" and "vs_cfgLoaded svc"
    and "vs_spec svc = Some \<lparr>vm_spec = s, vm_ings = im, vm_vcfg = vm, vm_bcfg = bm\<rparr>"
    and "gm_ok im" and "gm_ok bm" and "Canonical s = Canonical spec"
  shows "\<exists>s' vc'. HasConfig k spec im vm bm vc = Ok (True, s', vc') \<and> vc_world vc' = vc_world vc"
proof -
  from HasConfig_iff [where vm = vm and spec = spec, OF assms(1,3,4,5)] assms
  obtain s' vc' where h: "HasConfig k spec im vm bm vc = Ok (True, s', vc')" by auto
  moreover from h assms(1-3) have "vc_world vc' = vc_world vc"
    by (auto simp: HasConfig_def split: if_split_asm)
  ultimately show ?thesis by blast
qed

context varnish_admin
begin

lemma install_config_installs:
  assumes "install_config W k cfg st = (Ok (), st')" and "wk_admin W = ADM"
    and "addrs_distinct (ws_vc st)" and "config_good cfg"
    and "HasConfig k (Canonical_effect (ic_spec cfg)) (ic_ings cfg) (ic_vcfg cfg) (ic_bcfg cfg)
           (ws_vc st) = Ok (False, s, vc1)"
  shows "\<exists>svc s'. gm_get (vc_svcs (ws_vc st')) k = Some svc \<and> vs_cfgLoaded svc
     \<and> vs_instances svc \<noteq> []
     \<and> vs_spec svc = Some \<lparr>vm_spec = s', vm_ings = ic_ings cfg, vm_vcfg = ic_vcfg cfg,
           vm_bcfg = ic_bcfg cfg\<rparr> \<and> Canonical s' = Canonical (ic_spec cfg)
     \<and> (\<forall>i \<in> set (vs_instances svc).
          configured (configName (ic_spec cfg)) (vcls (vi_addr i) (vc_world (ws_vc st'))))"
proof -
  have p: "spec_ports_agree (ic_spec cfg)" using assms(4) by (simp add: config_good_def)
  from HasConfig_spec [OF assms(5)] p
  have s: "Canonical s = Canonical (ic_spec cfg)" "spec_ports_agree s"
    "configName s = configName (ic_spec cfg)"
    by (simp_all add: Canonical_of_effect configName_effect)
  from assms obtain vc2 where
    u: "Update ADM k s (ic_ings cfg) (ic_vcfg cfg) (ic_bcfg cfg) vc1 = (None, vc2)"
    and st': "st' = st\<lparr>ws_vc := vc2\<rparr>"
    by (auto simp: install_config_def vc_call_def split: prod.split_asm option.split_asm)
  from Update_configured [OF u HasConfig_distinct [OF assms(5,3)]] obtain svc where
    "gm_get (vc_svcs vc2) k = Some svc" "vs_cfgLoaded svc" "vs_instances svc \<noteq> []"
    "vs_spec svc = Some \<lparr>vm_spec = Canonical_effect s, vm_ings = ic_ings cfg, vm_vcfg = ic_vcfg cfg,
       vm_bcfg = ic_bcfg cfg\<rparr>"
    "\<forall>i \<in> set (vs_instances svc). configured (configName s) (vcls (vi_addr i) (vc_world vc2))"
    by blast
  moreover have "Canonical (Canonical_effect s) = Canonical (ic_spec cfg)"
    using s by (simp add: Canonical_of_effect)
  ultimately show ?thesis using s(3) by (simp add: st')
qed

text \<open>Installing the same configuration again changes nothing at any instance.\<close>

lemma install_config_again:
  assumes "install_config W k cfg st = (Ok (), st')" and "wk_admin W = ADM"
    and "addrs_distinct (ws_vc st)" and "config_good cfg"
    and "HasConfig k (Canonical_effect (ic_spec cfg)) (ic_ings cfg) (ic_vcfg cfg) (ic_bcfg cfg)
           (ws_vc st) = Ok (False, s, vc1)"
  shows "\<exists>st''. install_config W k cfg st' = (Ok (), st'')
     \<and> vc_world (ws_vc st'') = vc_world (ws_vc st') \<and> ws_queue st'' = ws_queue st'"
proof -
  have g: "spec_ports_agree (ic_spec cfg)" "gm_ok (ic_ings cfg)" "gm_ok (ic_bcfg cfg)"
    using assms(4) by (simp_all add: config_good_def)
  from install_config_installs [OF assms] obtain svc s' where
    svc: "gm_get (vc_svcs (ws_vc st')) k = Some svc" "vs_cfgLoaded svc"
    "vs_spec svc = Some \<lparr>vm_spec = s', vm_ings = ic_ings cfg, vm_vcfg = ic_vcfg cfg,
           vm_bcfg = ic_bcfg cfg\<rparr>" and s': "Canonical s' = Canonical (ic_spec cfg)"
    by blast
  have "Canonical s' = Canonical (Canonical_effect (ic_spec cfg))"
    using s' g(1) by (simp add: Canonical_of_effect)
  from HasConfig_after [OF svc g(2,3) this] obtain t vc' where
    "HasConfig k (Canonical_effect (ic_spec cfg)) (ic_ings cfg) (ic_vcfg cfg) (ic_bcfg cfg)
       (ws_vc st') = Ok (True, t, vc')" "vc_world vc' = vc_world (ws_vc st')" by blast
  then show ?thesis by (auto simp: install_config_def)
qed

end

section \<open>Map order\<close>

text \<open>The order in which the map of a Secret is visited does not show in the canonical form.\<close>

lemma configAuth1_perm:
  assumes "mset (p (secr_Data secret)) = mset (q (secr_Data secret))"
  shows "auth_perm (configAuth1 p auth secret) (configAuth1 q auth secret)"
  using assms by (simp add: auth_perm_def configAuth1_def)

lemma auth_loop_perm:
  assumes "\<And>i xs. mset (p i xs) = mset (q i xs)"
    and "auth_loop p L ns i auths = Ok xs" and "auth_loop q L ns i auths = Ok ys"
  shows "list_all2 auth_perm xs ys"
  using assms(2,3)
proof (induction auths arbitrary: i xs ys)
  case (Cons a auths)
  from Cons.prems obtain secret rest rest' where s: "l_secr_Get L ns (as_SecretName a) = Inr secret"
    and r: "auth_loop p L ns (Suc i) auths = Ok rest" "auth_loop q L ns (Suc i) auths = Ok rest'"
    and xs: "xs = (if secr_Data secret = [] then rest else configAuth1 (p i) a secret # rest)"
    and ys: "ys = (if secr_Data secret = [] then rest' else configAuth1 (q i) a secret # rest')"
    by (auto simp: obind_Ok_iff)
  from Cons.IH [OF r] configAuth1_perm [of "p i" secret "q i" a, OF assms(1)] show ?case by (simp add: xs ys)
qed simp

lemma canon_auths_listwise:
  assumes "list_all2 auth_perm xs ys"
  shows "map canon_auth (stable_sort byRealm_Less xs) = map canon_auth (stable_sort byRealm_Less ys)"
proof -
  have "map canon_auth xs = map canon_auth ys"
    by (rule map_norm_list_all2 [OF assms]) (rule auth_perm_canon)
  then have "stable_sort byRealm_Less (map canon_auth xs) = stable_sort byRealm_Less (map canon_auth ys)"
    by simp
  then show ?thesis by (simp add: stable_sort_map)
qed

lemma configAuth_order:
  assumes "\<And>i xs. mset (p i xs) = mset (q i xs)"
    and "configAuth p L ns spec v = Ok s" and "configAuth q L ns spec v = Ok t"
  shows "Canonical s = Canonical t"
proof (cases "vcs_Auth (vcfg_Spec v) = []")
  case True
  with assms(2,3) show ?thesis by (simp add: configAuth_def)
next
  case False
  with assms(2,3) obtain xs ys where a: "auth_loop p L ns 0 (vcs_Auth (vcfg_Spec v)) = Ok xs"
    "auth_loop q L ns 0 (vcs_Auth (vcfg_Spec v)) = Ok ys"
    and "s = spec\<lparr>sp_Auths := xs\<rparr>" "t = spec\<lparr>sp_Auths := ys\<rparr>"
    by (auto simp: configAuth_def obind_Ok_iff)
  with canon_auths_listwise [OF auth_loop_perm [OF assms(1) a]] show ?thesis
    by (simp add: Canonical_def)
qed

end
