(* ===== verification/CrdListers.thy ===== *)
theory CrdListers
  imports K8sObjects
begin

text \<open>
  The listers of the custom resources, as generated in \<open>pkg/client/listers/varnishingress/v1alpha1\<close>:
  how they list and look up the objects of the informer's cache.  The cache itself (\<open>cache.Indexer\<close> of
  \<open>client-go\<close>) is outside the repository: a record of functions with the laws of the locale
  \<open>indexer\<close>, and a store that satisfies them.
\<close>

section \<open>The cache\<close>

record 'a indexer =
  ix_ListAll :: "api_error + 'a list"
  ix_ListAllByNamespace :: "string \<Rightarrow> api_error + 'a list"
  ix_GetByKey :: "string \<Rightarrow> api_error + 'a option"

text \<open>
  A list by namespace holds objects of the namespace only (the empty namespace stands for all), an
  object is found under its own key only, and what is listed is found.
\<close>

locale indexer =
  fixes ix :: "'a indexer" and meta :: "'a \<Rightarrow> ObjectMeta"
  assumes by_ns: "ns \<noteq> [] \<Longrightarrow> ix_ListAllByNamespace ix ns = Inr xs \<Longrightarrow> x \<in> set xs \<Longrightarrow>
          om_Namespace (meta x) = ns"
    and by_key: "ix_GetByKey ix k = Inr (Some x) \<Longrightarrow> meta_key (meta x) = k"
    and listed: "ix_ListAllByNamespace ix ns = Inr xs \<Longrightarrow> x \<in> set xs \<Longrightarrow>
          ix_GetByKey ix (meta_key (meta x)) = Inr (Some x)"

section \<open>The listers\<close>

text \<open>All calls of the controller have the selector \<open>labels.Everything()\<close>.\<close>

definition varnishConfigLister_List :: "VarnishConfig indexer \<Rightarrow> api_error + VarnishConfig list" where
  "varnishConfigLister_List s = ix_ListAll s"

definition varnishConfigNamespaceLister_List ::
    "VarnishConfig indexer \<Rightarrow> string \<Rightarrow> api_error + VarnishConfig list" where
  "varnishConfigNamespaceLister_List s ns = ix_ListAllByNamespace s ns"

definition varnishConfigNamespaceLister_Get ::
    "VarnishConfig indexer \<Rightarrow> string \<Rightarrow> string \<Rightarrow> api_error + VarnishConfig" where
  "varnishConfigNamespaceLister_Get s ns name =
     (case ix_GetByKey s (ns @ ''/'' @ name) of
        Inl e \<Rightarrow> Inl e
      | Inr None \<Rightarrow> Inl (NotFound name)
      | Inr (Some obj) \<Rightarrow> Inr obj)"

definition backendConfigLister_List :: "BackendConfig indexer \<Rightarrow> api_error + BackendConfig list" where
  "backendConfigLister_List s = ix_ListAll s"

definition backendConfigNamespaceLister_List ::
    "BackendConfig indexer \<Rightarrow> string \<Rightarrow> api_error + BackendConfig list" where
  "backendConfigNamespaceLister_List s ns = ix_ListAllByNamespace s ns"

definition backendConfigNamespaceLister_Get ::
    "BackendConfig indexer \<Rightarrow> string \<Rightarrow> string \<Rightarrow> api_error + BackendConfig" where
  "backendConfigNamespaceLister_Get s ns name =
     (case ix_GetByKey s (ns @ ''/'' @ name) of
        Inl e \<Rightarrow> Inl e
      | Inr None \<Rightarrow> Inl (NotFound name)
      | Inr (Some obj) \<Rightarrow> Inr obj)"

text \<open>The listers of a worker with these two.\<close>

definition crd_listers :: "VarnishConfig indexer \<Rightarrow> BackendConfig indexer \<Rightarrow> Listers \<Rightarrow> Listers" where
  "crd_listers vs bs L = L
     \<lparr>l_vcfg_List := varnishConfigNamespaceLister_List vs,
      l_vcfg_Get := varnishConfigNamespaceLister_Get vs,
      l_bcfg_List := backendConfigNamespaceLister_List bs,
      l_bcfg_Get := backendConfigNamespaceLister_Get bs\<rparr>"

lemma crd_listers_simps [simp]:
  "l_vcfg_List (crd_listers vs bs L) = varnishConfigNamespaceLister_List vs"
  "l_vcfg_Get (crd_listers vs bs L) = varnishConfigNamespaceLister_Get vs"
  "l_bcfg_List (crd_listers vs bs L) = backendConfigNamespaceLister_List bs"
  "l_bcfg_Get (crd_listers vs bs L) = backendConfigNamespaceLister_Get bs"
  "l_ing_ns_List (crd_listers vs bs L) = l_ing_ns_List L" "l_svc_Get (crd_listers vs bs L) = l_svc_Get L"
  by (simp_all add: crd_listers_def)

context indexer
begin

text \<open>A lookup finds an object of the namespace with the name, provided that neither has a slash.\<close>

lemma key_split:
  assumes "ix_GetByKey ix (ns @ ''/'' @ name) = Inr (Some x)"
    and "CHR ''/'' \<notin> set ns" and "CHR ''/'' \<notin> set (om_Namespace (meta x))"
  shows "om_Namespace (meta x) = ns \<and> om_Name (meta x) = name"
proof -
  have split: "takeWhile (\<lambda>c. c \<noteq> CHR ''/'') (a @ CHR ''/'' # b) = a
      \<and> dropWhile (\<lambda>c. c \<noteq> CHR ''/'') (a @ CHR ''/'' # b) = CHR ''/'' # b"
    if "CHR ''/'' \<notin> set a" for a b :: string
    using that by (induction a) auto
  have "om_Namespace (meta x) @ CHR ''/'' # om_Name (meta x) = ns @ CHR ''/'' # name"
    using by_key [OF assms(1)] by (simp add: meta_key_def)
  from split [OF assms(2), of name] split [OF assms(3), of "om_Name (meta x)"] this show ?thesis by simp
qed

text \<open>What a namespace lists, it finds.\<close>

lemma listed_found:
  assumes "ix_ListAllByNamespace ix ns = Inr xs" and "x \<in> set xs" and "ns \<noteq> []"
  shows "ix_GetByKey ix (ns @ ''/'' @ om_Name (meta x)) = Inr (Some x) \<and> om_Namespace (meta x) = ns"
  using listed [OF assms(1,2)] by_ns [OF assms(3,1,2)] by (simp add: meta_key_def)

end

section \<open>A store\<close>

definition store :: "('a \<Rightarrow> ObjectMeta) \<Rightarrow> 'a list \<Rightarrow> 'a gomap" where
  "store meta objs = gm_of_list (map (\<lambda>x. (meta_key (meta x), x)) objs)"

definition store_indexer :: "('a \<Rightarrow> ObjectMeta) \<Rightarrow> 'a list \<Rightarrow> 'a indexer" where
  "store_indexer meta objs =
     \<lparr>ix_ListAll = Inr (map snd (store meta objs)),
      ix_ListAllByNamespace = (\<lambda>ns. Inr (filter (\<lambda>x. ns = [] \<or> om_Namespace (meta x) = ns)
         (map snd (store meta objs)))),
      ix_GetByKey = (\<lambda>k. Inr (gm_get (store meta objs) k))\<rparr>"

lemma store_key: "gm_get (store meta objs) k = Some x \<Longrightarrow> meta_key (meta x) = k"
  unfolding store_def gm_get_of_list by (auto dest: map_of_SomeD)

lemma store_listed:
  assumes "x \<in> snd ` set (store meta objs)"
  shows "gm_get (store meta objs) (meta_key (meta x)) = Some x"
proof -
  have ok: "gm_ok (store meta objs)" by (simp add: store_def)
  from assms obtain k where "(k, x) \<in> set (store meta objs)" by auto
  then have g: "gm_get (store meta objs) k = Some x" by (simp add: gm_get_in [OF ok])
  with store_key [OF g] show ?thesis by simp
qed

interpretation vcfgs: indexer "store_indexer vcfg_Meta objs" vcfg_Meta for objs
  by unfold_locales (auto simp: store_indexer_def store_key intro: store_listed)

interpretation bcfgs: indexer "store_indexer bcfg_Meta objs" bcfg_Meta for objs
  by unfold_locales (auto simp: store_indexer_def store_key intro: store_listed)

end
