(* ===== verification/Handlers.thy ===== *)
theory Handlers
  imports IngressSync CrdListers VarnishReach
begin

text \<open>
  The handlers of a namespace worker for Services, Endpoints, Secrets, VarnishConfigs and
  BackendConfigs (\<open>service.go\<close>, \<open>endpoints.go\<close>, \<open>secret.go\<close>, \<open>varnishconfig.go\<close> and
  \<open>backendconfig.go\<close> under \<open>pkg/controller\<close>), on the state of IngressSync: the Varnish controller
  and the objects added to the queue of the worker.  What a handler has done before it returns an
  error stays done.
\<close>

section \<open>Sequencing\<close>

text \<open>A step with a result, and the rest of the handler; an error or a panic ends it.\<close>

definition sbind ::
    "('w WState \<Rightarrow> (worker_error, 'a) outcome \<times> 'w WState)
      \<Rightarrow> ('a \<Rightarrow> 'w WState \<Rightarrow> (worker_error, 'b) outcome \<times> 'w WState)
      \<Rightarrow> 'w WState \<Rightarrow> (worker_error, 'b) outcome \<times> 'w WState" where
  "sbind m f st =
     (case m st of
        (Ok x, st') \<Rightarrow> f x st'
      | (Err e, st') \<Rightarrow> (Err e, st')
      | (Panic, st') \<Rightarrow> (Panic, st'))"

definition enqueue_all :: "SyncObj list \<Rightarrow> 'w WState \<Rightarrow> 'w WState" where
  "enqueue_all items st = fold enqueue items st"

lemma enqueue_all_simps [simp]:
  "ws_vc (enqueue_all items st) = ws_vc st"
  "ws_queue (enqueue_all items st) = ws_queue st @ items"
  by (induction items arbitrary: st) (simp_all add: enqueue_all_def enqueue_def)

lemma update_obj_eq [simp]: "update_obj a = update_obj b \<longleftrightarrow> a = b"
  by (simp add: update_obj_def)

section \<open>Services\<close>

abbreviation "labelKey \<equiv> ''app''"
abbreviation "labelVal \<equiv> ''varnish-ingress''"
abbreviation "admPortName \<equiv> ''varnishadm''"
abbreviation "admSecretKey \<equiv> ''admin''"

definition isVarnishIngSvc :: "KService \<Rightarrow> bool" where
  "isVarnishIngSvc svc \<longleftrightarrow> gm_get (om_Labels (ks_Meta svc)) labelKey = Some labelVal"

text \<open>The backends of an Ingress in the order the source visits them.\<close>

definition ing_backends :: "Ingress \<Rightarrow> IngressBackend list" where
  "ing_backends ing =
     (case ing_Backend ing of None \<Rightarrow> [] | Some b \<Rightarrow> [b])
     @ concat (map (\<lambda>r. case ir_HTTP r of None \<Rightarrow> [] | Some paths \<Rightarrow> map ip_Backend paths)
         (ing_Rules ing))"

text \<open>An Ingress is in the result once for each of its backends that names the service.\<close>

definition getIngsForSvc :: "'w Worker \<Rightarrow> KService \<Rightarrow> (ctl_error, Ingress list) outcome" where
  "getIngsForSvc W svc =
     obind (lift_api (l_ing_ns_List (wk_listers W) (wk_namespace W))) (\<lambda>allIngs.
       Ok (concat (map (\<lambda>ing.
         if ing_Namespace ing \<noteq> ks_Namespace svc then []
         else map (\<lambda>_. ing) (filter (\<lambda>b. ib_ServiceName b = ks_Name svc) (ing_backends ing)))
         allIngs)))"

definition enqueueIngressForService :: "'w Worker \<Rightarrow> KService \<Rightarrow> 'w handler" where
  "enqueueIngressForService W svc =
     with_ok (getIngsForSvc W svc) (\<lambda>ings st.
       (Ok (), enqueue_all
          (map (\<lambda>ing. update_obj (OIngress ing)) (filter (isVarnishIngress (wk_ingClass W)) ings)) st))"

definition isVarnishInVCLSpec :: "'w Worker \<Rightarrow> bool" where
  "isVarnishInVCLSpec W =
     (case l_vcfg_List (wk_listers W) (wk_namespace W) of
        Inl _ \<Rightarrow> False
      | Inr vcfgs \<Rightarrow> list_ex (\<lambda>v. vcs_SelfSharding (vcfg_Spec v) \<noteq> None) vcfgs)"

text \<open>The loop of \<open>syncSvc\<close> over the Ingresses, with the variable \<open>updateVCL\<close>.\<close>

fun requeue_loop ::
    "'w Worker \<Rightarrow> KService \<Rightarrow> bool \<Rightarrow> Ingress list \<Rightarrow> 'w WState \<Rightarrow> (worker_error, bool) outcome \<times> 'w WState" where
  "requeue_loop W svc updateVCL [] st = (Ok updateVCL, st)"
| "requeue_loop W svc updateVCL (ing # ings) st =
     (if ing_Namespace ing \<noteq> ks_Namespace svc then requeue_loop W svc updateVCL ings st
      else
        (case getVarnishSvcForIng (wk_listers W) (wk_namespace W) ing of
           Err e \<Rightarrow> (Err (CtlErr e), st)
         | Panic \<Rightarrow> (Panic, st)
         | Ok None \<Rightarrow> requeue_loop W svc updateVCL ings st
         | Ok (Some ingSvc) \<Rightarrow>
             if ks_Namespace ingSvc \<noteq> ks_Namespace svc \<or> ks_Name ingSvc \<noteq> ks_Name svc
             then requeue_loop W svc updateVCL ings st
             else if \<not> isVarnishInVCLSpec W then requeue_loop W svc updateVCL ings st
             else requeue_loop W svc True ings (enqueue (update_obj (OIngress ing)) st)))"

text \<open>The first Pod of the service, and the secret its first secret volume names.\<close>

definition first_pod :: "Listers \<Rightarrow> KService \<Rightarrow> (ctl_error, Pod) outcome" where
  "first_pod L svc =
     (case l_pods L svc of
        Inl e \<Rightarrow> Err (PodInfoErr e)
      | Inr [] \<Rightarrow> Err (NoPodsOfService (svc_key svc))
      | Inr (pod # _) \<Rightarrow> Ok pod)"

definition pod_secret :: "Pod \<Rightarrow> string" where
  "pod_secret pod = (case find (\<lambda>v. v \<noteq> None) (pod_Volumes pod) of Some (Some n) \<Rightarrow> n | _ \<Rightarrow> [])"

definition adm_port :: "EndpointPort list \<Rightarrow> int32" where
  "adm_port ports = (case find (\<lambda>p. ep_Name p = admPortName) ports of None \<Rightarrow> 0 | Some p \<Rightarrow> ep_Port p)"

fun admin_addrs :: "string \<Rightarrow> EndpointSubset list \<Rightarrow> (ctl_error, Address list) outcome" where
  "admin_addrs key [] = Ok []"
| "admin_addrs key (s # ss) =
     (if adm_port (es_Ports s) = 0 then Err (NoAdminPort key)
      else obind (admin_addrs key ss) (\<lambda>rest.
        Ok (map (\<lambda>ip. \<lparr>addr_IP = ip, addr_Port = adm_port (es_Ports s)\<rparr>) (es_Addresses s) @ rest)))"

definition setSecret :: "Secret \<Rightarrow> 'w handler" where
  "setSecret secret st =
     (case gm_get (secr_Data secret) admSecretKey of
        None \<Rightarrow> (Err (CtlErr (SecretWithoutKey (meta_key (secr_Meta secret)))), st)
      | Some d \<Rightarrow> (Ok (), st\<lparr>ws_vc := SetAdmSecret (meta_key (secr_Meta secret)) d (ws_vc st)\<rparr>))"

text \<open>A secret that cannot be read is logged; one without the key \<open>admin\<close> is an error.\<close>

definition register_secret :: "'w Worker \<Rightarrow> string \<Rightarrow> 'w handler" where
  "register_secret W secrName st =
     (if secrName = [] then (Ok (), st)
      else
        (case l_secr_Get (wk_listers W) (wk_namespace W) secrName of
           Inl _ \<Rightarrow> (Ok (), st)
         | Inr secret \<Rightarrow> setSecret secret st))"

text \<open>The part of \<open>syncSvc\<close> for a Varnish Service.\<close>

definition syncVarnishSvc :: "'w Worker \<Rightarrow> KService \<Rightarrow> 'w handler" where
  "syncVarnishSvc W svc =
     with_ok (lift_api (l_ing_ns_List (wk_listers W) (wk_namespace W))) (\<lambda>ings.
     sbind (requeue_loop W svc False ings) (\<lambda>updateVCL.
     with_ok (getServiceEndpoints (wk_listers W) svc) (\<lambda>endps.
     with_ok (first_pod (wk_listers W) svc) (\<lambda>pod.
     sbind (register_secret W (pod_secret pod)) (\<lambda>_.
     with_ok (admin_addrs (svc_key svc) (endp_Subsets endps)) (\<lambda>addrs.
       vc_call (AddOrUpdateVarnishSvc (wk_admin W) (wk_addr_order W) (svc_key svc) addrs
         (wk_namespace W @ ''/'' @ pod_secret pod) (\<not> updateVCL))))))))"

definition syncSvc :: "'w Worker \<Rightarrow> string \<Rightarrow> 'w handler" where
  "syncSvc W key =
     with_ok (lift_api (l_svc_Get (wk_listers W) (wk_namespace W) key)) (\<lambda>svc.
       if \<not> isVarnishIngSvc svc then enqueueIngressForService W svc else syncVarnishSvc W svc)"

definition deleteSvc :: "'w Worker \<Rightarrow> KObj \<Rightarrow> 'w handler" where
  "deleteSvc W obj st =
     (case obj of
        OService svc \<Rightarrow>
          if \<not> isVarnishIngSvc svc then enqueueIngressForService W svc st
          else vc_call (DeleteVarnishSvc (wk_admin W) (svc_key svc)) st
      | _ \<Rightarrow> (Ok (), st))"

section \<open>Endpoints\<close>

fun sync_ings :: "'w Worker \<Rightarrow> Ingress list \<Rightarrow> 'w handler" where
  "sync_ings W [] st = (Ok (), st)"
| "sync_ings W (ing # ings) st =
     (if \<not> isVarnishIngress (wk_ingClass W) ing then sync_ings W ings st
      else sbind (addOrUpdateIng W ing) (\<lambda>_. sync_ings W ings) st)"

definition syncEndp :: "'w Worker \<Rightarrow> string \<Rightarrow> 'w handler" where
  "syncEndp W key st =
     (case l_svc_Get (wk_listers W) (wk_namespace W) key of
        Inl _ \<Rightarrow> (Ok (), st)
      | Inr svc \<Rightarrow>
          if isVarnishIngSvc svc then (Ok (), enqueue (update_obj (OService svc)) st)
          else with_ok (getIngsForSvc W svc) (\<lambda>ings. sync_ings W ings) st)"

definition deleteEndp :: "'w Worker \<Rightarrow> KObj \<Rightarrow> 'w handler" where
  "deleteEndp W obj st =
     (case obj of OEndpoints endp \<Rightarrow> syncEndp W (om_Name (endp_Meta endp)) st | _ \<Rightarrow> (Ok (), st))"

section \<open>Secrets\<close>

text \<open>A service is in the result once for each volume of its first Pod that names the secret.\<close>

fun secret_svcs :: "Listers \<Rightarrow> string \<Rightarrow> KService list \<Rightarrow> (ctl_error, KService list) outcome" where
  "secret_svcs L secretName [] = Ok []"
| "secret_svcs L secretName (svc # svcs) =
     (case l_pods L svc of
        Inl e \<Rightarrow> Err (PodInfoErr e)
      | Inr [] \<Rightarrow> secret_svcs L secretName svcs
      | Inr (pod # _) \<Rightarrow>
          obind (secret_svcs L secretName svcs) (\<lambda>rest.
            Ok (map (\<lambda>_. svc) (filter (\<lambda>v. v = Some secretName) (pod_Volumes pod)) @ rest)))"

definition getVarnishSvcsForSecret :: "'w Worker \<Rightarrow> string \<Rightarrow> (ctl_error, KService list) outcome" where
  "getVarnishSvcsForSecret W secretName =
     obind (lift_api (l_svc_ns_List (wk_listers W) (wk_namespace W)))
       (secret_svcs (wk_listers W) secretName)"

definition updateVcfgsForSecret :: "'w Worker \<Rightarrow> string \<Rightarrow> 'w handler" where
  "updateVcfgsForSecret W secrName =
     with_ok (lift_api (l_vcfg_List (wk_listers W) (wk_namespace W))) (\<lambda>vs st.
       (Ok (), enqueue_all
          (concat (map (\<lambda>v. map (\<lambda>_. update_obj (OVarnishConfig v))
             (filter (\<lambda>auth. as_SecretName auth = secrName) (vcs_Auth (vcfg_Spec v)))) vs)) st))"

fun updateVarnishSvcsForSecret :: "'w Worker \<Rightarrow> KService list \<Rightarrow> string \<Rightarrow> 'w handler" where
  "updateVarnishSvcsForSecret W [] secretKey st = (Ok (), st)"
| "updateVarnishSvcsForSecret W (svc # svcs) secretKey st =
     sbind (vc_call (UpdateSvcForSecret (wk_admin W) (svc_key svc) secretKey))
       (\<lambda>_. updateVarnishSvcsForSecret W svcs secretKey) st"

definition syncSecret :: "'w Worker \<Rightarrow> string \<Rightarrow> 'w handler" where
  "syncSecret W key =
     with_ok (lift_api (l_secr_Get (wk_listers W) (wk_namespace W) key)) (\<lambda>secret.
       if gm_get (om_Labels (secr_Meta secret)) labelKey \<noteq> Some labelVal then (\<lambda>st. (Ok (), st))
       else
         with_ok (getVarnishSvcsForSecret W (om_Name (secr_Meta secret))) (\<lambda>svcs.
           if svcs = [] then updateVcfgsForSecret W (om_Name (secr_Meta secret))
           else sbind (setSecret secret) (\<lambda>_.
             updateVarnishSvcsForSecret W svcs (meta_key (secr_Meta secret)))))"

definition deleteSecret :: "'w Worker \<Rightarrow> KObj \<Rightarrow> 'w handler" where
  "deleteSecret W obj st =
     (case obj of
        OSecret secr \<Rightarrow>
          with_ok (getVarnishSvcsForSecret W (om_Name (secr_Meta secr))) (\<lambda>svcs st.
            if svcs = [] then updateVcfgsForSecret W (om_Name (secr_Meta secr)) st
            else updateVarnishSvcsForSecret W svcs (meta_key (secr_Meta secr))
                   (st\<lparr>ws_vc := DeleteAdmSecret (meta_key (secr_Meta secr)) (ws_vc st)\<rparr>)) st
      | _ \<Rightarrow> (Ok (), st))"

section \<open>VarnishConfigs\<close>

text \<open>
  The map \<open>svc2ing\<close>, keyed by the pointers of the Services; None: a Service was not found, which
  ends the handler without an error.
\<close>

fun vcfg_svcs ::
    "'w Worker \<Rightarrow> Ingress list \<Rightarrow> (nat \<rightharpoonup> Ingress) \<Rightarrow> (ctl_error, (nat \<rightharpoonup> Ingress) option) outcome" where
  "vcfg_svcs W [] m = Ok (Some m)"
| "vcfg_svcs W (ing # ings) m =
     (if \<not> isVarnishIngress (wk_ingClass W) ing then vcfg_svcs W ings m
      else
        (case getVarnishSvcForIng (wk_listers W) (wk_namespace W) ing of
           Panic \<Rightarrow> Panic
         | Err (ApiErr (NotFound n)) \<Rightarrow> Ok None
         | Err e \<Rightarrow> Err e
         | Ok None \<Rightarrow> vcfg_svcs W ings m
         | Ok (Some svc) \<Rightarrow> vcfg_svcs W ings (m(ks_Ptr svc \<mapsto> ing))))"

text \<open>The loop over the services of the VarnishConfig, with the set \<open>svcSet\<close> of the names seen.\<close>

fun vcfg_enqueue ::
    "'w Worker \<Rightarrow> (nat \<rightharpoonup> Ingress) \<Rightarrow> string list \<Rightarrow> string list \<Rightarrow> 'w handler" where
  "vcfg_enqueue W m seen [] st = (Ok (), st)"
| "vcfg_enqueue W m seen (svc # svcs) st =
     (if svc \<in> set seen then vcfg_enqueue W m seen svcs st
      else
        (case l_svc_Get (wk_listers W) (wk_namespace W) svc of
           Inl e \<Rightarrow> (Err (CtlErr (ApiErr e)), st)
         | Inr svcObj \<Rightarrow>
             vcfg_enqueue W m (svc # seen) svcs
               (case m (ks_Ptr svcObj) of
                  None \<Rightarrow> st
                | Some ing \<Rightarrow> enqueue (update_obj (OIngress ing)) st)))"

definition enqueueIngsForVcfg :: "'w Worker \<Rightarrow> VarnishConfig \<Rightarrow> 'w handler" where
  "enqueueIngsForVcfg W vcfg st =
     (case l_ing_ns_List (wk_listers W) (wk_namespace W) of
        Inl e \<Rightarrow> (if IsNotFound e then Ok () else Err (CtlErr (ApiErr e)), st)
      | Inr ings \<Rightarrow>
          with_ok (vcfg_svcs W ings Map.empty) (\<lambda>r st.
            case r of
              None \<Rightarrow> (Ok (), st)
            | Some m \<Rightarrow> vcfg_enqueue W m [] (vcs_Services (vcfg_Spec vcfg)) st) st)"

definition cfg_step :: "(cfg_error, unit) outcome \<Rightarrow> (unit \<Rightarrow> 'w handler) \<Rightarrow> 'w handler" where
  "cfg_step r = with_ok (map_err CfgErr r)"

definition syncVcfg :: "'w Worker \<Rightarrow> string \<Rightarrow> 'w handler" where
  "syncVcfg W key =
     with_ok (lift_api (l_vcfg_Get (wk_listers W) (wk_namespace W) key)) (\<lambda>vcfg.
       if vcs_Services (vcfg_Spec vcfg) = [] then (\<lambda>st. (Ok (), st))
       else
         cfg_step (case vcs_SelfSharding (vcfg_Spec vcfg) of
             None \<Rightarrow> Ok () | Some s \<Rightarrow> validateProbe (Some (ss_Probe s))) (\<lambda>_.
         cfg_step (validateRewrites (vcs_Rewrites (vcfg_Spec vcfg))) (\<lambda>_.
         cfg_step (validateReqDisps (vcs_ReqDispositions (vcfg_Spec vcfg))) (\<lambda>_.
           enqueueIngsForVcfg W vcfg))))"

definition deleteVcfg :: "'w Worker \<Rightarrow> KObj \<Rightarrow> 'w handler" where
  "deleteVcfg W obj st =
     (case obj of OVarnishConfig vcfg \<Rightarrow> enqueueIngsForVcfg W vcfg st | _ \<Rightarrow> (Ok (), st))"

section \<open>BackendConfigs\<close>

text \<open>The map \<open>svc2ing\<close>: the last Ingress with a backend of the name.  The class is not checked.\<close>

definition backend_map :: "Ingress list \<Rightarrow> Ingress gomap" where
  "backend_map ings =
     gm_of_list (concat (map (\<lambda>ing. map (\<lambda>b. (ib_ServiceName b, ing)) (ing_backends ing)) ings))"

fun bcfg_enqueue :: "Ingress gomap \<Rightarrow> string list \<Rightarrow> string list \<Rightarrow> SyncObj list" where
  "bcfg_enqueue m seen [] = []"
| "bcfg_enqueue m seen (svc # svcs) =
     (if svc \<in> set seen then bcfg_enqueue m seen svcs
      else
        (case gm_get m svc of
           None \<Rightarrow> bcfg_enqueue m (svc # seen) svcs
         | Some ing \<Rightarrow> update_obj (OIngress ing) # bcfg_enqueue m (svc # seen) svcs))"

definition enqueueIngsForBackendSvcs :: "'w Worker \<Rightarrow> string list \<Rightarrow> 'w handler" where
  "enqueueIngsForBackendSvcs W svcs st =
     (case l_ing_ns_List (wk_listers W) (wk_namespace W) of
        Inl e \<Rightarrow> (if IsNotFound e then Ok () else Err (CtlErr (ApiErr e)), st)
      | Inr ings \<Rightarrow> (Ok (), enqueue_all (bcfg_enqueue (backend_map ings) [] svcs) st))"

definition syncBcfg :: "'w Worker \<Rightarrow> string \<Rightarrow> 'w handler" where
  "syncBcfg W key =
     with_ok (lift_api (l_bcfg_Get (wk_listers W) (wk_namespace W) key)) (\<lambda>bcfg.
       if bcs_Services (bcfg_Spec bcfg) = [] then (\<lambda>st. (Ok (), st))
       else cfg_step (validateProbe (bcs_Probe (bcfg_Spec bcfg))) (\<lambda>_.
         enqueueIngsForBackendSvcs W (bcs_Services (bcfg_Spec bcfg))))"

definition deleteBcfg :: "'w Worker \<Rightarrow> KObj \<Rightarrow> 'w handler" where
  "deleteBcfg W obj st =
     (case obj of
        OBackendConfig bcfg \<Rightarrow> enqueueIngsForBackendSvcs W (bcs_Services (bcfg_Spec bcfg)) st
      | _ \<Rightarrow> (Ok (), st))"

section \<open>What handlers keep\<close>

text \<open>A property of the state that a handler keeps, whatever it returns.\<close>

definition keeps :: "('w WState \<Rightarrow> bool) \<Rightarrow> ('w WState \<Rightarrow> 'r \<times> 'w WState) \<Rightarrow> bool" where
  "keeps P m \<longleftrightarrow> (\<forall>st. P st \<longrightarrow> P (snd (m st)))"

named_theorems keeps_intros

lemma keeps_with_ok [keeps_intros]:
  "(\<And>x. r = Ok x \<Longrightarrow> keeps P (f x)) \<Longrightarrow> keeps P (with_ok r f)"
  by (cases r) (simp_all add: keeps_def)

lemma keeps_cfg_step [keeps_intros]: "keeps P (f ()) \<Longrightarrow> keeps P (cfg_step r f)"
  unfolding cfg_step_def by (rule keeps_with_ok) simp

lemma keeps_sbind [keeps_intros]:
  assumes "keeps P m" and "\<And>x. keeps P (f x)"
  shows "keeps P (sbind m f)"
proof -
  have "P (snd (sbind m f st))" if "P st" for st
  proof (cases "m st")
    case (Pair r st')
    with assms(1) that have "P st'" by (metis keeps_def snd_conv)
    with Pair assms(2) show ?thesis by (cases r) (simp_all add: sbind_def keeps_def)
  qed
  then show ?thesis by (simp add: keeps_def)
qed

lemma keeps_return [keeps_intros]: "keeps P (\<lambda>st. (r, st))"
  by (simp add: keeps_def)

text \<open>
  The interface between the handlers and what is claimed of them: a property \<open>P\<close> of the state and a
  property \<open>okobj\<close> of objects, such that \<open>P\<close> survives a call of the Varnish controller and the
  enqueueing of an object with \<open>okobj\<close>, which the listers of the namespace give.  It has three layers,
  by what a handler adds to the queue: nothing (Ingresses), Ingresses only (Services, VarnishConfigs,
  BackendConfigs), or also Services and VarnishConfigs (Endpoints, Secrets).
\<close>

locale handler_calls =
  fixes W :: "'w Worker" and P :: "'w WState \<Rightarrow> bool"
  assumes vc: "P st \<Longrightarrow> (map_order_ok (wk_addr_order W) \<Longrightarrow> vc_step (wk_admin W) (ws_vc st) vc')
       \<Longrightarrow> P (st\<lparr>ws_vc := vc'\<rparr>)"
begin

lemma call_keeps [keeps_intros]:
  assumes "\<And>vc e vc'. call vc = (e, vc') \<Longrightarrow> map_order_ok (wk_addr_order W) \<Longrightarrow> vc_step (wk_admin W) vc vc'"
  shows "keeps P (vc_call call)"
  unfolding keeps_def
proof (intro allI impI)
  fix st assume st: "P st"
  obtain e vc' where c: "call (ws_vc st) = (e, vc')" by (cases "call (ws_vc st)")
  then have "P (st\<lparr>ws_vc := vc'\<rparr>)" using vc [OF st] assms by blast
  with c show "P (snd (vc_call call st))" by (simp add: vc_call_def)
qed

lemma install_keeps: "keeps P (install_config W k cfg)"
  unfolding keeps_def
proof (intro allI impI)
  fix st assume st: "P st"
  show "P (snd (install_config W k cfg st))"
  proof (cases "HasConfig k (Canonical_effect (ic_spec cfg)) (ic_ings cfg) (ic_vcfg cfg)
      (ic_bcfg cfg) (ws_vc st)")
    case (Ok r)
    then obtain b s vc' where r: "r = (b, s, vc')" by (cases r rule: prod_cases3)
    have st': "P (st\<lparr>ws_vc := vc'\<rparr>)" using Ok r by (intro vc [OF st]) (auto intro: step_HasConfig)
    have "keeps P (vc_call (Update (wk_admin W) k s (ic_ings cfg) (ic_vcfg cfg) (ic_bcfg cfg)))"
      by (rule call_keeps) (rule step_Update)
    with st' Ok r show ?thesis by (cases b) (simp_all add: install_config_def keeps_def)
  qed (use st in \<open>simp_all add: install_config_def\<close>)
qed

lemma addOrUpdateIng_keeps [keeps_intros]: "keeps P (addOrUpdateIng W ing)"
proof -
  have 1: "keeps P (vc_call (SetNotReady (wk_admin W) k))" for k
    by (rule call_keeps) (rule step_SetNotReady)
  have 2: "keeps P (with_ok (build_config W s is) (install_config W k))" for s "is" k
    by (rule keeps_with_ok) (rule install_keeps)
  show ?thesis
    unfolding addOrUpdateIng_def [abs_def]
    by (rule keeps_with_ok)
      (use 1 2 in \<open>auto simp: keeps_def split: option.split outcome.split\<close>)
qed

lemma syncIng_keeps: "keeps P (syncIng W key)"
  unfolding syncIng_def [abs_def]
  by (rule keeps_with_ok) (use addOrUpdateIng_keeps in \<open>simp add: keeps_def\<close>)

lemma deleteIng_keeps: "keeps P (deleteIng W obj)"
  unfolding deleteIng_def [abs_def] using addOrUpdateIng_keeps by (cases obj) (simp_all add: keeps_def)

lemma sync_ings_keeps: "keeps P (sync_ings W is)"
proof (induction "is")
  case (Cons ing "is")
  have "keeps P (sbind (addOrUpdateIng W ing) (\<lambda>_. sync_ings W is))"
    by (intro keeps_intros Cons.IH)
  with Cons.IH show ?case by (simp add: keeps_def)
qed (simp add: keeps_def)

lemma setSecret_keeps [keeps_intros]: "keeps P (setSecret secret)"
  by (auto simp: keeps_def setSecret_def intro: vc step_SetAdmSecret split: option.split)

lemma register_secret_keeps [keeps_intros]: "keeps P (register_secret W n)"
  using setSecret_keeps by (auto simp: keeps_def register_secret_def split: sum.split)

lemma updateVarnishSvcsForSecret_keeps [keeps_intros]:
  "keeps P (updateVarnishSvcsForSecret W svcs k)"
proof (induction svcs)
  case (Cons s svcs)
  have "keeps P (vc_call (UpdateSvcForSecret (wk_admin W) (svc_key s) k))"
    by (rule call_keeps) (rule step_UpdateSvcForSecret)
  then have "keeps P (sbind (vc_call (UpdateSvcForSecret (wk_admin W) (svc_key s) k))
      (\<lambda>_. updateVarnishSvcsForSecret W svcs k))"
    by (rule keeps_sbind) (rule Cons.IH)
  then show ?case by (simp add: keeps_def)
qed (simp add: keeps_def)

end

locale handler_ings = handler_calls W P
  for W :: "'w Worker" and P :: "'w WState \<Rightarrow> bool" +
  fixes okobj :: "KObj \<Rightarrow> bool"
  assumes enq: "P st \<Longrightarrow> okobj obj \<Longrightarrow> P (enqueue (update_obj obj) st)"
    and ings: "l_ing_ns_List (wk_listers W) (wk_namespace W) = Inr xs \<Longrightarrow> ing \<in> set xs
       \<Longrightarrow> okobj (OIngress ing)"
begin

lemma enq_all:
  assumes "P st" and "\<forall>item \<in> set items. \<exists>obj. item = update_obj obj \<and> okobj obj"
  shows "P (enqueue_all items st)"
  using assms
proof (induction items arbitrary: st)
  case (Cons item items)
  from Cons.prems(2) obtain obj where "item = update_obj obj" "okobj obj" by auto
  with Cons show ?case by (simp add: enqueue_all_def enq)
qed (simp add: enqueue_all_def)

lemma getIngsForSvc_ok:
  "getIngsForSvc W svc = Ok is \<Longrightarrow> ing \<in> set is \<Longrightarrow> okobj (OIngress ing)"
  by (auto simp: getIngsForSvc_def obind_Ok_iff intro: ings split: if_split_asm)

lemma enqueueIngressForService_keeps [keeps_intros]: "keeps P (enqueueIngressForService W svc)"
  unfolding enqueueIngressForService_def
  by (rule keeps_with_ok) (auto simp: keeps_def intro!: enq_all getIngsForSvc_ok)

lemma requeue_loop_keeps:
  "\<forall>ing \<in> set is. okobj (OIngress ing) \<Longrightarrow> keeps P (requeue_loop W svc b is)"
proof (induction "is" arbitrary: b)
  case (Cons ing "is")
  then have IH: "keeps P (requeue_loop W svc b is)" for b by simp
  have o: "okobj (OIngress ing)" using Cons.prems by simp
  show ?case using IH enq [OF _ o] by (auto simp: keeps_def split: outcome.split option.split)
qed (simp add: keeps_def)

lemma syncVarnishSvc_keeps [keeps_intros]: "keeps P (syncVarnishSvc W svc)"
proof -
  have 1: "keeps P (vc_call (AddOrUpdateVarnishSvc (wk_admin W) (wk_addr_order W) k a n b))"
    for k a n b
    by (rule call_keeps) (rule step_AddOrUpdate)
  show ?thesis
    unfolding syncVarnishSvc_def
    by (intro keeps_intros 1 requeue_loop_keeps) (auto intro: ings)
qed

lemma syncSvc_keeps: "keeps P (syncSvc W key)"
  unfolding syncSvc_def by (auto intro!: keeps_intros)

lemma deleteSvc_keeps: "keeps P (deleteSvc W obj)"
proof -
  have "keeps P (vc_call (DeleteVarnishSvc (wk_admin W) k))" for k
    by (rule call_keeps) (rule step_Delete)
  then show ?thesis
    using enqueueIngressForService_keeps
    unfolding deleteSvc_def [abs_def] by (cases obj) (auto simp: keeps_def)
qed

lemma vcfg_svcs_ok:
  assumes "\<forall>ing \<in> set xs. okobj (OIngress ing)" and "\<forall>ing \<in> ran m. okobj (OIngress ing)"
    and "vcfg_svcs W xs m = Ok (Some m')"
  shows "\<forall>ing \<in> ran m'. okobj (OIngress ing)"
  using assms
proof (induction xs arbitrary: m)
  case (Cons ing xs)
  note IH = Cons.IH
  have o: "\<forall>ing \<in> set xs. okobj (OIngress ing)" using Cons.prems(1) by simp
  have u: "\<forall>i \<in> ran (m(p \<mapsto> ing)). okobj (OIngress i)" for p
    using Cons.prems(1,2) by (auto simp: ran_def)
  have "vcfg_svcs W xs m = Ok (Some m') \<or> (\<exists>p. vcfg_svcs W xs (m(p \<mapsto> ing)) = Ok (Some m'))"
    using Cons.prems(3)
    by (auto simp del: fun_upd_apply split: if_split_asm outcome.split_asm option.split_asm
        ctl_error.split_asm api_error.split_asm)
  then show ?case using IH [OF o Cons.prems(2)] IH [OF o u] by blast
qed simp

lemma vcfg_enqueue_keeps:
  "\<forall>ing \<in> ran m. okobj (OIngress ing) \<Longrightarrow> keeps P (vcfg_enqueue W m seen svcs)"
proof (induction svcs arbitrary: seen)
  case (Cons s svcs)
  then have IH: "keeps P (vcfg_enqueue W m seen svcs)" for seen by simp
  have "P (case m p of None \<Rightarrow> st | Some ing \<Rightarrow> enqueue (update_obj (OIngress ing)) st)"
    if "P st" for p st
    using that Cons.prems by (auto intro: enq ranI split: option.split)
  with IH show ?case by (auto simp: keeps_def split: sum.split)
qed (simp add: keeps_def)

lemma enqueueIngsForVcfg_keeps [keeps_intros]: "keeps P (enqueueIngsForVcfg W vcfg)"
proof (cases "l_ing_ns_List (wk_listers W) (wk_namespace W)")
  case (Inl e)
  then show ?thesis by (simp add: enqueueIngsForVcfg_def keeps_def)
next
  case (Inr xs)
  have m: "keeps P (vcfg_enqueue W m [] svcs)" if "vcfg_svcs W xs Map.empty = Ok (Some m)" for m svcs
    using ings [OF Inr] by (intro vcfg_enqueue_keeps vcfg_svcs_ok [OF _ _ that]) auto
  have "keeps P (with_ok (vcfg_svcs W xs Map.empty) (\<lambda>r st.
            case r of
              None \<Rightarrow> (Ok (), st)
            | Some m \<Rightarrow> vcfg_enqueue W m [] (vcs_Services (vcfg_Spec vcfg)) st))"
    using m by (intro keeps_with_ok) (auto simp: keeps_def split: option.split)
  with Inr show ?thesis by (simp add: enqueueIngsForVcfg_def keeps_def)
qed

lemma syncVcfg_keeps: "keeps P (syncVcfg W key)"
  unfolding syncVcfg_def by (auto intro!: keeps_intros)

lemma deleteVcfg_keeps: "keeps P (deleteVcfg W obj)"
  using enqueueIngsForVcfg_keeps unfolding deleteVcfg_def [abs_def]
  by (cases obj) (simp_all add: keeps_def)

lemma bcfg_enqueue_ok:
  "item \<in> set (bcfg_enqueue m seen svcs) \<Longrightarrow>
     \<exists>ing \<in> snd ` set m. item = update_obj (OIngress ing)"
  by (induction m seen svcs rule: bcfg_enqueue.induct)
    (force split: if_split_asm option.split_asm dest: map_of_SomeD)+

lemma enqueueIngsForBackendSvcs_keeps [keeps_intros]: "keeps P (enqueueIngsForBackendSvcs W svcs)"
proof (cases "l_ing_ns_List (wk_listers W) (wk_namespace W)")
  case (Inr xs)
  have "\<exists>obj. item = update_obj obj \<and> okobj obj"
    if "item \<in> set (bcfg_enqueue (backend_map xs) [] svcs)" for item
  proof -
    from bcfg_enqueue_ok [OF that] obtain k ing where
      m: "(k, ing) \<in> set (backend_map xs)" and item: "item = update_obj (OIngress ing)"
      by auto
    from m have "gm_get (backend_map xs) k = Some ing"
      by (simp add: backend_map_def gm_get_in)
    then have "ing \<in> set xs"
      by (auto simp: backend_map_def gm_get_of_list dest!: map_of_SomeD)
    with item ings [OF Inr] show ?thesis by blast
  qed
  then show ?thesis using Inr by (simp add: keeps_def enqueueIngsForBackendSvcs_def enq_all)
qed (simp add: keeps_def enqueueIngsForBackendSvcs_def)

lemma syncBcfg_keeps: "keeps P (syncBcfg W key)"
  unfolding syncBcfg_def by (auto intro!: keeps_intros)

lemma deleteBcfg_keeps: "keeps P (deleteBcfg W obj)"
  using enqueueIngsForBackendSvcs_keeps unfolding deleteBcfg_def [abs_def]
  by (cases obj) (simp_all add: keeps_def)

end

locale handler_inv = handler_ings W P okobj
  for W :: "'w Worker" and P :: "'w WState \<Rightarrow> bool" and okobj :: "KObj \<Rightarrow> bool" +
  assumes svc: "l_svc_Get (wk_listers W) (wk_namespace W) key = Inr s \<Longrightarrow> okobj (OService s)"
    and vcfgs: "l_vcfg_List (wk_listers W) (wk_namespace W) = Inr vs \<Longrightarrow> v \<in> set vs
       \<Longrightarrow> okobj (OVarnishConfig v)"
begin

lemma syncEndp_keeps: "keeps P (syncEndp W key)"
proof -
  have "keeps P (with_ok (getIngsForSvc W s) (sync_ings W))" for s
    by (intro keeps_intros sync_ings_keeps)
  then show ?thesis
    by (auto simp: keeps_def syncEndp_def intro: enq svc split: sum.split)
qed

lemma deleteEndp_keeps: "keeps P (deleteEndp W obj)"
  using syncEndp_keeps unfolding deleteEndp_def [abs_def] by (cases obj) (simp_all add: keeps_def)

lemma updateVcfgsForSecret_keeps [keeps_intros]: "keeps P (updateVcfgsForSecret W n)"
  unfolding updateVcfgsForSecret_def
  by (rule keeps_with_ok) (auto simp: keeps_def intro!: enq_all vcfgs)

lemma syncSecret_keeps: "keeps P (syncSecret W key)"
  unfolding syncSecret_def by (auto intro!: keeps_intros)

lemma deleteSecret_keeps: "keeps P (deleteSecret W obj)"
proof (cases obj)
  case (OSecret secr)
  have "keeps P (with_ok (getVarnishSvcsForSecret W (om_Name (secr_Meta secr))) (\<lambda>svcs st.
          if svcs = [] then updateVcfgsForSecret W (om_Name (secr_Meta secr)) st
          else updateVarnishSvcsForSecret W svcs (meta_key (secr_Meta secr))
                 (st\<lparr>ws_vc := DeleteAdmSecret (meta_key (secr_Meta secr)) (ws_vc st)\<rparr>)))"
    using updateVcfgsForSecret_keeps updateVarnishSvcsForSecret_keeps
      vc [OF _ step_DeleteAdmSecret]
    by (intro keeps_with_ok) (auto simp: keeps_def)
  with OSecret show ?thesis by (simp add: deleteSecret_def keeps_def)
qed (simp_all add: deleteSecret_def keeps_def)

end

section \<open>Reachability and namespaces\<close>

text \<open>Whatever the handlers do, the Varnish controller stays in a reachable state.\<close>

interpretation reach: handler_inv W
    "\<lambda>st. map_order_ok (wk_addr_order W) \<longrightarrow> vc_reach (wk_admin W) (ws_vc st)" "\<lambda>_. True" for W
  by unfold_locales (auto simp: enqueue_def intro: reach_step)

text \<open>The namespace of an object; the lister of a namespace gives objects of the namespace.\<close>

fun obj_ns :: "KObj \<Rightarrow> string" where
  "obj_ns (OIngress ing) = ing_Namespace ing"
| "obj_ns (OService svc) = ks_Namespace svc"
| "obj_ns (OEndpoints endp) = om_Namespace (endp_Meta endp)"
| "obj_ns (OSecret secr) = om_Namespace (secr_Meta secr)"
| "obj_ns (OVarnishConfig vcfg) = om_Namespace (vcfg_Meta vcfg)"
| "obj_ns (OBackendConfig bcfg) = om_Namespace (bcfg_Meta bcfg)"
| "obj_ns (OTombstone key obj) = obj_ns obj"
| "obj_ns OOther = []"

definition listers_local :: "'w Worker \<Rightarrow> bool" where
  "listers_local W \<longleftrightarrow>
     (\<forall>ings. l_ing_ns_List (wk_listers W) (wk_namespace W) = Inr ings \<longrightarrow>
        (\<forall>ing \<in> set ings. ing_Namespace ing = wk_namespace W))
     \<and> (\<forall>key svc. l_svc_Get (wk_listers W) (wk_namespace W) key = Inr svc \<longrightarrow>
          ks_Namespace svc = wk_namespace W)
     \<and> (\<forall>vs. l_vcfg_List (wk_listers W) (wk_namespace W) = Inr vs \<longrightarrow>
          (\<forall>v \<in> set vs. om_Namespace (vcfg_Meta v) = wk_namespace W))"

text \<open>For the lister of the VarnishConfigs this is not an assumption but follows from its code.\<close>

lemma crd_listers_local:
  assumes "indexer vs vcfg_Meta" and "wk_namespace W \<noteq> []" and "listers_local W"
  shows "listers_local (W\<lparr>wk_listers := crd_listers vs bs (wk_listers W)\<rparr>)"
  using assms(3) indexer.by_ns [OF assms(1,2)]
  by (simp add: listers_local_def varnishConfigNamespaceLister_List_def)

text \<open>What a handler has added to the queue: updates of objects of the namespace of the worker.\<close>

definition item_local :: "'w Worker \<Rightarrow> SyncObj \<Rightarrow> bool" where
  "item_local W item \<longleftrightarrow> so_Type item = SyncUpdate \<and> obj_ns (so_Obj item) = wk_namespace W"

definition queue_local :: "'w Worker \<Rightarrow> SyncObj list \<Rightarrow> 'w WState \<Rightarrow> bool" where
  "queue_local W q st \<longleftrightarrow> (\<exists>items. ws_queue st = q @ items \<and> list_all (item_local W) items)"

interpretation nsq: handler_inv W "\<lambda>st. listers_local W \<longrightarrow> queue_local W q st"
    "\<lambda>obj. listers_local W \<longrightarrow> obj_ns obj = wk_namespace W" for W q
proof unfold_locales
  fix st :: "'a WState" and obj
  assume 1: "listers_local W \<longrightarrow> queue_local W q st"
    and 2: "listers_local W \<longrightarrow> obj_ns obj = wk_namespace W"
  show "listers_local W \<longrightarrow> queue_local W q (enqueue (update_obj obj) st)"
  proof
    assume "listers_local W"
    with 1 2 obtain items where "ws_queue st = q @ items" "list_all (item_local W) items"
      and "obj_ns obj = wk_namespace W" by (auto simp: queue_local_def)
    then show "queue_local W q (enqueue (update_obj obj) st)"
      unfolding queue_local_def
      by (intro exI [of _ "items @ [update_obj obj]"])
        (simp add: enqueue_def item_local_def update_obj_def)
  qed
qed (auto simp: queue_local_def listers_local_def)

section \<open>syncSvc\<close>

lemma requeue_loop_vc: "ws_vc (snd (requeue_loop W svc b ings st)) = ws_vc st"
  by (induction W svc b ings st rule: requeue_loop.induct)
    (auto simp: enqueue_def split: outcome.split option.split)

lemma setSecret_svcs [simp]: "vc_svcs (ws_vc (snd (setSecret s st))) = vc_svcs (ws_vc st)"
  by (simp add: setSecret_def split: option.split)

lemma setSecret_ok: "vc_ok (ws_vc st) \<Longrightarrow> vc_ok (ws_vc (snd (setSecret s st)))"
  by (simp add: setSecret_def SetAdmSecret_ok split: option.split)

lemma register_secret_ok: "vc_ok (ws_vc st) \<Longrightarrow> vc_ok (ws_vc (snd (register_secret W n st)))"
  by (simp add: register_secret_def setSecret_ok split: sum.split)

lemma sbind_Ok:
  assumes "sbind m f st = (Ok y, st')"
  obtains x st1 where "m st = (Ok x, st1)" and "f x st1 = (Ok y, st')"
  using assms by (auto simp: sbind_def split: prod.split_asm outcome.split_asm)

lemma with_ok_Ok:
  assumes "with_ok r f st = (Ok y, st')"
  obtains x where "r = Ok x" and "f x st = (Ok y, st')"
  using assms by (cases r) auto

lemma requeue_loop_Ok:
  assumes "requeue_loop W svc b ings st = (Ok b', st')"
  shows "b' \<longleftrightarrow> b \<or> isVarnishInVCLSpec W
     \<and> (\<exists>ing \<in> set ings. ing_Namespace ing = ks_Namespace svc
          \<and> (\<exists>s. getVarnishSvcForIng (wk_listers W) (wk_namespace W) ing = Ok (Some s)
               \<and> ks_Namespace s = ks_Namespace svc \<and> ks_Name s = ks_Name svc))"
  using assms
  by (induction W svc b ings st rule: requeue_loop.induct)
    (auto split: if_split_asm outcome.split_asm option.split_asm)

text \<open>What a synchronisation of a Varnish Service without error has called.\<close>

lemma syncVarnishSvc_call:
  assumes "syncVarnishSvc W svc st = (Ok (), st')"
  obtains ings updateVCL st1 endps pod st2 addrs where
    "l_ing_ns_List (wk_listers W) (wk_namespace W) = Inr ings"
    "requeue_loop W svc False ings st = (Ok updateVCL, st1)"
    "getServiceEndpoints (wk_listers W) svc = Ok endps"
    "first_pod (wk_listers W) svc = Ok pod"
    "register_secret W (pod_secret pod) st1 = (Ok (), st2)"
    "admin_addrs (svc_key svc) (endp_Subsets endps) = Ok addrs"
    "AddOrUpdateVarnishSvc (wk_admin W) (wk_addr_order W) (svc_key svc) addrs
       (wk_namespace W @ ''/'' @ pod_secret pod) (\<not> updateVCL) (ws_vc st2) = (None, ws_vc st')"
proof -
  from assms obtain updateVCL st1 endps pod st2 addrs ings where
    *: "lift_api (l_ing_ns_List (wk_listers W) (wk_namespace W)) = Ok ings"
    "requeue_loop W svc False ings st = (Ok updateVCL, st1)"
    "getServiceEndpoints (wk_listers W) svc = Ok endps"
    "first_pod (wk_listers W) svc = Ok pod"
    "register_secret W (pod_secret pod) st1 = (Ok (), st2)"
    "admin_addrs (svc_key svc) (endp_Subsets endps) = Ok addrs"
    and c: "vc_call (AddOrUpdateVarnishSvc (wk_admin W) (wk_addr_order W) (svc_key svc) addrs
         (wk_namespace W @ ''/'' @ pod_secret pod) (\<not> updateVCL)) st2 = (Ok (), st')"
    unfolding syncVarnishSvc_def
    by (elim with_ok_Ok sbind_Ok) (auto split: unit.split_asm)
  from *(1) have "l_ing_ns_List (wk_listers W) (wk_namespace W) = Inr ings"
    by (cases "l_ing_ns_List (wk_listers W) (wk_namespace W)") auto
  moreover from c have "AddOrUpdateVarnishSvc (wk_admin W) (wk_addr_order W) (svc_key svc) addrs
       (wk_namespace W @ ''/'' @ pod_secret pod) (\<not> updateVCL) (ws_vc st2) = (None, ws_vc st')"
    by (auto simp: vc_call_def split: prod.split_asm option.split_asm)
  ultimately show ?thesis using *(2-6) by (intro that)
qed

text \<open>
  A synchronisation of a Varnish Service that succeeds leaves the service with one instance for each
  ready address of its Endpoints, at the port \<open>varnishadm\<close> of the address.
\<close>

lemma syncVarnishSvc_addresses:
  assumes "syncVarnishSvc W svc st = (Ok (), st')" and "vc_ok (ws_vc st)"
    and "map_order_ok (wk_addr_order W)"
  obtains endps pod addrs vsvc where
    "getServiceEndpoints (wk_listers W) svc = Ok endps"
    "first_pod (wk_listers W) svc = Ok pod"
    "admin_addrs (svc_key svc) (endp_Subsets endps) = Ok addrs"
    "gm_get (vc_svcs (ws_vc st')) (svc_key svc) = Some vsvc"
    "mset (map vi_addr (vs_instances vsvc)) = mset (gm_keys (update_addrs addrs))"
proof -
  obtain ings updateVCL st1 endps pod st2 addrs where
    1: "requeue_loop W svc False ings st = (Ok updateVCL, st1)"
    and 2: "getServiceEndpoints (wk_listers W) svc = Ok endps"
    and 3: "first_pod (wk_listers W) svc = Ok pod"
    and 4: "register_secret W (pod_secret pod) st1 = (Ok (), st2)"
    and 5: "admin_addrs (svc_key svc) (endp_Subsets endps) = Ok addrs"
    and c: "AddOrUpdateVarnishSvc (wk_admin W) (wk_addr_order W) (svc_key svc) addrs
      (wk_namespace W @ ''/'' @ pod_secret pod) (\<not> updateVCL) (ws_vc st2) = (None, ws_vc st')"
    by (rule syncVarnishSvc_call [OF assms(1)])
  have "vc_ok (ws_vc st1)" using requeue_loop_vc [of W svc False ings st] 1 assms(2) by simp
  then have ok: "vc_ok (ws_vc st2)" using register_secret_ok [of st1 W "pod_secret pod"] 4 by simp
  from AddOrUpdateVarnishSvc_addresses [OF c ok assms(3)] obtain vsvc where
    "vc_svcs (ws_vc st') = gm_put (svc_key svc) vsvc (vc_svcs (ws_vc st2))"
    "mset (map vi_addr (vs_instances vsvc)) = mset (gm_keys (update_addrs addrs))" by blast
  then have "gm_get (vc_svcs (ws_vc st')) (svc_key svc) = Some vsvc"
    "mset (map vi_addr (vs_instances vsvc)) = mset (gm_keys (update_addrs addrs))" by simp_all
  with 2 3 5 show ?thesis by (rule that)
qed

lemma admin_addrs_iff:
  "admin_addrs key ss = Ok addrs \<longleftrightarrow>
     (\<forall>s \<in> set ss. adm_port (es_Ports s) \<noteq> 0)
     \<and> addrs = concat (map (\<lambda>s. map (\<lambda>ip. \<lparr>addr_IP = ip, addr_Port = adm_port (es_Ports s)\<rparr>)
          (es_Addresses s)) ss)"
  by (induction ss arbitrary: addrs) (auto simp: obind_Ok_iff)

section \<open>syncVcfg\<close>

lemma vcfg_enqueue_vc: "ws_vc (snd (vcfg_enqueue W m seen svcs st)) = ws_vc st"
  by (induction W m seen svcs st rule: vcfg_enqueue.induct)
    (auto simp: enqueue_def split: sum.split option.split)

lemma enqueueIngsForVcfg_vc: "ws_vc (snd (enqueueIngsForVcfg W vcfg st)) = ws_vc st"
proof (cases "l_ing_ns_List (wk_listers W) (wk_namespace W)")
  case (Inr xs)
  then show ?thesis
    by (cases "vcfg_svcs W xs Map.empty")
      (auto simp: enqueueIngsForVcfg_def vcfg_enqueue_vc split: option.split)
qed (simp add: enqueueIngsForVcfg_def)

text \<open>The validation guards the enqueueing: what is enqueued is enqueued for a valid configuration.\<close>

lemma cfg_step_Ok [simp]: "cfg_step (Ok ()) f = f ()"
  by (rule ext) (simp add: cfg_step_def)

lemma syncVcfg_guard:
  assumes "ws_queue (snd (syncVcfg W key st)) \<noteq> ws_queue st"
  shows "\<exists>vcfg. l_vcfg_Get (wk_listers W) (wk_namespace W) key = Inr vcfg
     \<and> (\<forall>s. vcs_SelfSharding (vcfg_Spec vcfg) = Some s \<longrightarrow> validateProbe (Some (ss_Probe s)) = Ok ())
     \<and> (\<forall>r \<in> set (vcs_Rewrites (vcfg_Spec vcfg)). rewrite_valid r)
     \<and> (\<forall>d \<in> set (vcs_ReqDispositions (vcfg_Spec vcfg)). reqdisp_valid d)"
proof -
  have c: "\<exists>u. r = Ok u \<and> ws_queue (snd (f u st)) \<noteq> ws_queue st"
    if "ws_queue (snd (cfg_step r f st)) \<noteq> ws_queue st" for r and f :: "unit \<Rightarrow> 'a handler"
    using that by (cases r) (auto simp: cfg_step_def)
  obtain vcfg where v: "l_vcfg_Get (wk_listers W) (wk_namespace W) key = Inr vcfg"
    using assms by (cases "l_vcfg_Get (wk_listers W) (wk_namespace W) key") (auto simp: syncVcfg_def)
  with assms have "vcs_Services (vcfg_Spec vcfg) \<noteq> []" by (auto simp: syncVcfg_def)
  with assms v have "(case vcs_SelfSharding (vcfg_Spec vcfg) of
       None \<Rightarrow> Ok () | Some s \<Rightarrow> validateProbe (Some (ss_Probe s))) = Ok ()
     \<and> validateRewrites (vcs_Rewrites (vcfg_Spec vcfg)) = Ok ()
     \<and> validateReqDisps (vcs_ReqDispositions (vcfg_Spec vcfg)) = Ok ()"
    by (auto simp: syncVcfg_def dest!: c)
  with v show ?thesis by (auto simp: validateRewrites_Ok_iff validateReqDisps_Ok_iff)
qed

end
