(* ===== verification/Worker.thy ===== *)
theory Worker
  imports Handlers "HOL-Library.Multiset"
begin

text \<open>
  The work queues and their workers (\<open>worker.go\<close>) and the informer callbacks that feed them
  (\<open>controller.go\<close> under \<open>pkg/controller\<close>).  The queue itself (\<open>workqueue\<close> of \<open>client-go\<close>) and the
  function that computes the key of an object (\<open>cache.DeletionHandlingMetaNamespaceKeyFunc\<close>) are
  code outside the repository: a record of functions with the laws of the locale \<open>workqueue\<close>, and an
  argument \<open>keyf\<close>.
\<close>

section \<open>The queue\<close>

text \<open>
  An item is a pointer to a \<open>SyncObj\<close> or something else.  Each \<open>Add\<close> of the source adds a fresh
  pointer, so that the queue never takes two items for one.
\<close>

datatype item = ISync SyncObj | IOther

record 'q queue_ops =
  q_New :: "string \<Rightarrow> 'q"
  q_Get :: "'q \<Rightarrow> (item \<times> 'q) option"
  q_Add :: "item \<Rightarrow> 'q \<Rightarrow> 'q"
  q_AddRateLimited :: "item \<Rightarrow> 'q \<Rightarrow> 'q"
  q_Forget :: "item \<Rightarrow> 'q \<Rightarrow> 'q"
  q_Done :: "item \<Rightarrow> 'q \<Rightarrow> 'q"
  q_ShutDown :: "'q \<Rightarrow> 'q"
  q_ShuttingDown :: "'q \<Rightarrow> bool"

text \<open>
  What the documentation of \<open>workqueue\<close> promises: an item that is added, at once or rate-limited, is
  handed out by a later \<open>Get\<close>; \<open>Get\<close> moves it to the items in process, \<open>Done\<close> takes it from there;
  a queue that is shut down takes no more items.
\<close>

locale workqueue =
  fixes Q :: "'q queue_ops" and pend :: "'q \<Rightarrow> item multiset" and proc :: "'q \<Rightarrow> item multiset"
    and accepts :: "'q \<Rightarrow> bool"
  assumes new: "pend (q_New Q n) = {#}" "proc (q_New Q n) = {#}" "accepts (q_New Q n)"
    and get: "q_Get Q q = Some (x, q') \<Longrightarrow>
       pend q = add_mset x (pend q') \<and> proc q' = add_mset x (proc q) \<and> accepts q' = accepts q"
    and add: "accepts q \<Longrightarrow> pend (q_Add Q x q) = add_mset x (pend q)"
      "proc (q_Add Q x q) = proc q" "accepts (q_Add Q x q) = accepts q"
    and limited: "accepts q \<Longrightarrow> pend (q_AddRateLimited Q x q) = add_mset x (pend q)"
      "proc (q_AddRateLimited Q x q) = proc q" "accepts (q_AddRateLimited Q x q) = accepts q"
    and forget: "pend (q_Forget Q x q) = pend q" "proc (q_Forget Q x q) = proc q"
      "accepts (q_Forget Q x q) = accepts q"
    and finish: "pend (q_Done Q x q) = pend q" "proc (q_Done Q x q) = proc q - {#x#}"
      "accepts (q_Done Q x q) = accepts q"
    and down: "pend (q_ShutDown Q q) = pend q" "\<not> accepts (q_ShutDown Q q)"
    and closed: "\<not> accepts q \<Longrightarrow> pend (q_Add Q x q) = pend q"
      "\<not> accepts q \<Longrightarrow> pend (q_AddRateLimited Q x q) = pend q"
    and shutting: "q_ShuttingDown Q q \<longleftrightarrow> \<not> accepts q"

text \<open>A first-in-first-out queue with the delayed items at the end.\<close>

record Fifo =
  ff_waiting :: "item list"
  ff_processing :: "item list"
  ff_down :: bool

definition fifo_add :: "item \<Rightarrow> Fifo \<Rightarrow> Fifo" where
  "fifo_add x q = (if ff_down q then q else q\<lparr>ff_waiting := ff_waiting q @ [x]\<rparr>)"

definition fifo_get :: "Fifo \<Rightarrow> (item \<times> Fifo) option" where
  "fifo_get q =
     (case ff_waiting q of
        [] \<Rightarrow> None
      | x # xs \<Rightarrow> Some (x, q\<lparr>ff_waiting := xs, ff_processing := x # ff_processing q\<rparr>))"

definition fifo :: "Fifo queue_ops" where
  "fifo =
     \<lparr>q_New = (\<lambda>_. \<lparr>ff_waiting = [], ff_processing = [], ff_down = False\<rparr>),
      q_Get = fifo_get, q_Add = fifo_add, q_AddRateLimited = fifo_add, q_Forget = (\<lambda>_ q. q),
      q_Done = (\<lambda>x q. q\<lparr>ff_processing := remove1 x (ff_processing q)\<rparr>),
      q_ShutDown = (\<lambda>q. q\<lparr>ff_down := True\<rparr>), q_ShuttingDown = ff_down\<rparr>"

interpretation fifo: workqueue fifo "\<lambda>q. mset (ff_waiting q)" "\<lambda>q. mset (ff_processing q)"
    "\<lambda>q. \<not> ff_down q"
  by unfold_locales (auto simp: fifo_def fifo_add_def fifo_get_def split: list.split_asm)

section \<open>Events\<close>

abbreviation "syncSuccessReason \<equiv> ''SyncSuccess''"
abbreviation "syncFailureReason \<equiv> ''SyncFailure''"

fun kind_of :: "KObj \<Rightarrow> string" where
  "kind_of (OIngress _) = ''Ingress''"
| "kind_of (OService _) = ''Service''"
| "kind_of (OEndpoints _) = ''Endpoints''"
| "kind_of (OSecret _) = ''Secret''"
| "kind_of (OVarnishConfig _) = ''VarnishConfig''"
| "kind_of (OBackendConfig _) = ''BackendConfig''"
| "kind_of (OTombstone _ _) = ''Unknown''"
| "kind_of OOther = ''Unknown''"

text \<open>
  \<open>event\<close>: an Event for an object of a known type, and the counter for its kind and reason.  It is called
  with an item of the queue or with the object in it, and unpacks the item.
\<close>

fun item_obj :: "item \<Rightarrow> KObj" where
  "item_obj (ISync obj) = so_Obj obj"
| "item_obj IOther = OOther"

definition worker_event :: "KObj \<Rightarrow> event_type \<Rightarrow> string \<Rightarrow> 'w WState \<Rightarrow> 'w WState" where
  "worker_event obj evtType reason st =
     st\<lparr>ws_recorded := ws_recorded st
           @ (if kind_of obj = ''Unknown'' then [] else [(obj, evtType, reason)]),
        ws_events := ws_events st @ [(kind_of obj, reason)]\<rparr>"

definition infoEvent :: "KObj \<Rightarrow> string \<Rightarrow> 'w WState \<Rightarrow> 'w WState" where
  "infoEvent obj reason = worker_event obj EventTypeNormal reason"

definition warnEvent :: "KObj \<Rightarrow> string \<Rightarrow> 'w WState \<Rightarrow> 'w WState" where
  "warnEvent obj reason = worker_event obj EventTypeWarning reason"

definition syncSuccess :: "KObj \<Rightarrow> 'w WState \<Rightarrow> 'w WState" where
  "syncSuccess obj = infoEvent obj syncSuccessReason"

definition syncFailure :: "KObj \<Rightarrow> 'w WState \<Rightarrow> 'w WState" where
  "syncFailure obj = warnEvent obj syncFailureReason"

lemmas event_defs = syncSuccess_def syncFailure_def infoEvent_def warnEvent_def worker_event_def

section \<open>dispatch\<close>

text \<open>None: no key, or one that cannot be split.\<close>

definition getNameSpace ::
    "(KObj \<Rightarrow> string option) \<Rightarrow> (string \<Rightarrow> (string \<times> string) option) \<Rightarrow> KObj \<Rightarrow> (string \<times> string) option" where
  "getNameSpace keyf split obj = Option.bind (keyf obj) split"

definition unhandled :: "KObj \<Rightarrow> 'w handler" where
  "unhandled obj st = (Ok (), syncFailure obj st)"

text \<open>The handlers for \<open>Add\<close> and for \<open>Update\<close>, which are the same.\<close>

definition addIng :: "'w Worker \<Rightarrow> string \<Rightarrow> 'w handler" where
  "addIng W key = syncIng W key"

definition addSvc :: "'w Worker \<Rightarrow> string \<Rightarrow> 'w handler" where
  "addSvc W key = syncSvc W key"

definition addEndp :: "'w Worker \<Rightarrow> string \<Rightarrow> 'w handler" where
  "addEndp W key = syncEndp W key"

definition addSecret :: "'w Worker \<Rightarrow> string \<Rightarrow> 'w handler" where
  "addSecret W key = syncSecret W key"

definition addVcfg :: "'w Worker \<Rightarrow> string \<Rightarrow> 'w handler" where
  "addVcfg W key = syncVcfg W key"

definition addBcfg :: "'w Worker \<Rightarrow> string \<Rightarrow> 'w handler" where
  "addBcfg W key = syncBcfg W key"

definition updateIng :: "'w Worker \<Rightarrow> string \<Rightarrow> 'w handler" where
  "updateIng W key = syncIng W key"

definition updateSvc :: "'w Worker \<Rightarrow> string \<Rightarrow> 'w handler" where
  "updateSvc W key = syncSvc W key"

definition updateEndp :: "'w Worker \<Rightarrow> string \<Rightarrow> 'w handler" where
  "updateEndp W key = syncEndp W key"

definition updateSecret :: "'w Worker \<Rightarrow> string \<Rightarrow> 'w handler" where
  "updateSecret W key = syncSecret W key"

definition updateVcfg :: "'w Worker \<Rightarrow> string \<Rightarrow> 'w handler" where
  "updateVcfg W key = syncVcfg W key"

definition updateBcfg :: "'w Worker \<Rightarrow> string \<Rightarrow> 'w handler" where
  "updateBcfg W key = syncBcfg W key"

lemmas add_update_defs =
  addIng_def addSvc_def addEndp_def addSecret_def addVcfg_def addBcfg_def
  updateIng_def updateSvc_def updateEndp_def updateSecret_def updateVcfg_def updateBcfg_def

definition add_obj :: "'w Worker \<Rightarrow> string \<Rightarrow> KObj \<Rightarrow> 'w handler" where
  "add_obj W key obj =
     (case obj of
        OIngress _ \<Rightarrow> addIng W key
      | OService _ \<Rightarrow> addSvc W key
      | OEndpoints _ \<Rightarrow> addEndp W key
      | OSecret _ \<Rightarrow> addSecret W key
      | OVarnishConfig _ \<Rightarrow> addVcfg W key
      | OBackendConfig _ \<Rightarrow> addBcfg W key
      | _ \<Rightarrow> unhandled obj)"

definition upd_obj :: "'w Worker \<Rightarrow> string \<Rightarrow> KObj \<Rightarrow> 'w handler" where
  "upd_obj W key obj =
     (case obj of
        OIngress _ \<Rightarrow> updateIng W key
      | OService _ \<Rightarrow> updateSvc W key
      | OEndpoints _ \<Rightarrow> updateEndp W key
      | OSecret _ \<Rightarrow> updateSecret W key
      | OVarnishConfig _ \<Rightarrow> updateVcfg W key
      | OBackendConfig _ \<Rightarrow> updateBcfg W key
      | _ \<Rightarrow> unhandled obj)"

definition sync_obj :: "'w Worker \<Rightarrow> string \<Rightarrow> KObj \<Rightarrow> 'w handler" where
  "sync_obj W key obj =
     (case obj of
        OIngress _ \<Rightarrow> syncIng W key
      | OService _ \<Rightarrow> syncSvc W key
      | OEndpoints _ \<Rightarrow> syncEndp W key
      | OSecret _ \<Rightarrow> syncSecret W key
      | OVarnishConfig _ \<Rightarrow> syncVcfg W key
      | OBackendConfig _ \<Rightarrow> syncBcfg W key
      | _ \<Rightarrow> unhandled obj)"

lemma add_upd_obj [simp]:
  "add_obj W key obj = sync_obj W key obj" "upd_obj W key obj = sync_obj W key obj"
  by (cases obj; simp add: add_obj_def upd_obj_def sync_obj_def add_update_defs)+

text \<open>
  As in the source, the type assertion that would unpack a tombstone is made on the item, which is a
  \<open>SyncObj\<close>, so that it never holds.
\<close>

definition delete_obj :: "'w Worker \<Rightarrow> KObj \<Rightarrow> 'w handler" where
  "delete_obj W obj =
     (case obj of
        OIngress _ \<Rightarrow> deleteIng W obj
      | OService _ \<Rightarrow> deleteSvc W obj
      | OEndpoints _ \<Rightarrow> deleteEndp W obj
      | OSecret _ \<Rightarrow> deleteSecret W obj
      | OVarnishConfig _ \<Rightarrow> deleteVcfg W obj
      | OBackendConfig _ \<Rightarrow> deleteBcfg W obj
      | _ \<Rightarrow> unhandled obj)"

definition dispatch :: "'w Worker \<Rightarrow> (KObj \<Rightarrow> string option) \<Rightarrow> item \<Rightarrow> 'w handler" where
  "dispatch W keyf item =
     (case item of
        IOther \<Rightarrow> unhandled OOther
      | ISync obj \<Rightarrow>
          (case getNameSpace keyf (l_splitKey (wk_listers W)) (so_Obj obj) of
             None \<Rightarrow> unhandled (so_Obj obj)
           | Some (_, key) \<Rightarrow>
               (case so_Type obj of
                  SyncAdd \<Rightarrow> add_obj W key (so_Obj obj)
                | SyncUpdate \<Rightarrow> upd_obj W key (so_Obj obj)
                | SyncDelete \<Rightarrow> delete_obj W (so_Obj obj))))"

section \<open>next\<close>

text \<open>
  One iteration of a worker: the item, the objects its handler adds, and the answer to the queue.
  Panic: the handler panics, which ends the process.
\<close>

definition worker_next ::
    "'w Worker \<Rightarrow> (KObj \<Rightarrow> string option) \<Rightarrow> 'q queue_ops \<Rightarrow> 'q \<times> 'w WState \<Rightarrow> (unit, 'q \<times> 'w WState) outcome" where
  "worker_next W keyf Q S =
     (case S of (q, st) \<Rightarrow>
        (case q_Get Q q of
           None \<Rightarrow> Ok (q, st)
         | Some (item, q1) \<Rightarrow>
             (case dispatch W keyf item (st\<lparr>ws_queue := []\<rparr>) of
                (r, st1) \<Rightarrow>
                  let q2 = fold (q_Add Q) (map ISync (ws_queue st1)) q1; st2 = st1\<lparr>ws_queue := []\<rparr>
                  in case r of
                       Panic \<Rightarrow> Panic
                     | Ok _ \<Rightarrow>
                         Ok (q_Done Q item (q_Forget Q item q2),
                             syncSuccess (item_obj item) st2)
                     | Err _ \<Rightarrow>
                         Ok (q_Done Q item (q_AddRateLimited Q item q2),
                             syncFailure (item_obj item) st2))))"

section \<open>NamespaceQueues\<close>

record 'q NamespaceQueues =
  nq_Queue :: 'q
  nq_workers :: "'q gomap"

definition ns_next ::
    "(KObj \<Rightarrow> string option) \<Rightarrow> (string \<Rightarrow> (string \<times> string) option) \<Rightarrow> 'q queue_ops
      \<Rightarrow> 'q NamespaceQueues \<Rightarrow> 'q NamespaceQueues" where
  "ns_next keyf split Q qs =
     (case q_Get Q (nq_Queue qs) of
        None \<Rightarrow> qs
      | Some (item, q1) \<Rightarrow>
          (case item of
             IOther \<Rightarrow> qs\<lparr>nq_Queue := q_Done Q item q1\<rparr>
           | ISync obj \<Rightarrow>
               (case getNameSpace keyf split (so_Obj obj) of
                  None \<Rightarrow> qs\<lparr>nq_Queue := q_Done Q item q1\<rparr>
                | Some (ns, _) \<Rightarrow>
                    let wq = (case gm_get (nq_workers qs) ns of None \<Rightarrow> q_New Q ns | Some q \<Rightarrow> q)
                    in \<lparr>nq_Queue = q_Done Q item (q_Forget Q item q1),
                        nq_workers = gm_put ns (q_Add Q item wq) (nq_workers qs)\<rparr>)))"

definition ns_Stop :: "'q queue_ops \<Rightarrow> 'q NamespaceQueues \<Rightarrow> 'q NamespaceQueues" where
  "ns_Stop Q qs =
     \<lparr>nq_Queue = q_ShutDown Q (nq_Queue qs), nq_workers = gm_map (q_ShutDown Q) (nq_workers qs)\<rparr>"

section \<open>The callbacks of the informers\<close>

text \<open>The metadata of an object (\<open>meta.Accessor\<close>).\<close>

fun obj_meta :: "KObj \<Rightarrow> ObjectMeta option" where
  "obj_meta (OIngress ing) = Some (ing_Meta ing)"
| "obj_meta (OService svc) = Some (ks_Meta svc)"
| "obj_meta (OEndpoints endp) = Some (endp_Meta endp)"
| "obj_meta (OSecret secr) = Some (secr_Meta secr)"
| "obj_meta (OVarnishConfig vcfg) = Some (vcfg_Meta vcfg)"
| "obj_meta (OBackendConfig bcfg) = Some (bcfg_Meta bcfg)"
| "obj_meta (OTombstone _ _) = None"
| "obj_meta OOther = None"

fun same_version :: "ObjectMeta option \<Rightarrow> ObjectMeta option \<Rightarrow> bool" where
  "same_version (Some a) (Some b) = (om_ResourceVersion a = om_ResourceVersion b)"
| "same_version _ _ = False"

fun both_empty :: "KObj \<Rightarrow> KObj \<Rightarrow> bool" where
  "both_empty (OEndpoints a) (OEndpoints b) = (endp_Subsets a = [] \<and> endp_Subsets b = [])"
| "both_empty _ _ = False"

definition addObj :: "'q queue_ops \<Rightarrow> KObj \<Rightarrow> 'q NamespaceQueues \<Rightarrow> 'q NamespaceQueues" where
  "addObj Q obj qs = qs\<lparr>nq_Queue := q_Add Q (ISync \<lparr>so_Type = SyncAdd, so_Obj = obj\<rparr>) (nq_Queue qs)\<rparr>"

definition deleteObj :: "'q queue_ops \<Rightarrow> KObj \<Rightarrow> 'q NamespaceQueues \<Rightarrow> 'q NamespaceQueues" where
  "deleteObj Q obj qs =
     qs\<lparr>nq_Queue := q_Add Q (ISync \<lparr>so_Type = SyncDelete, so_Obj = obj\<rparr>) (nq_Queue qs)\<rparr>"

definition updateObj :: "'q queue_ops \<Rightarrow> KObj \<Rightarrow> KObj \<Rightarrow> 'q NamespaceQueues \<Rightarrow> 'q NamespaceQueues" where
  "updateObj Q old new qs =
     (if same_version (obj_meta old) (obj_meta new) then qs
      else if both_empty old new then qs
      else qs\<lparr>nq_Queue := q_Add Q (ISync (update_obj new)) (nq_Queue qs)\<rparr>)"

section \<open>What a dispatch keeps\<close>

locale worker_inv = handler_inv W P okobj
  for W :: "'w Worker" and P :: "'w WState \<Rightarrow> bool" and okobj :: "KObj \<Rightarrow> bool" +
  assumes evt: "P st \<Longrightarrow> P (worker_event obj t reason st)"
begin

lemma unhandled_keeps: "keeps P (unhandled obj)"
  by (simp add: keeps_def unhandled_def syncFailure_def warnEvent_def infoEvent_def evt)

lemma sync_obj_keeps: "keeps P (sync_obj W key obj)"
  unfolding sync_obj_def
  by (cases obj)
    (simp_all add: syncIng_keeps syncSvc_keeps syncEndp_keeps syncSecret_keeps syncVcfg_keeps
      syncBcfg_keeps unhandled_keeps)

lemma delete_obj_keeps: "keeps P (delete_obj W obj)"
  unfolding delete_obj_def
  by (cases obj)
    (simp_all add: deleteIng_keeps deleteSvc_keeps deleteEndp_keeps deleteSecret_keeps
      deleteVcfg_keeps deleteBcfg_keeps unhandled_keeps)

lemma dispatch_keeps: "keeps P (dispatch W keyf item)"
  unfolding dispatch_def
  by (cases item)
    (auto simp: sync_obj_keeps delete_obj_keeps unhandled_keeps split: option.split SyncType.split)

end

interpretation reach: worker_inv W
    "\<lambda>st. map_order_ok (wk_addr_order W) \<longrightarrow> vc_reach (wk_admin W) (ws_vc st)" "\<lambda>_. True" for W
  by unfold_locales (simp add: worker_event_def)

interpretation nsq: worker_inv W "\<lambda>st. listers_local W \<longrightarrow> queue_local W q st"
    "\<lambda>obj. listers_local W \<longrightarrow> obj_ns obj = wk_namespace W" for W q
  by unfold_locales (simp add: worker_event_def queue_local_def)

lemma dispatch_reach:
  assumes "dispatch W keyf item st = (r, st')" and "map_order_ok (wk_addr_order W)"
    and "vc_reach (wk_admin W) (ws_vc st)"
  shows "vc_reach (wk_admin W) (ws_vc st')"
  using reach.dispatch_keeps [of W keyf item] assms unfolding keeps_def by (metis snd_conv)

lemma dispatch_local:
  assumes "dispatch W keyf item st = (r, st')" and "listers_local W" and "ws_queue st = []"
  shows "list_all (item_local W) (ws_queue st')"
proof -
  have "queue_local W [] st" using assms(3) by (simp add: queue_local_def)
  then have "queue_local W [] st'"
    using nsq.dispatch_keeps [of W "[]" keyf item] assms(1,2) unfolding keeps_def by (metis snd_conv)
  then show ?thesis by (auto simp: queue_local_def)
qed

text \<open>A deletion that is delivered as a tombstone does nothing and is reported as done.\<close>

lemma dispatch_tombstone:
  "dispatch W keyf (ISync \<lparr>so_Type = SyncDelete, so_Obj = OTombstone key obj\<rparr>) st
     = (Ok (), syncFailure (OTombstone key obj) st)"
  by (simp add: dispatch_def delete_obj_def unhandled_def split: option.split)

section \<open>No work is lost\<close>

context workqueue
begin

lemma fold_add:
  "accepts q \<Longrightarrow> pend (fold (q_Add Q) xs q) = pend q + mset xs
     \<and> proc (fold (q_Add Q) xs q) = proc q \<and> accepts (fold (q_Add Q) xs q)"
  by (induction xs arbitrary: q) (simp_all add: add)

text \<open>
  After an iteration the queue holds what it held without the item, what the handler has added, and
  the item again exactly when the handler has failed.
\<close>

lemma worker_next_pend:
  assumes "q_Get Q q = Some (item, q1)" and "accepts q"
    and "dispatch W keyf item (st\<lparr>ws_queue := []\<rparr>) = (r, st1)"
    and "worker_next W keyf Q (q, st) = Ok (q', st')"
  shows "pend q' = pend q - {#item#} + mset (map ISync (ws_queue st1))
      + (if r = Ok () then {#} else {#item#})
    \<and> proc q' = proc q \<and> ws_vc st' = ws_vc st1 \<and> ws_queue st' = [] \<and> r \<noteq> Panic"
proof -
  note g = get [OF assms(1)]
  have "accepts q1" using g assms(2) by simp
  note f = fold_add [OF this, of "map ISync (ws_queue st1)"]
  have p: "pend q1 = pend q - {#item#}" "proc q1 = add_mset item (proc q)" using g by simp_all
  let ?q2 = "fold (q_Add Q) (map ISync (ws_queue st1)) q1"
  note w = assms(4) [unfolded worker_next_def prod.case assms(1) option.case assms(3) Let_def]
  show ?thesis
  proof (cases r)
    case (Ok u)
    with w have "q' = q_Done Q item (q_Forget Q item ?q2)"
      and "st' = syncSuccess (item_obj item) (st1\<lparr>ws_queue := []\<rparr>)"
      by simp_all
    with Ok f p show ?thesis by (simp add: finish forget event_defs)
  next
    case (Err e)
    with w have "q' = q_Done Q item (q_AddRateLimited Q item ?q2)"
      and "st' = syncFailure (item_obj item) (st1\<lparr>ws_queue := []\<rparr>)"
      by simp_all
    with Err f p show ?thesis by (simp add: finish limited event_defs)
  qed (use w in simp)
qed

text \<open>The item of the main queue goes to the queue of its namespace; the other queues stay.\<close>

lemma ns_next_routes:
  assumes "q_Get Q (nq_Queue qs) = Some (ISync obj, q1)"
    and "getNameSpace keyf split (so_Obj obj) = Some (ns, key)"
    and "\<And>q. gm_get (nq_workers qs) ns = Some q \<Longrightarrow> accepts q"
  shows "\<exists>q. gm_get (nq_workers (ns_next keyf split Q qs)) ns = Some q
      \<and> pend q = add_mset (ISync obj)
          (case gm_get (nq_workers qs) ns of None \<Rightarrow> {#} | Some p \<Rightarrow> pend p)
    \<and> (\<forall>n. n \<noteq> ns \<longrightarrow>
         gm_get (nq_workers (ns_next keyf split Q qs)) n = gm_get (nq_workers qs) n)
    \<and> pend (nq_Queue qs) = add_mset (ISync obj) (pend (nq_Queue (ns_next keyf split Q qs)))
    \<and> proc (nq_Queue (ns_next keyf split Q qs)) = proc (nq_Queue qs)"
proof -
  let ?wq = "case gm_get (nq_workers qs) ns of None \<Rightarrow> q_New Q ns | Some q \<Rightarrow> q"
  have n: "ns_next keyf split Q qs =
      \<lparr>nq_Queue = q_Done Q (ISync obj) (q_Forget Q (ISync obj) q1),
       nq_workers = gm_put ns (q_Add Q (ISync obj) ?wq) (nq_workers qs)\<rparr>"
    using assms(1,2) by (simp add: ns_next_def Let_def)
  have "accepts ?wq" using assms(3) by (simp add: new split: option.split)
  then have "pend (q_Add Q (ISync obj) ?wq) = add_mset (ISync obj) (pend ?wq)" by (rule add)
  moreover have "pend ?wq = (case gm_get (nq_workers qs) ns of None \<Rightarrow> {#} | Some p \<Rightarrow> pend p)"
    by (simp add: new split: option.split)
  ultimately show ?thesis using get [OF assms(1)] by (simp add: n finish forget)
qed

lemma stopped_queues:
  "(\<not> accepts (nq_Queue (ns_Stop Q qs))
    \<and> (\<forall>ns q. gm_get (nq_workers (ns_Stop Q qs)) ns = Some q \<longrightarrow> \<not> accepts q))"
  by (auto simp: ns_Stop_def down)

end

section \<open>The callbacks\<close>

text \<open>An update that shows the version already seen is dropped, and so a resynchronisation.\<close>

lemma updateObj_same: "obj_meta obj \<noteq> None \<Longrightarrow> updateObj Q obj obj qs = qs"
  by (cases obj) (simp_all add: updateObj_def)

section \<open>The controller as a system\<close>

text \<open>
  The main queue and the queues of the namespaces, and the one Varnish controller they share.  A step
  is a callback of an informer, a step of the dispatcher, an iteration of the worker of a namespace
  (with whatever its listers hold then), or the monitor's check of a service.
\<close>

record ('w, 'q) System =
  sys_queues :: "'q NamespaceQueues"
  sys_vc :: "'w Controller"

definition worker_ok :: "'w admin \<Rightarrow> (string \<Rightarrow> (string \<times> string) option) \<Rightarrow> string \<Rightarrow> 'w Worker \<Rightarrow> bool" where
  "worker_ok ADM split ns W \<longleftrightarrow>
     wk_admin W = ADM \<and> wk_namespace W = ns \<and> l_splitKey (wk_listers W) = split
     \<and> map_order_ok (wk_addr_order W) \<and> listers_local W"

inductive sys_step ::
    "'w admin \<Rightarrow> (KObj \<Rightarrow> string option) \<Rightarrow> (string \<Rightarrow> (string \<times> string) option) \<Rightarrow> 'q queue_ops
      \<Rightarrow> ('w, 'q) System \<Rightarrow> ('w, 'q) System \<Rightarrow> bool"
  for ADM keyf split Q where
  sys_add: "sys_step ADM keyf split Q S (S\<lparr>sys_queues := addObj Q obj (sys_queues S)\<rparr>)"
| sys_update: "sys_step ADM keyf split Q S (S\<lparr>sys_queues := updateObj Q old obj (sys_queues S)\<rparr>)"
| sys_delete: "sys_step ADM keyf split Q S (S\<lparr>sys_queues := deleteObj Q obj (sys_queues S)\<rparr>)"
| sys_route: "sys_step ADM keyf split Q S (S\<lparr>sys_queues := ns_next keyf split Q (sys_queues S)\<rparr>)"
| sys_work: "worker_ok ADM split ns W \<Longrightarrow> gm_get (nq_workers (sys_queues S)) ns = Some q \<Longrightarrow>
     worker_next W keyf Q (q, \<lparr>ws_vc = sys_vc S, ws_queue = [], ws_events = [], ws_recorded = []\<rparr>) = Ok (q', st') \<Longrightarrow>
     sys_step ADM keyf split Q S
       \<lparr>sys_queues = (sys_queues S)\<lparr>nq_workers := gm_put ns q' (nq_workers (sys_queues S))\<rparr>,
        sys_vc = ws_vc st'\<rparr>"
| sys_monitor: "monitor_svc ADM k (sys_vc S) = (evs, vc') \<Longrightarrow>
     sys_step ADM keyf split Q S (S\<lparr>sys_vc := vc'\<rparr>)"
| sys_stop: "sys_step ADM keyf split Q S (S\<lparr>sys_queues := ns_Stop Q (sys_queues S)\<rparr>)"

inductive sys_reach ::
    "'w admin \<Rightarrow> (KObj \<Rightarrow> string option) \<Rightarrow> (string \<Rightarrow> (string \<times> string) option) \<Rightarrow> 'q queue_ops
      \<Rightarrow> ('w, 'q) System \<Rightarrow> bool"
  for ADM keyf split Q where
  sys_init: "sys_reach ADM keyf split Q
     \<lparr>sys_queues = \<lparr>nq_Queue = q_New Q n, nq_workers = []\<rparr>, sys_vc = NewVarnishController w\<rparr>"
| sys_next: "sys_reach ADM keyf split Q S \<Longrightarrow> sys_step ADM keyf split Q S S' \<Longrightarrow>
     sys_reach ADM keyf split Q S'"

inductive_cases sys_stepE: "sys_step ADM keyf split Q S S'"

lemma worker_next_reach:
  assumes "worker_next W keyf Q (q, st) = Ok (q', st')" and "map_order_ok (wk_addr_order W)"
    and "vc_reach (wk_admin W) (ws_vc st)"
  shows "vc_reach (wk_admin W) (ws_vc st')"
proof (cases "q_Get Q q")
  case None
  with assms show ?thesis by (simp add: worker_next_def)
next
  case (Some p)
  then obtain item q1 where g: "q_Get Q q = Some (item, q1)" by (cases p) simp
  obtain r st1 where d: "dispatch W keyf item (st\<lparr>ws_queue := []\<rparr>) = (r, st1)" by fastforce
  have "vc_reach (wk_admin W) (ws_vc st1)"
    using dispatch_reach [OF d assms(2)] assms(3) by simp
  with assms(1) g d show ?thesis
    by (auto simp: worker_next_def Let_def event_defs split: outcome.split_asm)
qed

text \<open>In every interleaving the Varnish controller is in a reachable state of its own.\<close>

lemma sys_step_vc:
  assumes "sys_step ADM keyf split Q S S'" and "vc_reach ADM (sys_vc S)"
  shows "vc_reach ADM (sys_vc S')"
  using assms
proof cases
  case (sys_work ns W q q' st')
  then have "vc_reach (wk_admin W) (ws_vc st')"
    using assms(2) by (intro worker_next_reach [OF sys_work(4)]) (simp_all add: worker_ok_def)
  with sys_work show ?thesis by (simp add: worker_ok_def)
next
  case (sys_monitor k evs vc')
  with assms(2) show ?thesis by (auto intro: reach_step step_monitor)
qed simp_all

lemma sys_reach_vc: "sys_reach ADM keyf split Q S \<Longrightarrow> vc_reach ADM (sys_vc S)"
  by (induction rule: sys_reach.induct) (auto intro: reach_init sys_step_vc)

text \<open>
  Every item in the queue of a namespace is of an object of the namespace, when the key of an object
  has its namespace.
\<close>

definition keys_local :: "(KObj \<Rightarrow> string option) \<Rightarrow> (string \<Rightarrow> (string \<times> string) option) \<Rightarrow> bool" where
  "keys_local keyf split \<longleftrightarrow>
     (\<forall>obj ns key. getNameSpace keyf split obj = Some (ns, key) \<longrightarrow> obj_ns obj = ns)"

fun item_ns :: "string \<Rightarrow> item \<Rightarrow> bool" where
  "item_ns ns (ISync obj) = (obj_ns (so_Obj obj) = ns)"
| "item_ns ns IOther = False"

definition queues_local :: "('q \<Rightarrow> item multiset) \<Rightarrow> 'q NamespaceQueues \<Rightarrow> bool" where
  "queues_local pend qs \<longleftrightarrow>
     (\<forall>ns q. gm_get (nq_workers qs) ns = Some q \<longrightarrow> (\<forall>x \<in># pend q. item_ns ns x))"

context workqueue
begin

lemma pend_add: "x \<in># pend (q_Add Q y q) \<Longrightarrow> x \<in># pend q \<or> x = y"
  by (cases "accepts q") (auto simp: add closed)

lemma pend_limited: "x \<in># pend (q_AddRateLimited Q y q) \<Longrightarrow> x \<in># pend q \<or> x = y"
  by (cases "accepts q") (auto simp: limited closed)

lemma pend_fold: "x \<in># pend (fold (q_Add Q) ys q) \<Longrightarrow> x \<in># pend q \<or> x \<in> set ys"
  by (induction ys arbitrary: q) (auto dest: pend_add)

lemma ns_next_local:
  assumes "queues_local pend qs" and "keys_local keyf split"
  shows "queues_local pend (ns_next keyf split Q qs)"
proof -
  have a: "item_ns ns x"
    if "x \<in># pend (q_Add Q (ISync obj) (case gm_get (nq_workers qs) ns of None \<Rightarrow> q_New Q ns | Some q \<Rightarrow> q))"
      and "getNameSpace keyf split (so_Obj obj) = Some (ns, key)" for x obj ns key
    using pend_add [OF that(1)] that(2) assms
    by (auto simp: new queues_local_def keys_local_def split: option.split_asm)
  show ?thesis
    using assms(1) a
    by (auto simp: ns_next_def Let_def queues_local_def split: option.split item.split prod.split)
qed

lemma worker_next_local:
  assumes "worker_next W keyf Q (q, st) = Ok (q', st')" and "listers_local W"
    and "\<forall>x \<in># pend q. item_ns (wk_namespace W) x"
  shows "\<forall>x \<in># pend q'. item_ns (wk_namespace W) x"
proof (cases "q_Get Q q")
  case None
  with assms show ?thesis by (simp add: worker_next_def)
next
  case (Some p)
  then obtain item q1 where g: "q_Get Q q = Some (item, q1)" by (cases p) simp
  obtain r st1 where d: "dispatch W keyf item (st\<lparr>ws_queue := []\<rparr>) = (r, st1)" by fastforce
  have "list_all (item_local W) (ws_queue st1)" by (rule dispatch_local [OF d assms(2)]) simp
  then have new: "item_ns (wk_namespace W) x" if "x \<in> ISync ` set (ws_queue st1)" for x
    using that by (auto simp: list_all_iff item_local_def)
  have i: "item_ns (wk_namespace W) item" and q1: "\<forall>x \<in># pend q1. item_ns (wk_namespace W) x"
    using get [OF g] assms(3) by auto
  have "x \<in># pend (fold (q_Add Q) (map ISync (ws_queue st1)) q1) \<or> x = item" if "x \<in># pend q'" for x
    using that assms(1) g d
    by (auto simp: worker_next_def Let_def finish forget split: outcome.split_asm
        dest: pend_limited)
  then have "x \<in># pend q1 \<or> x \<in> ISync ` set (ws_queue st1) \<or> x = item" if "x \<in># pend q'" for x
    using that pend_fold [of x "map ISync (ws_queue st1)" q1] by auto
  with new i q1 show ?thesis by blast
qed

lemma sys_step_local:
  assumes "sys_step ADM keyf split Q S S'" and "keys_local keyf split"
    and "queues_local pend (sys_queues S)"
  shows "queues_local pend (sys_queues S')"
  using assms(1)
proof cases
  case (sys_work ns W q q' st')
  then have "\<forall>x \<in># pend q'. item_ns ns x"
    using worker_next_local [OF sys_work(4)] assms(3) by (simp add: worker_ok_def queues_local_def)
  with sys_work assms(3) show ?thesis by (auto simp: queues_local_def)
next
  case sys_route
  with assms show ?thesis by (simp add: ns_next_local)
next
  case sys_stop
  with assms(3) show ?thesis by (auto simp: queues_local_def ns_Stop_def down)
qed (use assms(3) in \<open>auto simp: queues_local_def addObj_def updateObj_def deleteObj_def\<close>)

lemma sys_reach_local:
  "sys_reach ADM keyf split Q S \<Longrightarrow> keys_local keyf split \<Longrightarrow> queues_local pend (sys_queues S)"
proof (induction rule: sys_reach.induct)
  case (sys_init n w)
  show ?case by (simp add: queues_local_def)
next
  case (sys_next S S')
  then show ?case using sys_step_local by blast
qed

end

end
