(* ===== verification/WorkerLoops.thy ===== *)
theory WorkerLoops
  imports Worker "HOL-Library.Infinite_Set"
begin

text \<open>
  The loops around the iterations of \<open>worker.go\<close>: the loop of the worker of a namespace (\<open>work\<close>), the loop
  of the router (\<open>Run\<close>), and why a change does not keep a worker busy forever.
\<close>

section \<open>What a handler may add\<close>

text \<open>
  A handler adds only objects of a lower rank than the object it handles: Secrets and Endpoints lead to
  VarnishConfigs and Services, and these, like BackendConfigs, to Ingresses, which lead to nothing.
\<close>

fun obj_rank :: "KObj \<Rightarrow> nat" where
  "obj_rank (OIngress _) = 0"
| "obj_rank (OService _) = 1"
| "obj_rank (OEndpoints _) = 2"
| "obj_rank (OSecret _) = 2"
| "obj_rank (OVarnishConfig _) = 1"
| "obj_rank (OBackendConfig _) = 1"
| "obj_rank (OTombstone _ _) = 0"
| "obj_rank OOther = 0"

fun item_rank :: "item \<Rightarrow> nat" where
  "item_rank (ISync obj) = obj_rank (so_Obj obj)"
| "item_rank IOther = 0"

definition adds_below :: "nat \<Rightarrow> 'w WState \<Rightarrow> bool" where
  "adds_below n st \<longleftrightarrow> (\<forall>obj \<in> set (ws_queue st). obj_rank (so_Obj obj) < n)"

lemma adds_below_enqueue: "adds_below n st \<Longrightarrow> obj_rank obj < n \<Longrightarrow> adds_below n (enqueue (update_obj obj) st)"
  by (simp add: adds_below_def enqueue_def update_obj_def)

lemma adds_below_event: "adds_below n (syncFailure obj st) = adds_below n st"
  by (simp add: adds_below_def event_defs)

interpretation below0: handler_calls W "adds_below n" for W n
  by unfold_locales (simp add: adds_below_def)

interpretation below1: handler_ings W "adds_below (Suc n)" "\<lambda>obj. obj_rank obj < Suc n" for W n
  by unfold_locales (simp_all add: adds_below_enqueue)

interpretation below2: handler_inv W "adds_below (Suc (Suc n))" "\<lambda>obj. obj_rank obj < Suc (Suc n)" for W n
  by unfold_locales simp_all

lemmas handlers_below =
  below0.syncIng_keeps below0.deleteIng_keeps
  below1.syncSvc_keeps [of 0] below1.deleteSvc_keeps [of 0] below1.syncVcfg_keeps [of 0]
  below1.deleteVcfg_keeps [of 0] below1.syncBcfg_keeps [of 0] below1.deleteBcfg_keeps [of 0]
  below2.syncEndp_keeps [of 0] below2.deleteEndp_keeps [of 0] below2.syncSecret_keeps [of 0]
  below2.deleteSecret_keeps [of 0]

lemma unhandled_below: "keeps (adds_below n) (unhandled obj)"
  by (simp add: keeps_def unhandled_def adds_below_event)

lemma sync_obj_below: "keeps (adds_below (obj_rank obj)) (sync_obj W key obj)"
  unfolding sync_obj_def
  by (cases obj) (simp_all add: handlers_below unhandled_below numeral_2_eq_2)

lemma delete_obj_below: "keeps (adds_below (obj_rank obj)) (delete_obj W obj)"
  unfolding delete_obj_def
  by (cases obj) (simp_all add: handlers_below unhandled_below numeral_2_eq_2)

lemma dispatch_below: "keeps (adds_below (item_rank item)) (dispatch W keyf item)"
  unfolding dispatch_def
  by (cases item)
    (auto simp: sync_obj_below delete_obj_below unhandled_below split: option.split SyncType.split)

lemma dispatch_ranks:
  assumes "dispatch W keyf item st = (r, st')" and "ws_queue st = []"
  shows "\<forall>obj \<in> set (ws_queue st'). obj_rank (so_Obj obj) < item_rank item"
proof -
  have "adds_below (item_rank item) st" using assms(2) by (simp add: adds_below_def)
  then have "adds_below (item_rank item) st'"
    using dispatch_below [of item W keyf] assms(1) unfolding keeps_def by (metis snd_conv)
  then show ?thesis by (simp add: adds_below_def)
qed

section \<open>A change is worked off\<close>

text \<open>
  An iteration of a worker that has an item, and whether its handler succeeds.  The listers \<open>W\<close> are those
  of the moment, and \<open>st''\<close> is what others have made of the Varnish controller by the next iteration.
\<close>

inductive iteration ::
    "(KObj \<Rightarrow> string option) \<Rightarrow> 'q queue_ops \<Rightarrow> bool \<Rightarrow> 'q \<times> 'w WState \<Rightarrow> 'q \<times> 'w WState \<Rightarrow> bool"
  for keyf Q where
  iter: "q_Get Q q = Some (item, q1) \<Longrightarrow> dispatch W keyf item (st\<lparr>ws_queue := []\<rparr>) = (r, st1) \<Longrightarrow>
     worker_next W keyf Q (q, st) = Ok (q', st') \<Longrightarrow> iteration keyf Q (r = Ok ()) (q, st) (q', st'')"

inductive_cases iterationE: "iteration keyf Q ok (q, st) S"

context workqueue
begin

lemma fold_add_any:
  "pend (fold (q_Add Q) xs q) = pend q + (if accepts q then mset xs else {#})
     \<and> accepts (fold (q_Add Q) xs q) = accepts q"
  by (induction xs arbitrary: q) (simp_all add: add closed)

lemma worker_next_accepts:
  assumes "worker_next W keyf Q (q, st) = Ok (q', st')"
  shows "accepts q' = accepts q"
proof (cases "q_Get Q q")
  case None
  with assms show ?thesis by (simp add: worker_next_def)
next
  case (Some p)
  then obtain item q1 where g: "q_Get Q q = Some (item, q1)" by (cases p) simp
  with assms get [OF g] show ?thesis
    by (auto simp: worker_next_def Let_def finish forget limited fold_add_any
        split: prod.split_asm outcome.split_asm)
qed

lemma iteration_pend:
  assumes "iteration keyf Q True (q, st) (q', st')"
  shows "\<exists>item rest new. pend q = add_mset item rest \<and> pend q' = rest + new
     \<and> (\<forall>x \<in># new. item_rank x < item_rank item)"
  using assms
proof (rule iterationE)
  fix item q1 W r st1 q'' st'' st3
  assume 1: "(q', st') = (q'', st'')" "True = (r = Ok ())" "q_Get Q q = Some (item, q1)"
    "dispatch W keyf item (st\<lparr>ws_queue := []\<rparr>) = (r, st1)"
    "worker_next W keyf Q (q, st) = Ok (q'', st3)"
  let ?xs = "map ISync (ws_queue st1)"
  have "q' = q_Done Q item (q_Forget Q item (fold (q_Add Q) ?xs q1))"
    using 1 by (simp add: worker_next_def Let_def)
  then have p: "pend q' = pend q1 + (if accepts q1 then mset ?xs else {#})"
    using fold_add_any [of ?xs q1] by (simp add: finish forget)
  have "\<forall>x \<in> set ?xs. item_rank x < item_rank item"
    using dispatch_ranks [OF 1(4)] by simp
  with p show ?thesis using get [OF 1(3)]
    by (intro exI [of _ item] exI [of _ "pend q1"] exI [of _ "if accepts q1 then mset ?xs else {#}"]) simp
qed

text \<open>The ranks of the items of the queue decrease in the multiset ordering.\<close>

lemma iteration_decreases:
  assumes "iteration keyf Q True S S'"
  shows "(image_mset item_rank (pend (fst S')), image_mset item_rank (pend (fst S))) \<in> mult less_than"
proof -
  obtain item rest new where p: "pend (fst S) = add_mset item rest"
    "pend (fst S') = rest + new" and r: "\<forall>x \<in># new. item_rank x < item_rank item"
    using iteration_pend [of keyf "fst S" "snd S" "fst S'" "snd S'"] assms by auto
  have "(image_mset item_rank rest + image_mset item_rank new,
      image_mset item_rank rest + {#item_rank item#}) \<in> mult less_than"
    using r by (intro one_step_implies_mult) auto
  with p show ?thesis by simp
qed

lemma no_endless_success: "\<exists>i \<ge> n. \<not> iteration keyf Q True (f i) (f (Suc i))"
proof (rule ccontr)
  let ?r = "\<lambda>i. image_mset item_rank (pend (fst (f (n + i))))"
  assume "\<not> ?thesis"
  then have "(?r (Suc i), ?r i) \<in> mult less_than" for i
    by (intro iteration_decreases [of keyf]) simp
  then have "\<exists>g. \<forall>i. (g (Suc i), g i) \<in> mult less_than" by (intro exI [of _ ?r]) simp
  with wf_mult [OF wf_less_than] show False unfolding wf_iff_no_infinite_down_chain by contradiction
qed

end

section \<open>The loops\<close>

text \<open>
  \<open>work\<close>: iterations until the queue is shutting down.  Before iteration \<open>n\<close> others may act on the queue
  and on the Varnish controller (\<open>env n\<close>), and \<open>Ws n\<close> has the listers of that moment.  A \<open>Get\<close> that
  blocks is an iteration without effect, until others have added an item.  None: the loop never ends.
\<close>

partial_function (option) work ::
    "(nat \<Rightarrow> 'w Worker) \<Rightarrow> (KObj \<Rightarrow> string option) \<Rightarrow> 'q queue_ops
      \<Rightarrow> (nat \<Rightarrow> 'q \<times> 'w WState \<Rightarrow> 'q \<times> 'w WState) \<Rightarrow> nat \<Rightarrow> 'q \<times> 'w WState
      \<Rightarrow> (unit, 'q \<times> 'w WState) outcome option" where
  "work Ws keyf Q env n S =
     (if q_ShuttingDown Q (fst S) then Some (Ok S)
      else
        (case worker_next (Ws n) keyf Q (env n S) of
           Ok S' \<Rightarrow> work Ws keyf Q env (Suc n) S'
         | Err e \<Rightarrow> Some (Err e)
         | Panic \<Rightarrow> Some Panic))"

text \<open>The loop of the router, \<open>Run\<close>.\<close>

partial_function (option) ns_Run ::
    "(KObj \<Rightarrow> string option) \<Rightarrow> (string \<Rightarrow> (string \<times> string) option) \<Rightarrow> 'q queue_ops
      \<Rightarrow> (nat \<Rightarrow> 'q NamespaceQueues \<Rightarrow> 'q NamespaceQueues) \<Rightarrow> nat \<Rightarrow> 'q NamespaceQueues
      \<Rightarrow> 'q NamespaceQueues option" where
  "ns_Run keyf split Q env n qs =
     (if q_ShuttingDown Q (nq_Queue qs) then Some qs
      else ns_Run keyf split Q env (Suc n) (ns_next keyf split Q (env n qs)))"

context workqueue
begin

text \<open>The loop ends at the latest with the iteration in which the queue is shut down.\<close>

lemma work_ends:
  assumes "\<And>S. q_ShuttingDown Q (fst (env k S))" and "n \<le> k"
  shows "\<exists>r. work Ws keyf Q env n S = Some r \<and> (\<forall>q st. r = Ok (q, st) \<longrightarrow> q_ShuttingDown Q q)"
  using assms(2)
proof (induction "k - n" arbitrary: n S)
  case 0
  then have n: "n = k" by simp
  show ?case
  proof (cases "worker_next (Ws k) keyf Q (env k S)")
    case (Ok S')
    then have "worker_next (Ws k) keyf Q (fst (env k S), snd (env k S)) = Ok (fst S', snd S')"
      by simp
    then have "q_ShuttingDown Q (fst S')" using worker_next_accepts assms(1) shutting by metis
    with n Ok show ?thesis by (cases S; cases S') (simp add: work.simps)
  qed (cases S; simp add: n work.simps)+
next
  case (Suc m)
  then have IH: "\<exists>r. work Ws keyf Q env (Suc n) S = Some r
      \<and> (\<forall>q st. r = Ok (q, st) \<longrightarrow> q_ShuttingDown Q q)" for S by simp
  show ?case
  proof (cases "worker_next (Ws n) keyf Q (env n S)")
    case (Ok S')
    with IH [of S'] show ?thesis by (cases S) (simp add: work.simps [of Ws keyf Q env n])
  qed (cases S; simp add: work.simps)+
qed

lemma ns_next_accepts: "accepts (nq_Queue (ns_next keyf split Q qs)) = accepts (nq_Queue qs)"
proof (cases "q_Get Q (nq_Queue qs)")
  case (Some p)
  then obtain item q1 where g: "q_Get Q (nq_Queue qs) = Some (item, q1)" by (cases p) simp
  with get [OF g] show ?thesis
    by (auto simp: ns_next_def Let_def finish forget split: item.split option.split)
qed (simp add: ns_next_def)

lemma ns_Run_ends:
  assumes "\<And>qs. q_ShuttingDown Q (nq_Queue (env k qs))" and "n \<le> k"
  shows "\<exists>qs'. ns_Run keyf split Q env n qs = Some qs' \<and> q_ShuttingDown Q (nq_Queue qs')"
  using assms(2)
proof (induction "k - n" arbitrary: n qs)
  case 0
  then have n: "n = k" by simp
  have "q_ShuttingDown Q (nq_Queue (ns_next keyf split Q (env k qs)))"
    using assms(1) by (simp add: shutting ns_next_accepts)
  with n show ?case by (simp add: ns_Run.simps)
next
  case (Suc m)
  then have IH: "\<exists>qs'. ns_Run keyf split Q env (Suc n) qs = Some qs'
      \<and> q_ShuttingDown Q (nq_Queue qs')" for qs by simp
  show ?case by (subst (1) ns_Run.simps) (simp add: IH)
qed

lemma ns_Stop_shuts:
  "q_ShuttingDown Q (nq_Queue (ns_Stop Q qs))"
  "gm_get (nq_workers (ns_Stop Q qs)) ns = Some q \<Longrightarrow> q_ShuttingDown Q q"
  using stopped_queues [of qs] by (auto simp: shutting)

end

end
