(* ===== verification/MonitorSync.thy ===== *)
theory MonitorSync
  imports Monitor VarnishSync
begin

text \<open>
  What a round of the monitor does to the instances: it removes cold configurations of the controller
  and nothing else, and when it reports no failed update it has put the current configuration back.
\<close>

section \<open>The contract of the commands of the monitor\<close>

text \<open>
  The queries change no VCL list; a discard, successful or not, takes away entries of its own
  instance that have the given name, and no other entry.
\<close>

locale varnish_monitor = varnish_admin ADM vcls at
  for ADM :: "'w admin" and vcls :: "string \<Rightarrow> 'w \<Rightarrow> VCLData list"
    and at :: "'w \<Rightarrow> nat \<Rightarrow> string \<Rightarrow> bool" +
  assumes ping_frame: "adm_Ping ADM c w = (e, w') \<Longrightarrow>
          vcls x w' = vcls x w \<and> (at w c a \<longrightarrow> at w' c a)"
    and status_frame: "adm_Status ADM c w = (s, w') \<Longrightarrow>
          vcls x w' = vcls x w \<and> (at w c a \<longrightarrow> at w' c a)"
    and panic_frame: "adm_GetPanic ADM c w = (s, w') \<Longrightarrow>
          vcls x w' = vcls x w \<and> (at w c a \<longrightarrow> at w' c a)"
    and discard_frame: "at w c a \<Longrightarrow> adm_VCLDiscard ADM c n w = (e, w') \<Longrightarrow>
          at w' c a \<and> (\<forall>x. x \<noteq> a \<longrightarrow> vcls x w' = vcls x w)
          \<and> set (vcls a w') \<subseteq> set (vcls a w)
          \<and> (\<forall>v \<in> set (vcls a w). vd_Name v \<noteq> n \<longrightarrow> v \<in> set (vcls a w'))"

lemma sim_query_world: "sim_query c f w = (r, w') \<Longrightarrow> w' = w"
  by (auto simp: sim_query_def split: if_split_asm option.split_asm)

lemma sim_ping_world: "sim_cmd c (\<lambda>i. i) w = (e, w') \<Longrightarrow> w' = w"
  by (auto simp: sim_cmd_def split: if_split_asm option.split_asm)

interpretation simm: varnish_monitor sim_admin sim_vcls sim_at
proof
  fix c w e w' x a
  assume "adm_Ping sim_admin c w = (e, w')"
  then show "sim_vcls x w' = sim_vcls x w \<and> (sim_at w c a \<longrightarrow> sim_at w' c a)"
    using sim_ping_world by (fastforce simp: sim_admin_def)
next
  fix c w s w' x a
  assume "adm_Status sim_admin c w = (s, w')"
  then show "sim_vcls x w' = sim_vcls x w \<and> (sim_at w c a \<longrightarrow> sim_at w' c a)"
    using sim_query_world by (fastforce simp: sim_admin_def)
next
  fix c w s w' x a
  assume "adm_GetPanic sim_admin c w = (s, w')"
  then show "sim_vcls x w' = sim_vcls x w \<and> (sim_at w c a \<longrightarrow> sim_at w' c a)"
    using sim_query_world by (fastforce simp: sim_admin_def)
next
  fix w c a n e w'
  assume at: "sim_at w c a" and "adm_VCLDiscard sim_admin c n w = (e, w')"
  then have cmd: "sim_cmd c (sim_discard n) w = (e, w')" by (simp add: sim_admin_def)
  have addr: "si_addr (sim_discard n (w ! c)) = si_addr (w ! c)" by (simp add: sim_discard_def)
  have c: "sim_find a w = Some c" using at by (simp add: sim_at_def)
  have "sim_vcls a w' = sim_vcls a w \<or> sim_vcls a w' = filter (\<lambda>v. vd_Name v \<noteq> n) (sim_vcls a w)"
  proof (cases e)
    case None
    with sim_cmd_frame(3) [OF cmd c addr] c show ?thesis by (simp add: sim_vcls_at sim_discard_def)
  next
    case (Some x)
    with cmd have "w' = w" by (auto simp: sim_cmd_def split: if_split_asm option.split_asm)
    then show ?thesis by simp
  qed
  with sim_cmd_frame(1,2) [OF cmd c addr]
  show "sim_at w' c a \<and> (\<forall>x. x \<noteq> a \<longrightarrow> sim_vcls x w' = sim_vcls x w)
      \<and> set (sim_vcls a w') \<subseteq> set (sim_vcls a w)
      \<and> (\<forall>v \<in> set (sim_vcls a w). vd_Name v \<noteq> n \<longrightarrow> v \<in> set (sim_vcls a w'))"
    by (auto simp: sim_at_def)
qed

section \<open>The check of an instance\<close>

text \<open>No entry of the list with the name of \<open>v\<close> may be discarded.\<close>

definition kept_by :: "VCLData list \<Rightarrow> VCLData \<Rightarrow> bool" where
  "kept_by vs v \<longleftrightarrow> v \<in> set vs \<and> (\<forall>u \<in> set vs. vd_Name u = vd_Name v \<longrightarrow> \<not> discardable u)"

context varnish_monitor
begin

lemma discard_loop_frame:
  assumes "discard_loop ADM c svc vs w = (ok, evs, w')" and "at w c a"
  shows "(\<forall>x. x \<noteq> a \<longrightarrow> vcls x w' = vcls x w) \<and> set (vcls a w') \<subseteq> set (vcls a w)
     \<and> (\<forall>v \<in> set (vcls a w). (\<forall>u \<in> set vs. vd_Name u = vd_Name v \<longrightarrow> \<not> discardable u)
          \<longrightarrow> v \<in> set (vcls a w'))"
  using assms
proof (induction vs arbitrary: w evs)
  case (Cons u vs)
  show ?case
  proof (cases "discardable u")
    case False
    with Cons.prems(1) have "discard_loop ADM c svc vs w = (ok, evs, w')" by simp
    from Cons.IH [OF this Cons.prems(2)] show ?thesis by simp
  next
    case True
    obtain e w1 where d: "adm_VCLDiscard ADM c (vd_Name u) w = (e, w1)" by fastforce
    note f = discard_frame [OF Cons.prems(2) d]
    show ?thesis
    proof (cases e)
      case None
      with Cons.prems(1) True d have l: "discard_loop ADM c svc vs w1 = (ok, evs, w')" by simp
      have "at w1 c a" using f by simp
      from Cons.IH [OF l this] f True show ?thesis by auto
    next
      case (Some x)
      with Cons.prems(1) True d have "w' = w1" by simp
      with f True show ?thesis by auto
    qed
  qed
qed simp

lemma check_cmds_kept:
  assumes "check_cmds ADM c svc w = (ok, evs, w')" and "at w c a"
  shows "(x \<noteq> a \<longrightarrow> vcls x w' = vcls x w) \<and> set (vcls x w') \<subseteq> set (vcls x w)
     \<and> (kept_by (vcls a w) v \<longrightarrow> v \<in> set (vcls a w'))"
proof -
  obtain e1 w1 where p: "adm_Ping ADM c w = (e1, w1)" by fastforce
  obtain s w2 where s: "adm_Status ADM c w1 = (s, w2)" by fastforce
  obtain q w3 where q: "adm_GetPanic ADM c w2 = (q, w3)" by fastforce
  obtain l w4 where l: "adm_VCLList ADM c w3 = (l, w4)" by fastforce
  have w: "vcls y w1 = vcls y w" "vcls y w2 = vcls y w" "vcls y w3 = vcls y w" "vcls y w4 = vcls y w"
    for y
    using ping_frame [OF p] status_frame [OF s] panic_frame [OF q] list_frame [OF l] by simp_all
  have a: "at w3 c a" "at w4 c a"
    using assms(2) ping_frame [OF p] status_frame [OF s] panic_frame [OF q] list_frame [OF l] by blast+
  show ?thesis
  proof (cases "w' \<in> {w1, w2, w3, w4}")
    case True
    then show ?thesis using w by (auto simp: kept_by_def)
  next
    case False
    with assms(1) p s q l obtain vs ok' ev' where "l = Inr vs"
      and d: "discard_loop ADM c svc vs w4 = (ok', ev', w')"
      by (auto simp: check_cmds_def Let_def split: option.split_asm sum.split_asm prod.split_asm)
    then have "vs = vcls a w" using list_ok [OF a(1)] l w by simp
    with discard_loop_frame [OF d a(2)] w show ?thesis
      by (cases "x = a") (auto simp: kept_by_def)
  qed
qed

lemma checkInst_kept:
  assumes "checkInst ADM heap svc i w = (ok, evs, i', w')"
  shows "(x \<noteq> vi_addr i \<longrightarrow> vcls x w' = vcls x w) \<and> set (vcls x w') \<subseteq> set (vcls x w)
     \<and> (kept_by (vcls x w) v \<longrightarrow> kept_by (vcls x w') v)"
proof (cases "vi_admSecret i")
  case None
  with assms show ?thesis by (simp add: checkInst_def)
next
  case (Some p)
  obtain d w1 where d: "adm_Dial ADM (vi_addr i) (deref heap p) w = (d, w1)" by fastforce
  note w1 = dial_vcls [OF d]
  show ?thesis
  proof (cases d)
    case (Inl e)
    with assms Some d w1 show ?thesis by (simp add: checkInst_def)
  next
    case (Inr cb)
    obtain c b where cb: "cb = (c, b)" by fastforce
    obtain ok2 ev2 w2 where cc: "check_cmds ADM c svc w1 = (ok2, ev2, w2)" by (rule prod_cases3)
    have "at w1 c (vi_addr i)" using dial_ok d Inr cb by simp
    note k = check_cmds_kept [OF cc this, of x v]
    have "vcls x w' = vcls x w2" using assms Some d Inr cb cc by (auto simp: checkInst_def close_vcls)
    with k w1 show ?thesis by (cases "x = vi_addr i") (auto simp: kept_by_def)
  qed
qed

lemma check_loop_kept:
  assumes "check_loop ADM heap svc is w = (ok, evs, is', w')"
  shows "(x \<notin> vi_addr ` set is \<longrightarrow> vcls x w' = vcls x w) \<and> set (vcls x w') \<subseteq> set (vcls x w)
     \<and> (kept_by (vcls x w) v \<longrightarrow> kept_by (vcls x w') v)"
  using assms
proof (induction "is" arbitrary: w ok evs is' w')
  case (Cons i "is")
  obtain o1 e1 i1 w1 where c: "checkInst ADM heap svc i w = (o1, e1, i1, w1)" by (rule prod_cases4)
  obtain o2 e2 is2 w2 where l: "check_loop ADM heap svc is w1 = (o2, e2, is2, w2)"
    by (rule prod_cases4)
  from Cons.prems c l have "w' = w2" by simp
  with Cons.IH [OF l] checkInst_kept [OF c, of x v] show ?case by auto
qed simp

end

section \<open>A round repairs the instances\<close>

lemma monitor_svc_cases:
  assumes "monitor_svc ADM k vc = (evs, vc')" and "gm_get (vc_svcs vc) k = Some svc"
  obtains good ev insts w e where
    "check_loop ADM (vc_heap vc) k (vs_instances svc) (vc_world vc) = (good, ev, insts, w)"
    "updateVarnishSvc ADM k ((put_svc k (svc\<lparr>vs_instances := insts\<rparr>) vc)\<lparr>vc_world := w\<rparr>) = (e, vc')"
    "e \<noteq> None \<longrightarrow> (EvtError, k, updateErr) \<in> set evs"
proof -
  obtain good ev insts w where l: "check_loop ADM (vc_heap vc) k (vs_instances svc) (vc_world vc)
      = (good, ev, insts, w)" by (rule prod_cases4)
  obtain e vc2 where u: "updateVarnishSvc ADM k
      ((put_svc k (svc\<lparr>vs_instances := insts\<rparr>) vc)\<lparr>vc_world := w\<rparr>) = (e, vc2)" by fastforce
  show ?thesis
    by (rule that [OF l, of e])
      (use assms l u in \<open>auto simp: monitor_svc_def split: option.split_asm\<close>)
qed

context varnish_monitor
begin

lemma monitor_svc_repairs:
  assumes "monitor_svc ADM k vc = (evs, vc')" and "gm_get (vc_svcs vc) k = Some svc"
    and "vs_spec svc = Some sp" and "distinct (map vi_addr (vs_instances svc))"
    and "(EvtError, k, updateErr) \<notin> set evs" and "gm_ok (vc_svcs vc)"
  shows "\<exists>svc'. gm_get (vc_svcs vc') k = Some svc' \<and> vs_cfgLoaded svc'
     \<and> map vi_addr (vs_instances svc') = map vi_addr (vs_instances svc)
     \<and> (\<forall>i \<in> set (vs_instances svc').
          configured (configName (vm_spec sp)) (vcls (vi_addr i) (vc_world vc')))"
proof -
  obtain good ev insts w where
    l: "check_loop ADM (vc_heap vc) k (vs_instances svc) (vc_world vc) = (good, ev, insts, w)"
    and u: "updateVarnishSvc ADM k ((put_svc k (svc\<lparr>vs_instances := insts\<rparr>) vc)\<lparr>vc_world := w\<rparr>)
      = (None, vc')"
    using monitor_svc_cases [OF assms(1,2)] assms(5) by metis
  have "map vi_addr insts = map vi_addr (vs_instances svc)" using check_loop_keeps [OF l] by simp
  with updateVarnishSvc_configured [OF u, of "svc\<lparr>vs_instances := insts\<rparr>" sp] assms(3,4,6)
  show ?thesis by auto
qed

end

end
