(* ===== verification/VarnishAbs.thy ===== *)
theory VarnishAbs
  imports VarnishReach
begin

text \<open>
  An abstract specification of the Varnish controller, and the proof that \<open>varnish.go\<close> refines it.
  What a client of the controller sees is a map from the keys of Varnish Services to the addresses of
  the instances and the configuration that they are to have, in canonical form.  The order of the
  instances, secrets, gauges, the state of the instances and the marks for loaded configurations are
  gone, and each operation of the controller is one update of the map or none.
\<close>

section \<open>The abstract controller\<close>

record AbsSvc =
  av_addrs :: "string set"
  av_cfg :: "VclSpecMeta option"

type_synonym abs_state = "string \<Rightarrow> AbsSvc option"

datatype ctl_op =
    OpAddrs string "Address list"
  | OpConfig string Spec "Meta gomap" Meta "Meta gomap"
  | OpNotReady string
  | OpEnsure string
  | OpRemove string
  | OpSkip

definition abs_empty :: AbsSvc where
  "abs_empty = \<lparr>av_addrs = {}, av_cfg = None\<rparr>"

definition abs_get :: "abs_state \<Rightarrow> string \<Rightarrow> AbsSvc" where
  "abs_get m k = (case m k of None \<Rightarrow> abs_empty | Some s \<Rightarrow> s)"

fun abs_op :: "ctl_op \<Rightarrow> abs_state \<Rightarrow> abs_state" where
  "abs_op (OpAddrs k addrs) m = m(k \<mapsto> (abs_get m k)\<lparr>av_addrs := adm_addr ` set addrs\<rparr>)"
| "abs_op (OpConfig k spec im vm bm) m = m(k \<mapsto> (abs_get m k)\<lparr>av_cfg :=
     Some \<lparr>vm_spec = Canonical spec, vm_ings = im, vm_vcfg = vm, vm_bcfg = bm\<rparr>\<rparr>)"
| "abs_op (OpNotReady k) m = m(k := map_option (av_cfg_update (\<lambda>_. None)) (m k))"
| "abs_op (OpEnsure k) m = m(k \<mapsto> abs_get m k)"
| "abs_op (OpRemove k) m = m(k := None)"
| "abs_op OpSkip m = m"

section \<open>The abstraction\<close>

definition abs_svc :: "VarnishSvc \<Rightarrow> AbsSvc" where
  "abs_svc svc = \<lparr>av_addrs = vi_addr ` set (vs_instances svc),
     av_cfg = map_option (set_spec Canonical) (vs_spec svc)\<rparr>"

definition abs_vc :: "'w Controller \<Rightarrow> abs_state" where
  "abs_vc vc = (\<lambda>k. map_option abs_svc (gm_get (vc_svcs vc) k))"

text \<open>The specifications that are kept satisfy what makes their canonical form stable.\<close>

definition spec_ok :: "VarnishSvc \<Rightarrow> bool" where
  "spec_ok svc \<longleftrightarrow> (case vs_spec svc of None \<Rightarrow> True | Some sp \<Rightarrow> spec_ports_agree (vm_spec sp))"

definition specs_ok :: "'w Controller \<Rightarrow> bool" where
  "specs_ok vc \<longleftrightarrow> (\<forall>k svc. gm_get (vc_svcs vc) k = Some svc \<longrightarrow> spec_ok svc)"

named_theorems abs_simps "how the abstraction and its side condition see the updates of the map"

lemma abs_vc_put [abs_simps]:
  "abs_vc (put_svc k svc vc) = (abs_vc vc)(k \<mapsto> abs_svc svc)"
  "vc_svcs vc' = gm_put k svc (vc_svcs vc) \<Longrightarrow> abs_vc vc' = (abs_vc vc)(k \<mapsto> abs_svc svc)"
  by (auto simp: abs_vc_def)

lemma specs_ok_put [abs_simps]: "specs_ok vc \<Longrightarrow> spec_ok svc \<Longrightarrow> specs_ok (put_svc k svc vc)"
  by (auto simp: specs_ok_def split: if_split_asm)

lemma abs_vc_cong: "vc_svcs vc' = vc_svcs vc \<Longrightarrow> abs_vc vc' = abs_vc vc \<and> specs_ok vc' = specs_ok vc"
  by (simp add: abs_vc_def specs_ok_def)

lemma abs_vc_fields [abs_simps]:
  "abs_vc (vc\<lparr>vc_world := w\<rparr>) = abs_vc vc" "specs_ok (vc\<lparr>vc_world := w\<rparr>) = specs_ok vc"
  "abs_vc (vc\<lparr>vc_svcsGauge := g\<rparr>) = abs_vc vc" "specs_ok (vc\<lparr>vc_svcsGauge := g\<rparr>) = specs_ok vc"
  "abs_vc (vc\<lparr>vc_instsGauge := g\<rparr>) = abs_vc vc" "specs_ok (vc\<lparr>vc_instsGauge := g\<rparr>) = specs_ok vc"
  "abs_vc (updateBeGauges vc) = abs_vc vc" "specs_ok (updateBeGauges vc) = specs_ok vc"
  by (simp_all add: abs_vc_def specs_ok_def updateBeGauges_def)

lemma abs_vc_get: "gm_get (vc_svcs vc) k = Some svc \<Longrightarrow> abs_vc vc k = Some (abs_svc svc)"
  by (simp add: abs_vc_def)

lemma abs_vc_same:
  "gm_get (vc_svcs vc) k = Some svc \<Longrightarrow> abs_svc svc' = abs_svc svc \<Longrightarrow>
     abs_vc (put_svc k svc' vc) = abs_vc vc"
  by (auto simp: abs_simps abs_vc_get)

lemma specs_ok_get: "specs_ok vc \<Longrightarrow> gm_get (vc_svcs vc) k = Some svc \<Longrightarrow> spec_ok svc"
  by (simp add: specs_ok_def)

text \<open>A change of a service that is not seen: marks, secrets, banners and the order of slices.\<close>

lemma abs_svc_simps [simp]:
  "abs_svc (svc\<lparr>vs_cfgLoaded := b\<rparr>) = abs_svc svc" "abs_svc (svc\<lparr>vs_secrName := n\<rparr>) = abs_svc svc"
  "abs_svc (svc\<lparr>vs_instances := map (set_secret p) (vs_instances svc)\<rparr>) = abs_svc svc"
  "abs_svc (svc\<lparr>vs_secrName := n, vs_instances := map (set_secret p) (vs_instances svc)\<rparr>) = abs_svc svc"
  "spec_ok (svc\<lparr>vs_cfgLoaded := b\<rparr>) = spec_ok svc" "spec_ok (svc\<lparr>vs_secrName := n\<rparr>) = spec_ok svc"
  "spec_ok (svc\<lparr>vs_instances := is\<rparr>) = spec_ok svc"
  by (auto simp: abs_svc_def spec_ok_def set_secret_def image_iff)

lemma abs_svc_insts:
  "map vi_addr is = map vi_addr (vs_instances svc) \<Longrightarrow> abs_svc (svc\<lparr>vs_instances := is\<rparr>) = abs_svc svc"
  unfolding abs_svc_def by (simp flip: set_map)

lemma abs_svc_effect:
  assumes "spec_ok svc" and "vs_spec svc = Some sp"
  shows "abs_svc (svc\<lparr>vs_spec := Some (set_spec Canonical_effect sp)\<rparr>) = abs_svc svc"
    and "spec_ok (svc\<lparr>vs_spec := Some (set_spec Canonical_effect sp)\<rparr>)"
  using assms by (simp_all add: abs_svc_def spec_ok_def set_spec_def Canonical_of_effect)

section \<open>The operations\<close>

definition refines :: "ctl_op \<Rightarrow> 'w Controller \<Rightarrow> 'w Controller \<Rightarrow> bool" where
  "refines op vc vc' \<longleftrightarrow> abs_vc vc' = abs_op op (abs_vc vc) \<and> specs_ok vc'"

lemma refines_Skip_trans:
  "refines OpSkip vc1 vc2 \<Longrightarrow> abs_vc vc1 = abs_op op (abs_vc vc) \<Longrightarrow> refines op vc vc2"
  by (simp add: refines_def)

lemma updateVarnishSvc_refines:
  assumes "updateVarnishSvc ADM k vc = (e, vc')" and "specs_ok vc"
  shows "refines OpSkip vc vc'"
  using assms(1)
proof (cases rule: updateVarnishSvc_cases)
  case (5 svc sp src errs insts w)
  let ?svc = "svc\<lparr>vs_instances := insts\<rparr>"
  have ok: "spec_ok svc" by (rule specs_ok_get [OF assms(2) 5(1)])
  then have "spec_ok ?svc" "vs_spec ?svc = Some sp" using 5(3) by simp_all
  note e = abs_svc_effect [OF this]
  have "map vi_addr insts = map vi_addr (vs_instances svc)"
    using inst_loop_keeps [OF 5(5) keeps_update] by simp
  from abs_svc_insts [OF this] e(1)
  have "abs_svc (?svc\<lparr>vs_spec := Some (set_spec Canonical_effect sp)\<rparr>) = abs_svc svc" by simp
  with 5(1,7) e(2) assms(2) ok show ?thesis
    by (simp add: refines_def abs_simps abs_vc_get fun_upd_idem)
next
  case (2 svc)
  with assms(2) specs_ok_get [OF assms(2) 2(1)] show ?thesis
    by (simp add: refines_def abs_simps abs_vc_get fun_upd_idem)
next
  case (3 svc)
  with assms(2) specs_ok_get [OF assms(2) 3(1)] show ?thesis
    by (simp add: refines_def abs_simps abs_vc_get fun_upd_idem)
next
  case (4 svc)
  with assms(2) specs_ok_get [OF assms(2) 4(1)] show ?thesis
    by (simp add: refines_def abs_simps abs_vc_get fun_upd_idem)
qed (simp add: refines_def assms(2))

lemma ensure_svc_refines: "specs_ok vc \<Longrightarrow> refines (OpEnsure k) vc (ensure_svc k vc)"
  by (cases "gm_get (vc_svcs vc) k")
    (auto simp: refines_def ensure_svc_def abs_simps abs_get_def abs_vc_def abs_svc_def abs_empty_def
      new_VarnishSvc_def spec_ok_def specs_ok_def split: if_split_asm)

lemma updateVarnishSvcAddrs_refines:
  assumes "updateVarnishSvcAddrs ADM ord k addrs sp loadVCL vc = (e, vc')" and "specs_ok vc"
    and "gm_get (vc_svcs vc) k = Some svc" and "map_order_ok ord"
  shows "refines (OpAddrs k addrs) vc vc'"
proof -
  let ?new = "new_insts ord sp (vs_instances svc) addrs"
  let ?svc = "svc\<lparr>vs_instances := keep_insts ord (vs_instances svc) addrs @ ?new\<rparr>"
  let ?vc1 = "(put_svc k ?svc vc)\<lparr>vc_instsGauge := vc_instsGauge vc + int (length ?new)\<rparr>"
  obtain errs is' vc2 where r: "removeVarnishInstances ADM (rem_insts ord (vs_instances svc) addrs)
      ?vc1 = (errs, is', vc2)" by (rule prod_cases3)
  from removeVarnishInstances_simps(1) [OF r]
  have "abs_vc vc2 = abs_vc ?vc1" "specs_ok vc2 = specs_ok ?vc1" by (simp_all add: abs_vc_cong)
  moreover have "vi_addr ` set (vs_instances ?svc) = adm_addr ` set addrs"
    unfolding update_addrs_keys [symmetric]
      mset_eq_setD [OF new_addresses [OF assms(4), of "vs_instances svc" addrs sp], symmetric]
    by (simp add: image_Un)
  moreover have "spec_ok ?svc" using specs_ok_get [OF assms(2,3)] by simp
  ultimately have r2: "refines (OpAddrs k addrs) vc vc2"
    using assms(2,3) by (simp add: refines_def abs_simps abs_get_def abs_vc_get) (simp add: abs_svc_def)
  show ?thesis
  proof (cases loadVCL)
    case False
    with assms(1,3) r have "vc' = vc2" by (simp add: updateVarnishSvcAddrs_def Let_def)
    with r2 show ?thesis by simp
  next
    case True
    obtain e' vc3 where u: "updateVarnishSvc ADM k vc2 = (e', vc3)" by fastforce
    with assms(1,3) r True have "vc' = vc3"
      by (simp add: updateVarnishSvcAddrs_def Let_def split: option.split_asm vc_error.split_asm)
    with updateVarnishSvc_refines [OF u] r2 show ?thesis by (simp add: refines_def)
  qed
qed

lemma add_svc_refines:
  assumes "specs_ok vc"
  shows "specs_ok (add_svc k addrs vc)"
    and "abs_op (OpAddrs k addrs') (abs_vc (add_svc k addrs vc)) = abs_op (OpAddrs k addrs') (abs_vc vc)"
    and "\<exists>svc. gm_get (vc_svcs (add_svc k addrs vc)) k = Some svc"
  using assms
  by (cases "gm_get (vc_svcs vc) k";
      auto simp: add_svc_def abs_simps abs_get_def abs_vc_def abs_svc_def abs_empty_def
        new_VarnishSvc_def spec_ok_def specs_ok_def split: if_split_asm)+

lemma AddOrUpdateVarnishSvc_refines:
  assumes "AddOrUpdateVarnishSvc ADM ord k addrs secr loadVCL vc = (e, vc')" and "specs_ok vc"
    and "map_order_ok ord"
  shows "refines (OpAddrs k addrs) vc vc'"
proof -
  let ?vc1 = "add_svc k addrs vc" and ?p = "gm_get (vc_secrets vc) secr"
  obtain svc where svc: "gm_get (vc_svcs ?vc1) k = Some svc" using add_svc_refines(3) [OF assms(2)] by blast
  let ?svc = "svc\<lparr>vs_secrName := secr, vs_instances := map (set_secret ?p) (vs_instances svc)\<rparr>"
  have ok: "specs_ok (put_svc k ?svc ?vc1)"
    using specs_ok_get [OF add_svc_refines(1) [OF assms(2)] svc]
    by (intro specs_ok_put add_svc_refines(1) [OF assms(2)]) (simp add: spec_ok_def)
  from assms(1) svc
  have "updateVarnishSvcAddrs ADM ord k addrs ?p loadVCL (put_svc k ?svc ?vc1) = (e, vc')"
    by (simp add: AddOrUpdateVarnishSvc_def Let_def)
  from updateVarnishSvcAddrs_refines [OF this ok _ assms(3)]
  have "refines (OpAddrs k addrs) (put_svc k ?svc ?vc1) vc'" by simp
  moreover have "abs_vc (put_svc k ?svc ?vc1) = abs_vc ?vc1" by (rule abs_vc_same [OF svc]) simp
  ultimately show ?thesis using add_svc_refines(2) [OF assms(2)] by (simp add: refines_def)
qed

lemma Update_refines:
  assumes "Update ADM k spec im vm bm vc = (e, vc')" and "specs_ok vc" and "spec_ports_agree spec"
  shows "refines (OpConfig k spec im vm bm) vc vc'"
proof -
  obtain svc where svc: "gm_get (vc_svcs (ensure_svc k vc)) k = Some svc" using ensure_svc_get by blast
  let ?sp = "\<lparr>vm_spec = spec, vm_ings = im, vm_vcfg = vm, vm_bcfg = bm\<rparr>"
  let ?vc2 = "updateBeGauges (put_svc k (svc\<lparr>vs_cfgLoaded := False, vs_spec := Some ?sp\<rparr>)
      (ensure_svc k vc))"
  note en = ensure_svc_refines [OF assms(2), of k, unfolded refines_def]
  have a: "abs_svc svc = abs_get (abs_vc vc) k"
    using abs_vc_get [OF svc] en by simp
  have "spec_ok (svc\<lparr>vs_cfgLoaded := False, vs_spec := Some ?sp\<rparr>)"
    using assms(3) by (simp add: spec_ok_def)
  moreover have "abs_svc (svc\<lparr>vs_cfgLoaded := False, vs_spec := Some ?sp\<rparr>)
      = (abs_get (abs_vc vc) k)\<lparr>av_cfg := Some (set_spec Canonical ?sp)\<rparr>"
    unfolding a [symmetric] by (simp add: abs_svc_def)
  ultimately have r2: "refines (OpConfig k spec im vm bm) vc ?vc2"
    using en by (simp add: refines_def abs_simps set_spec_def)
  show ?thesis
  proof (cases "vs_instances svc = []")
    case True
    with assms(1) svc r2 show ?thesis by (simp add: Update_def Let_def)
  next
    case False
    with assms(1) svc have "updateVarnishSvc ADM k ?vc2 = (e, vc')" by (simp add: Update_def Let_def)
    from updateVarnishSvc_refines [OF this] r2 show ?thesis by (simp add: refines_def)
  qed
qed

lemma UpdateSvcForSecret_refines:
  assumes "UpdateSvcForSecret ADM k sk vc = (e, vc')" and "specs_ok vc"
  shows "refines (if gm_get (vc_secrets vc) sk = None then OpSkip else OpEnsure k) vc vc'"
proof (cases "gm_get (vc_svcs vc) k = None \<and> gm_get (vc_secrets vc) sk = None")
  case True
  with assms show ?thesis by (simp add: UpdateSvcForSecret_def Let_def refines_def)
next
  case False
  obtain svc where svc: "gm_get (vc_svcs (ensure_svc k vc)) k = Some svc" using ensure_svc_get by blast
  let ?s = "gm_get (vc_secrets vc) sk"
  let ?svc = "svc\<lparr>vs_secrName := if ?s = None then [] else sk,
      vs_instances := map (set_secret ?s) (vs_instances svc)\<rparr>"
  note en = ensure_svc_refines [OF assms(2), of k, unfolded refines_def]
  have "abs_vc (put_svc k ?svc (ensure_svc k vc)) = abs_vc (ensure_svc k vc)"
    by (rule abs_vc_same [OF svc]) simp
  moreover have "specs_ok (put_svc k ?svc (ensure_svc k vc))"
    using en specs_ok_get [OF _ svc] by (intro specs_ok_put) (simp_all add: spec_ok_def)
  moreover have "updateVarnishSvc ADM k (put_svc k ?svc (ensure_svc k vc)) = (e, vc')"
    using assms(1) False svc by (simp add: UpdateSvcForSecret_def Let_def)
  moreover have "abs_op (OpEnsure k) (abs_vc vc) = abs_vc vc" if "?s = None"
    using that False by (auto simp: abs_vc_def abs_get_def)
  ultimately show ?thesis using updateVarnishSvc_refines en by (fastforce simp: refines_def)
qed

lemma DeleteVarnishSvc_refines:
  assumes "DeleteVarnishSvc ADM k vc = (e, vc')" and "specs_ok vc"
  shows "refines (if e = None then OpSkip else OpRemove k) vc vc'"
proof (cases "gm_get (vc_svcs vc) k")
  case None
  with assms show ?thesis by (simp add: DeleteVarnishSvc_def refines_def)
next
  case (Some svc)
  obtain errs insts vc1 where r: "removeVarnishInstances ADM (vs_instances svc) vc = (errs, insts, vc1)"
    by (rule prod_cases3)
  note rs = removeVarnishInstances_simps [OF r]
  from abs_vc_cong [OF rs(1)] assms(2) have vc1: "abs_vc vc1 = abs_vc vc" "specs_ok vc1" by simp_all
  let ?vc2 = "put_svc k (svc\<lparr>vs_instances := insts\<rparr>) vc1"
  have "abs_vc ?vc2 = abs_vc vc"
    using vc1(1) abs_svc_insts [OF rs(4)] abs_vc_same [of vc1 k svc] Some rs(1) by simp
  moreover have "specs_ok ?vc2" using specs_ok_get [OF assms(2) Some] vc1(2) by (simp add: specs_ok_put)
  moreover have "abs_vc (?vc2\<lparr>vc_svcs := gm_del k (vc_svcs ?vc2), vc_svcsGauge := g\<rparr>)
      = (abs_vc ?vc2)(k := None)" for g
    by (auto simp: abs_vc_def)
  moreover have "specs_ok (?vc2\<lparr>vc_svcs := gm_del k (vc_svcs ?vc2), vc_svcsGauge := g\<rparr>)" for g
    using calculation(2) by (auto simp: specs_ok_def split: if_split_asm)
  ultimately show ?thesis
    using assms(1) Some r
    by (cases "errs = []") (auto simp: DeleteVarnishSvc_def Let_def refines_def errs_result_def)
qed

lemma SetNotReady_refines:
  assumes "SetNotReady ADM k vc = (e, vc')" and "specs_ok vc"
  shows "refines (OpNotReady k) vc vc'"
proof (cases "gm_get (vc_svcs vc) k")
  case None
  with assms show ?thesis
    by (simp add: SetNotReady_def refines_def abs_vc_def) (auto simp: abs_vc_def)
next
  case (Some svc)
  obtain errs insts w where l: "inst_loop (not_available ADM (vc_heap vc) False) (vs_instances svc)
      (vc_world vc) = (errs, insts, w)" by (rule prod_cases3)
  have "map vi_addr insts = map vi_addr (vs_instances svc)"
    using inst_loop_keeps [OF l keeps_not_available] by simp
  from abs_svc_insts [OF this]
  have "abs_svc (svc\<lparr>vs_spec := None, vs_instances := insts\<rparr>) = (abs_svc svc)\<lparr>av_cfg := None\<rparr>"
    by (simp add: abs_svc_def)
  moreover have "vc' = (put_svc k (svc\<lparr>vs_spec := None, vs_instances := insts\<rparr>) vc)\<lparr>vc_world := w\<rparr>"
    using assms(1) Some l by (simp add: SetNotReady_def)
  moreover have "spec_ok (svc\<lparr>vs_spec := None, vs_instances := insts\<rparr>)" by (simp add: spec_ok_def)
  ultimately show ?thesis
    using assms(2) Some by (simp add: refines_def abs_simps abs_vc_get)
qed

lemma HasConfig_refines:
  assumes "HasConfig k spec im vm bm vc = Ok (b, s', vc')" and "specs_ok vc"
  shows "refines OpSkip vc vc'"
proof -
  have "vc' = vc \<or> (\<exists>svc sp. gm_get (vc_svcs vc) k = Some svc \<and> vs_spec svc = Some sp
      \<and> vc' = put_svc k (svc\<lparr>vs_spec := Some (set_spec Canonical_effect sp)\<rparr>) vc)"
    using assms(1) by (auto simp: HasConfig_def split: option.split_asm if_split_asm)
  then show ?thesis
  proof (elim disjE exE conjE)
    fix svc sp
    assume svc: "gm_get (vc_svcs vc) k = Some svc" and sp: "vs_spec svc = Some sp"
      and vc': "vc' = put_svc k (svc\<lparr>vs_spec := Some (set_spec Canonical_effect sp)\<rparr>) vc"
    note e = abs_svc_effect [OF specs_ok_get [OF assms(2) svc] sp]
    show ?thesis using assms(2) e(2) abs_vc_same [OF svc e(1)] by (simp add: refines_def vc' specs_ok_put)
  qed (simp add: refines_def assms(2))
qed

lemma monitor_svc_refines:
  assumes "monitor_svc ADM k vc = (evs, vc')" and "specs_ok vc"
  shows "refines OpSkip vc vc'"
proof (cases "gm_get (vc_svcs vc) k")
  case None
  with assms show ?thesis by (simp add: monitor_svc_def refines_def)
next
  case (Some svc)
  obtain good ev insts w where l: "check_loop ADM (vc_heap vc) k (vs_instances svc) (vc_world vc)
      = (good, ev, insts, w)" by (rule prod_cases4)
  let ?vc1 = "(put_svc k (svc\<lparr>vs_instances := insts\<rparr>) vc)\<lparr>vc_world := w\<rparr>"
  obtain e vc2 where u: "updateVarnishSvc ADM k ?vc1 = (e, vc2)" by fastforce
  have "abs_svc (svc\<lparr>vs_instances := insts\<rparr>) = abs_svc svc"
    using check_loop_keeps [OF l] by (intro abs_svc_insts) simp
  then have "abs_vc ?vc1 = abs_vc vc" by (simp add: abs_vc_fields abs_vc_same [OF Some])
  moreover have "specs_ok ?vc1" using specs_ok_get [OF assms(2) Some] assms(2) by (simp add: abs_simps)
  moreover have "vc' = vc2" using assms(1) Some l u by (auto simp: monitor_svc_def split: option.split_asm)
  ultimately show ?thesis using updateVarnishSvc_refines [OF u] by (simp add: refines_def)
qed

section \<open>Runs\<close>

text \<open>
  The operations of the controller with the abstract operation that each performs.  \<open>Update\<close> gets a
  specification whose services each have one port, as all that the controller builds do.
\<close>

inductive vc_exec :: "'w admin \<Rightarrow> ctl_op \<Rightarrow> 'w Controller \<Rightarrow> 'w Controller \<Rightarrow> bool" for ADM where
  exec_AddOrUpdate: "map_order_ok ord \<Longrightarrow>
     AddOrUpdateVarnishSvc ADM ord k addrs secr loadVCL vc = (e, vc') \<Longrightarrow>
     vc_exec ADM (OpAddrs k addrs) vc vc'"
| exec_Delete: "DeleteVarnishSvc ADM k vc = (e, vc') \<Longrightarrow>
     vc_exec ADM (if e = None then OpSkip else OpRemove k) vc vc'"
| exec_Update: "spec_ports_agree spec \<Longrightarrow> Update ADM k spec im vm bm vc = (e, vc') \<Longrightarrow>
     vc_exec ADM (OpConfig k spec im vm bm) vc vc'"
| exec_SetNotReady: "SetNotReady ADM k vc = (e, vc') \<Longrightarrow> vc_exec ADM (OpNotReady k) vc vc'"
| exec_HasConfig: "HasConfig k spec im vm bm vc = Ok (b, s', vc') \<Longrightarrow> vc_exec ADM OpSkip vc vc'"
| exec_SetAdmSecret: "vc_exec ADM OpSkip vc (SetAdmSecret k secret vc)"
| exec_UpdateSvcForSecret: "UpdateSvcForSecret ADM k sk vc = (e, vc') \<Longrightarrow>
     vc_exec ADM (if gm_get (vc_secrets vc) sk = None then OpSkip else OpEnsure k) vc vc'"
| exec_DeleteAdmSecret: "vc_exec ADM OpSkip vc (DeleteAdmSecret k vc)"
| exec_monitor: "monitor_svc ADM k vc = (evs, vc') \<Longrightarrow> vc_exec ADM OpSkip vc vc'"

inductive vc_run :: "'w admin \<Rightarrow> ctl_op list \<Rightarrow> 'w Controller \<Rightarrow> bool" for ADM where
  run_init: "vc_run ADM [] (NewVarnishController w)"
| run_step: "vc_run ADM ops vc \<Longrightarrow> vc_exec ADM op vc vc' \<Longrightarrow> vc_run ADM (ops @ [op]) vc'"

lemma vc_exec_refines:
  assumes "vc_exec ADM op vc vc'" and "specs_ok vc"
  shows "refines op vc vc'"
  using assms(1)
proof cases
  case (exec_AddOrUpdate ord k addrs secr loadVCL e)
  then show ?thesis using AddOrUpdateVarnishSvc_refines assms(2) by blast
next
  case (exec_Delete k e)
  then show ?thesis using DeleteVarnishSvc_refines assms(2) by blast
next
  case (exec_Update spec k im vm bm e)
  then show ?thesis using Update_refines assms(2) by blast
next
  case (exec_SetNotReady k e)
  then show ?thesis using SetNotReady_refines assms(2) by blast
next
  case (exec_HasConfig k spec im vm bm b s')
  then show ?thesis using HasConfig_refines assms(2) by blast
next
  case (exec_SetAdmSecret k secret)
  then show ?thesis using assms(2) abs_vc_cong [of vc' vc] by (simp add: refines_def)
next
  case (exec_UpdateSvcForSecret k sk e)
  then show ?thesis using UpdateSvcForSecret_refines assms(2) by blast
next
  case (exec_DeleteAdmSecret k)
  then show ?thesis using assms(2) abs_vc_cong [of vc' vc] by (simp add: refines_def)
next
  case (exec_monitor k evs)
  then show ?thesis using monitor_svc_refines assms(2) by blast
qed

lemma vc_exec_step: "vc_exec ADM op vc vc' \<Longrightarrow> vc_step ADM vc vc'"
  by (induction rule: vc_exec.induct) (auto intro: vc_step.intros)

lemma vc_run_refines: "vc_run ADM ops vc \<Longrightarrow> abs_vc vc = fold abs_op ops Map.empty \<and> specs_ok vc"
proof (induction rule: vc_run.induct)
  case (run_init w)
  show ?case by (simp add: NewVarnishController_def abs_vc_def specs_ok_def)
next
  case (run_step ops vc op vc')
  with vc_exec_refines [OF run_step(2)] show ?case by (simp add: refines_def)
qed

end
