(* ===== verification/SvcEvents.thy ===== *)
theory SvcEvents
  imports Monitor K8sObjects
begin

text \<open>
  Kubernetes Events for Varnish Services (\<open>svc_event.go\<close>): the interface that the monitor calls
  (\<open>SvcEventGenerator\<close>).  The recorder of \<open>client-go\<close> is outside the repository; the model gives the
  Events that it is asked to record, without the text of the message.
\<close>

type_synonym kevent = "KService \<times> event_type \<times> string"

text \<open>An Event needs a key that can be split and a Service in the lister; else an error is logged.\<close>

definition svcEvent :: "Listers \<Rightarrow> string \<Rightarrow> event_type \<Rightarrow> string \<Rightarrow> kevent list" where
  "svcEvent L svcKey evtType reason =
     (case l_splitKey L svcKey of
        None \<Rightarrow> []
      | Some (ns, name) \<Rightarrow>
          (case l_svc_Get L ns name of
             Inl e \<Rightarrow> []
           | Inr svc \<Rightarrow> [(svc, evtType, reason)]))"

definition SvcInfoEvent :: "Listers \<Rightarrow> string \<Rightarrow> string \<Rightarrow> kevent list" where
  "SvcInfoEvent L svcKey reason = svcEvent L svcKey EventTypeNormal reason"

definition SvcWarnEvent :: "Listers \<Rightarrow> string \<Rightarrow> string \<Rightarrow> kevent list" where
  "SvcWarnEvent L svcKey reason = svcEvent L svcKey EventTypeWarning reason"

text \<open>\<open>infoEvt\<close>, \<open>warnEvt\<close> and \<open>errorEvt\<close> of the monitor.\<close>

fun generate :: "Listers \<Rightarrow> event \<Rightarrow> kevent list" where
  "generate L (EvtInfo, svc, reason) = SvcInfoEvent L svc reason"
| "generate L (EvtWarn, svc, reason) = SvcWarnEvent L svc reason"
| "generate L (EvtError, svc, reason) = SvcWarnEvent L svc reason"

definition generate_all :: "Listers \<Rightarrow> event list \<Rightarrow> kevent list" where
  "generate_all L evs = concat (map (generate L) evs)"

fun event_type_of :: "severity \<Rightarrow> event_type" where
  "event_type_of EvtInfo = EventTypeNormal"
| "event_type_of EvtWarn = EventTypeWarning"
| "event_type_of EvtError = EventTypeWarning"

lemma generate_known:
  assumes "l_splitKey L k = Some (ns, name)" and "l_svc_Get L ns name = Inr svc"
  shows "generate L (s, k, r) = [(svc, event_type_of s, r)]"
  using assms by (cases s) (simp_all add: SvcInfoEvent_def SvcWarnEvent_def svcEvent_def)

lemma generate_all_known:
  assumes "l_splitKey L k = Some (ns, name)" and "l_svc_Get L ns name = Inr svc"
    and "\<forall>e \<in> set evs. fst (snd e) = k"
  shows "generate_all L evs = map (\<lambda>e. (svc, event_type_of (fst e), snd (snd e))) evs"
  using assms(3)
  by (induction evs) (auto simp: generate_all_def generate_known [OF assms(1,2)])

section \<open>The events of the monitor\<close>

text \<open>All events of a check are about the Service that is checked.\<close>

lemma discard_loop_about:
  "discard_loop ADM c svc vs w = (ok, evs, w') \<Longrightarrow> \<forall>e \<in> set evs. fst (snd e) = svc"
  by (induction ADM c svc vs w arbitrary: ok evs w' rule: discard_loop.induct)
    (auto split: if_split_asm prod.split_asm option.split_asm)

lemma check_cmds_about:
  "check_cmds ADM c svc w = (ok, evs, w') \<Longrightarrow> \<forall>e \<in> set evs. fst (snd e) = svc"
  by (fastforce simp: check_cmds_def Let_def dest: discard_loop_about
      split: prod.split_asm option.split_asm sum.split_asm if_split_asm)

lemma checkInst_about:
  "checkInst ADM heap svc i w = (ok, evs, i', w') \<Longrightarrow> \<forall>e \<in> set evs. fst (snd e) = svc"
  by (auto simp: checkInst_def dest: check_cmds_about
      split: prod.split_asm option.split_asm sum.split_asm)

lemma check_loop_about:
  "check_loop ADM heap svc is w = (ok, evs, is', w') \<Longrightarrow> \<forall>e \<in> set evs. fst (snd e) = svc"
proof (induction "is" arbitrary: w ok evs is' w')
  case (Cons i "is")
  obtain o1 e1 i1 w1 where c: "checkInst ADM heap svc i w = (o1, e1, i1, w1)" by (rule prod_cases4)
  obtain o2 e2 is2 w2 where l: "check_loop ADM heap svc is w1 = (o2, e2, is2, w2)"
    by (rule prod_cases4)
  have "evs = e1 @ e2" using Cons.prems by (simp add: c l)
  with Cons.IH [OF l] checkInst_about [OF c] show ?case by (simp add: ball_Un)
qed simp

lemma monitor_svc_about:
  assumes "monitor_svc ADM k vc = (evs, vc')"
  shows "\<forall>e \<in> set evs. fst (snd e) = k"
proof (cases "gm_get (vc_svcs vc) k")
  case None
  with assms show ?thesis by (simp add: monitor_svc_def)
next
  case (Some svc)
  obtain good ev insts w where l: "check_loop ADM (vc_heap vc) k (vs_instances svc) (vc_world vc)
      = (good, ev, insts, w)" by (rule prod_cases4)
  with assms Some check_loop_about [OF l] show ?thesis
    by (auto simp: monitor_svc_def split: prod.split_asm option.split_asm if_split_asm)
qed

end
