(* ===== verification/Routes.thy ===== *)
theory Routes
  imports SpecBuild
begin

text \<open>
  The rules of a specification built from Ingresses are the routes that the Ingresses ask for.

  What the Ingresses ask for: for each rule, in order, the host with the namespace, and for each path
  the backend of the last entry for it.
\<close>

definition backend_target :: "Listers \<Rightarrow> string \<Rightarrow> IngressBackend \<Rightarrow> Service option" where
  "backend_target L ns b = (case backendSvc L ns b of Ok (svc, _) \<Rightarrow> Some svc | _ \<Rightarrow> None)"

definition path_backend :: "HTTPIngressPath list \<Rightarrow> string \<Rightarrow> IngressBackend option" where
  "path_backend paths p = map_of (rev (map (\<lambda>x. (ip_Path x, ip_Backend x)) paths)) p"

definition rule_paths :: "IngressRule \<Rightarrow> HTTPIngressPath list" where
  "rule_paths rule = (case ir_HTTP rule of None \<Rightarrow> [] | Some paths \<Rightarrow> paths)"

definition routes_as :: "Listers \<Rightarrow> string \<times> IngressRule \<Rightarrow> Rule \<Rightarrow> bool" where
  "routes_as L nr r \<longleftrightarrow>
     rule_Host r = ir_Host (snd nr)
     \<and> (\<forall>p. gm_get (rule_PathMap r) p
          = Option.bind (path_backend (rule_paths (snd nr)) p) (backend_target L (fst nr)))"

definition ing_rules :: "Ingress list \<Rightarrow> (string \<times> IngressRule) list" where
  "ing_rules ings = concat (map (\<lambda>ing. map (Pair (ing_ns ing)) (ing_Rules ing)) ings)"

lemma paths_routes:
  "ofold (path_step L ns) ps st = Ok st' \<Longrightarrow>
     rule_Host (fst st') = rule_Host (fst st)
     \<and> sp_Rules (fst (snd st')) = sp_Rules (fst (snd st))
     \<and> gm_get (rule_PathMap (fst st')) p =
         (case path_backend ps p of
            None \<Rightarrow> gm_get (rule_PathMap (fst st)) p
          | Some b \<Rightarrow> backend_target L ns b)"
proof (induction ps arbitrary: st)
  case (Cons x ps)
  from Cons.prems obtain st1 where x: "path_step L ns x st = Ok st1"
    and ps: "ofold (path_step L ns) ps st1 = Ok st'" by (auto simp: obind_Ok_iff)
  from x obtain svc b where t: "backendSvc L ns (ip_Backend x) = Ok (svc, b)"
    and st1: "fst st1 = (fst st)\<lparr>rule_PathMap := gm_put (ip_Path x) svc (rule_PathMap (fst st))\<rparr>"
      "sp_Rules (fst (snd st1)) = sp_Rules (fst (snd st))"
    by (auto simp: path_step_def obind_Ok_iff)
  from Cons.IH [OF ps] t show ?case
    by (auto simp: st1 path_backend_def map_of_append map_add_def backend_target_def split: option.split)
qed (simp add: path_backend_def)

lemma rule_step_routes:
  assumes "rule_step L ns rule st = Ok st'"
  shows "\<exists>r. sp_Rules (fst st') = sp_Rules (fst st) @ [r] \<and> routes_as L (ns, rule) r"
proof (cases "ir_HTTP rule")
  case None
  with assms show ?thesis
    by (auto simp: rule_step_def routes_as_def rule_paths_def path_backend_def add_rule_def
        split: if_split_asm)
next
  case (Some paths)
  with assms obtain r st1 where
    l: "ofold (path_step L ns) paths (\<lparr>rule_Host = ir_Host rule, rule_PathMap = []\<rparr>, st) = Ok (r, st1)"
    and st': "st' = add_rule r st1"
    by (auto simp: rule_step_def obind_Ok_iff Let_def split: if_split_asm)
  from paths_routes [OF l] have "routes_as L (ns, rule) r"
    by (auto simp: routes_as_def rule_paths_def Some split: option.split)
  with paths_routes [OF l] st' show ?thesis by (auto simp: add_rule_def)
qed

lemma rules_routes:
  "ofold (rule_step L ns) rs st = Ok st' \<Longrightarrow>
     \<exists>new. sp_Rules (fst st') = sp_Rules (fst st) @ new \<and> list_all2 (routes_as L) (map (Pair ns) rs) new"
proof (induction rs arbitrary: st)
  case (Cons x rs)
  from Cons.prems obtain st1 where x: "rule_step L ns x st = Ok st1"
    and rs: "ofold (rule_step L ns) rs st1 = Ok st'" by (auto simp: obind_Ok_iff)
  from rule_step_routes [OF x] Cons.IH [OF rs] show ?case by auto
qed simp

lemma ing_step_routes:
  assumes "ing_step L ing st = Ok st'"
  shows "\<exists>new. sp_Rules (fst st') = sp_Rules (fst st) @ new
     \<and> list_all2 (routes_as L) (map (Pair (ing_ns ing)) (ing_Rules ing)) new"
proof -
  from assms obtain st1 where d: "(case ing_Backend ing of None \<Rightarrow> Ok st
      | Some b \<Rightarrow> default_step L (ing_ns ing) b st) = Ok st1"
    and r: "ofold (rule_step L (ing_ns ing)) (ing_Rules ing) st1 = Ok st'"
    by (auto simp: ing_step_def obind_Ok_iff)
  from d have "sp_Rules (fst st1) = sp_Rules (fst st)"
    by (auto simp: default_step_def obind_Ok_iff split: option.split_asm if_split_asm)
  with rules_routes [OF r] show ?thesis by simp
qed

lemma ings_routes:
  "ofold (ing_step L) ings st = Ok st' \<Longrightarrow>
     \<exists>new. sp_Rules (fst st') = sp_Rules (fst st) @ new \<and> list_all2 (routes_as L) (ing_rules ings) new"
proof (induction ings arbitrary: st)
  case (Cons x ings)
  from Cons.prems obtain st1 where x: "ing_step L x st = Ok st1"
    and r: "ofold (ing_step L) ings st1 = Ok st'" by (auto simp: obind_Ok_iff)
  from ing_step_routes [OF x] Cons.IH [OF r] show ?case
    by (auto simp: ing_rules_def intro: list_all2_appendI)
qed (simp add: ing_rules_def)

lemma ings2VCLSpec_routes:
  "ings2VCLSpec L ings = Ok (spec, bcfgs) \<Longrightarrow> list_all2 (routes_as L) (ing_rules ings) (sp_Rules spec)"
  using ings_routes [of L ings "(zero_Spec, [])"] by (auto simp: ings2VCLSpec_def zero_Spec_def)

text \<open>The service of a route has the name of the backend and the addresses of its endpoints.\<close>

lemma backend_target_service:
  assumes "backend_target L ns b = Some svc" and "ns \<noteq> []"
  shows "svc_Name svc = ns @ ''/'' @ ib_ServiceName b \<and> ingBackend2Addrs L ns b = Ok (svc_Addresses svc)"
proof -
  from assms(1) obtain c where s: "backendSvc L ns b = Ok (svc, c)"
    by (auto simp: backend_target_def split: outcome.split_asm)
  then obtain addrs where a: "ingBackend2Addrs L ns b = Ok addrs"
    and v: "getVCLSvc L ns (ib_ServiceName b) addrs = Ok (svc, c)"
    by (auto simp: backendSvc_def obind_Ok_iff)
  from getVCLSvc_Name [OF v] a assms(2) show ?thesis by simp
qed

end
