(* ===== verification/VclMeaning.thy ===== *)
theory VclMeaning
  imports VclRender CfgTranslate
begin

text \<open>
  What the generated conditions of request dispositions mean, against what the documentation of the
  resource says (\<open>docs/ref-req-disposition.md\<close>).  The values of a request and the matching of the VMODs
  are outside the repository: the record \<open>vcl_env\<close>.
\<close>

text \<open>
  Whether the value of a comparand matches a set of values with a comparison and flags, whether it is
  equal to a text (\<open>==\<close> of VCL), the number it is, and whether it is present.
\<close>

record vcl_env =
  ve_set :: "CompareType \<Rightarrow> MatchFlagsType \<Rightarrow> string list \<Rightarrow> string \<Rightarrow> bool"
  ve_eq :: "string \<Rightarrow> string \<Rightarrow> bool"
  ve_num :: "string \<Rightarrow> nat"
  ve_present :: "string \<Rightarrow> bool"

fun num_rel :: "CompareType \<Rightarrow> nat \<Rightarrow> nat \<Rightarrow> bool" where
  "num_rel Equal m n = (m = n)"
| "num_rel Greater m n = (m > n)"
| "num_rel GreaterEqual m n = (m \<ge> n)"
| "num_rel Less m n = (m < n)"
| "num_rel LessEqual m n = (m \<le> n)"
| "num_rel _ m n = False"

section \<open>The documented meaning\<close>

definition documented :: "vcl_env \<Rightarrow> Condition \<Rightarrow> bool" where
  "documented E c \<longleftrightarrow>
     (case cond_Count c of
        Some n \<Rightarrow> num_rel (cond_Compare c) (ve_num E (cond_Comparand c)) (unat n)
      | None \<Rightarrow>
          if cond_Compare c = Exists then ve_present E (cond_Comparand c)
          else ve_set E (cond_Compare c) (cond_MatchFlags c) (cond_Values c) (cond_Comparand c))
     \<noteq> cond_Negate c"

section \<open>Generated expressions\<close>

text \<open>
  The expressions of VCL that the template writes.  A matcher object stands for its declaration, with
  its comparison, its flags and its values.  In VCL the operand of \<open>!\<close> is a whole comparison.
\<close>

datatype operand = VStr string | VNum uint64

datatype vexpr =
    VNot vexpr
  | VMatch string CompareType MatchFlagsType "string list" string
  | VPresent string
  | VRel CompareType bool string operand

fun operand_text :: "operand \<Rightarrow> string" where
  \<open>operand_text (VStr s) = ''"'' @ s @ ''"''\<close>
| "operand_text (VNum n) = utoa n"

fun vexpr_text :: "vexpr \<Rightarrow> string" where
  "vexpr_text (VNot e) = ''! '' @ vexpr_text e"
| "vexpr_text (VMatch obj cmp fl vals x) = obj @ ''.'' @ match cmp @ ''('' @ x @ '')''"
| "vexpr_text (VPresent x) = x"
| "vexpr_text (VRel cmp neg x v) = x @ '' '' @ cmpRelation cmp neg @ '' '' @ operand_text v"

fun vexpr_holds :: "vcl_env \<Rightarrow> vexpr \<Rightarrow> bool" where
  "vexpr_holds E (VNot e) \<longleftrightarrow> \<not> vexpr_holds E e"
| "vexpr_holds E (VMatch obj cmp fl vals x) \<longleftrightarrow> ve_set E cmp fl vals x"
| "vexpr_holds E (VPresent x) \<longleftrightarrow> ve_present E x"
| "vexpr_holds E (VRel cmp neg x (VStr s)) \<longleftrightarrow> ve_eq E x s \<noteq> neg"
| "vexpr_holds E (VRel cmp neg x (VNum n)) \<longleftrightarrow>
     num_rel cmp (ve_num E x) (unat n) \<noteq> (neg \<and> cmp = Equal)"

text \<open>The expression of a condition: what \<open>recv_disposition.tmpl\<close> writes for it.\<close>

definition cond_operand :: "Condition \<Rightarrow> operand" where
  "cond_operand c = (case cond_Count c of Some n \<Rightarrow> VNum n | None \<Rightarrow> VStr (hd (cond_Values c)))"

definition cond_base :: "nat \<Rightarrow> nat \<Rightarrow> Condition \<Rightarrow> vexpr" where
  "cond_base i j c =
     (if reqNeedsMatcher c
      then VMatch (reqObj i j) (cond_Compare c) (cond_MatchFlags c) (cond_Values c) (cond_Comparand c)
      else if cond_Compare c = Exists then VPresent (cond_Comparand c)
      else VRel (cond_Compare c) (cond_Negate c) (cond_Comparand c) (cond_operand c))"

definition cond_expr :: "nat \<Rightarrow> nat \<Rightarrow> Condition \<Rightarrow> vexpr" where
  "cond_expr i j c = (if cond_Negate c then VNot (cond_base i j c) else cond_base i j c)"

lemma render_disp_cond_text:
  assumes "cond_renderable c"
  shows "render_disp_cond i j c = Ok (opt_text (j \<noteq> 0) '' &&
            '' @ vexpr_text (cond_expr i j c))"
  using assms
  by (auto simp: render_disp_cond_def cond_renderable_def cond_expr_def cond_base_def reqValue_def
      cond_operand_def opt_text_def split: option.split list.split)

text \<open>
  A negated equality that is written as a comparison is negated twice: by the \<open>!\<close> in front and by the
  operator.
\<close>

definition negated_twice :: "Condition \<Rightarrow> bool" where
  "negated_twice c \<longleftrightarrow> cond_Negate c \<and> cond_Compare c = Equal \<and> \<not> reqNeedsMatcher c"

text \<open>For one value without flags, \<open>==\<close> is what matching the set of the value would be.\<close>

definition eq_is_match :: "vcl_env \<Rightarrow> Condition \<Rightarrow> bool" where
  "eq_is_match E c \<longleftrightarrow>
     (\<forall>v. ve_set E Equal (cond_MatchFlags c) [v] (cond_Comparand c) = ve_eq E (cond_Comparand c) v)"

lemma configComparison_string:
  "fst (configComparison s) \<in> {Match, Prefix, Exists} \<longleftrightarrow> string_compare s"
  by (simp add: configComparison_def string_compare_def)

lemma condition_meaning:
  assumes "condition_valid rc" and "c = configReqCondition rc" and "eq_is_match E c"
  shows "vexpr_holds E (cond_expr i j c) \<longleftrightarrow> (documented E c \<noteq> negated_twice c)"
proof -
  have n: "negatable (cond_Compare c, cond_Negate c)"
    using configComparison_negatable [of "rc_Compare rc"] by (simp add: assms(2) configReqCondition_def)
  have o: "cond_Compare c \<in> {Greater, GreaterEqual, Less, LessEqual} \<longleftrightarrow> ordering_compare (rc_Compare rc)"
    using configComparison_ordering [of "rc_Compare rc"] by (simp add: assms(2) configReqCondition_def)
  have x: "cond_Compare c = Exists \<longleftrightarrow> rc_Compare rc \<in> {vcr_Exists, vcr_NotExists}"
    using configComparison_Exists [of "rc_Compare rc"] by (simp add: assms(2) configReqCondition_def)
  have s: "cond_Compare c \<in> {Match, Prefix, Exists} \<longleftrightarrow> string_compare (rc_Compare rc)"
    using configComparison_string [of "rc_Compare rc"] by (simp add: assms(2) configReqCondition_def)
  have f: "cond_Values c = rc_Values rc" "cond_Count c = rc_Count rc"
    by (simp_all add: assms(2) configReqCondition_def)
  show ?thesis
    using assms(1,3) n o x s f
    unfolding condition_valid_def cond_expr_def cond_base_def documented_def negated_twice_def
    by (cases "cond_Compare c"; cases "rc_Count rc"; cases "rc_Values rc" rule: list.exhaust)
      (auto simp: reqNeedsMatcher_def cond_operand_def eq_is_match_def
        split: list.split_asm)
qed

section \<open>Dispositions\<close>

definition disp_exprs :: "nat \<Rightarrow> DispositionSpec \<Rightarrow> vexpr list" where
  "disp_exprs i d = map (\<lambda>(j, c). cond_expr i j c) (enumerate 0 (disp_Conditions d))"

text \<open>The conjunction of the expressions, and the disposition it guards.\<close>

definition conjunction_text :: "vexpr list \<Rightarrow> string" where
  "conjunction_text es =
     concat (map (\<lambda>(j, e). opt_text (j \<noteq> 0) '' &&
            '' @ vexpr_text e) (enumerate 0 es))"

lemma enumerate_map_enumerate:
  "enumerate n (map (\<lambda>p. f (fst p) (snd p)) (enumerate n cs))
     = map (\<lambda>p. (fst p, f (fst p) (snd p))) (enumerate n cs)"
  by (induction cs arbitrary: n) auto

lemma list_all_enumerate:
  "(\<And>j c. c \<in> set cs \<Longrightarrow> P (f j c) \<longleftrightarrow> Q c) \<Longrightarrow>
     list_all P (map (\<lambda>(j, c). f j c) (enumerate n cs)) \<longleftrightarrow> list_all Q cs"
  by (induction cs arbitrary: n) auto

lemma render_disp_text:
  assumes "\<forall>c \<in> set (disp_Conditions d). cond_renderable c"
  shows "render_disp i d = Ok (concat [''
	if ('', conjunction_text (disp_exprs i d), '') {
		return ('', render_disposition (disp_Disposition d), '');
	}''])"
proof -
  have "omap (\<lambda>(j, c). render_disp_cond i j c) (enumerate 0 (disp_Conditions d))
      = Ok (map (\<lambda>(j, c). opt_text (j \<noteq> 0) '' &&
            '' @ vexpr_text (cond_expr i j c)) (enumerate 0 (disp_Conditions d)))"
    using assms
    by (intro omap_map_Ok)
      (auto simp: render_disp_cond_text in_set_enumerate_eq split: prod.split)
  then show ?thesis
    by (simp add: render_disp_def conjunction_text_def disp_exprs_def enumerate_map_enumerate
        case_prod_unfold comp_def)
qed

lemma valid_renderable: "condition_valid rc \<Longrightarrow> cond_renderable (configReqCondition rc)"
  using configComparison_Exists [of "rc_Compare rc"]
  by (auto simp: condition_valid_def cond_renderable_def configReqCondition_def split: list.split_asm
      option.split_asm)

lemma disposition_meaning:
  assumes "validateReqDisp rd = Ok ()" and "configReqDisp rd = Ok d"
    and "\<forall>c \<in> set (disp_Conditions d). eq_is_match E c \<and> \<not> negated_twice c"
  shows "render_disp i d = Ok (concat [''
	if ('', conjunction_text (disp_exprs i d), '') {
		return ('', render_disposition (disp_Disposition d), '');
	}''])"
    and "list_all (vexpr_holds E) (disp_exprs i d) \<longleftrightarrow> list_all (documented E) (disp_Conditions d)"
proof -
  have v: "\<forall>rc \<in> set (rd_Conditions rd). condition_valid rc"
    using assms(1) by (simp add: validateReqDisp_Ok_iff reqdisp_valid_def)
  have d: "disp_Conditions d = map configReqCondition (rd_Conditions rd)"
    using assms(2) by (auto simp: configReqDisp_def obind_Ok_iff)
  show "render_disp i d = Ok (concat [''
	if ('', conjunction_text (disp_exprs i d), '') {
		return ('', render_disposition (disp_Disposition d), '');
	}''])"
    using v by (intro render_disp_text) (auto simp: d valid_renderable)
  have "vexpr_holds E (cond_expr i j c) \<longleftrightarrow> documented E c" if "c \<in> set (disp_Conditions d)" for j c
    using that v assms(3) condition_meaning [of _ c E i j] by (auto simp: d)
  then show "list_all (vexpr_holds E) (disp_exprs i d) \<longleftrightarrow> list_all (documented E) (disp_Conditions d)"
    unfolding disp_exprs_def by (rule list_all_enumerate)
qed

end
