(* ===== verification/VclText.thy ===== *)
theory VclText
  imports Handlers Routes "HOL-Library.Sublist"
begin

text \<open>
  What is in the generated text: the backends of the endpoints, the matchers of the hosts, and the order
  of the paths of a host.
\<close>

section \<open>Pieces of a text\<close>

lemma sublist_concat: "x \<in> set xs \<Longrightarrow> sublist x (concat xs)"
  by (metis concat.simps(2) concat_append in_set_conv_decomp sublist_appendI)

lemma sublist_concat_map: "x \<in> set xs \<Longrightarrow> sublist (f x) (concat (map f xs))"
  by (rule sublist_concat) simp

text \<open>Two pieces, one after the other.\<close>

definition in_order :: "'a list \<Rightarrow> 'a list \<Rightarrow> 'a list \<Rightarrow> bool" where
  "in_order a b s \<longleftrightarrow> (\<exists>u v w. s = u @ a @ v @ b @ w)"

lemma in_order_sublist: "in_order a b s \<Longrightarrow> sublist s t \<Longrightarrow> in_order a b t"
proof -
  assume "in_order a b s" and "sublist s t"
  then obtain u v w x y where "s = u @ a @ v @ b @ w" "t = x @ s @ y"
    by (auto simp: in_order_def sublist_def)
  then have "t = (x @ u) @ a @ v @ b @ (w @ y)" by simp
  then show ?thesis unfolding in_order_def by blast
qed

lemma in_order_concat: "in_order (f a) (f b) (concat (map f (u @ a # v @ b # w)))"
  unfolding in_order_def by (simp, metis append.assoc)

lemma in_order_pieces: "in_order (a @ x) (b @ y) s \<Longrightarrow> in_order a b s"
  unfolding in_order_def by (metis append.assoc)

lemma not_distinct_split:
  "\<not> distinct (map f xs) \<Longrightarrow> \<exists>u a v b w. xs = u @ a # v @ b # w \<and> f a = f b"
proof (induction xs)
  case (Cons x xs)
  show ?case
  proof (cases "distinct (map f xs)")
    case True
    with Cons.prems obtain b where "b \<in> set xs" "f x = f b" by auto
    then obtain v w where "xs = v @ b # w" by (auto dest: split_list)
    with \<open>f x = f b\<close> show ?thesis by (intro exI [of _ "[]"]) auto
  next
    case False
    with Cons.IH obtain u a v b w where "xs = u @ a # v @ b # w" "f a = f b" by blast
    then show ?thesis by (intro exI [of _ "x # u"]) auto
  qed
qed simp

lemma GetSrc_ingress: "GetSrc spec = Ok src \<Longrightarrow> sublist (render_ingress spec) src"
  by (auto simp: GetSrc_def Let_def obind_Ok_iff simp del: append_assoc if_split)

section \<open>Matchers of hosts\<close>

text \<open>The declaration of the matcher for the paths of a host.\<close>

definition matcher_decl :: "string \<Rightarrow> string" where
  "matcher_decl name = ''new '' @ name @ '' = re2.set(posix_syntax=true, anchor=start);''"

lemma render_url_set_decl: "\<exists>v. render_url_set r = ''
	'' @ matcher_decl (urlMatcher r) @ v"
  by (simp add: render_url_set_def matcher_decl_def)

lemma url_sets_in: "sublist (concat (map render_url_set (sp_Rules spec))) (render_ingress spec)"
  unfolding render_ingress_def by (rule sublist_concat) simp

lemma in_order_cut: "s = x @ a @ y \<Longrightarrow> t = x' @ b @ y' \<Longrightarrow> in_order s t r \<Longrightarrow> in_order a b r"
proof -
  assume s: "s = x @ a @ y" and t: "t = x' @ b @ y'" and "in_order s t r"
  then obtain u v w where "r = u @ s @ v @ t @ w" by (auto simp: in_order_def)
  then have "r = (u @ x) @ a @ (y @ v @ x') @ b @ (y' @ w)" by (simp add: s t)
  then show "in_order a b r" unfolding in_order_def by blast
qed

lemma duplicate_matcher:
  assumes "\<not> distinct (map rule_Host (sp_Rules spec))" and "GetSrc spec = Ok src"
  shows "\<exists>r \<in> set (sp_Rules spec).
     in_order (matcher_decl (urlMatcher r)) (matcher_decl (urlMatcher r)) src"
proof -
  from not_distinct_split [OF assms(1)] obtain u a v b w where
    r: "sp_Rules spec = u @ a # v @ b # w" and h: "rule_Host a = rule_Host b" by blast
  obtain x y where "render_url_set a = ''
	'' @ matcher_decl (urlMatcher a) @ x"
    and "render_url_set b = ''
	'' @ matcher_decl (urlMatcher b) @ y"
    using render_url_set_decl by blast
  moreover have "in_order (render_url_set a) (render_url_set b) (concat (map render_url_set (sp_Rules spec)))"
    unfolding r by (rule in_order_concat)
  ultimately have "in_order (matcher_decl (urlMatcher a)) (matcher_decl (urlMatcher b))
      (concat (map render_url_set (sp_Rules spec)))"
    by (rule in_order_cut)
  moreover have "urlMatcher a = urlMatcher b" by (simp add: urlMatcher_def h)
  ultimately have "in_order (matcher_decl (urlMatcher a)) (matcher_decl (urlMatcher a)) src"
    using in_order_sublist url_sets_in GetSrc_ingress [OF assms(2)] by metis
  then show ?thesis using r by auto
qed

lemma built_hosts:
  assumes "ings2VCLSpec L ings = Ok (spec, bcfgs)"
  shows "map rule_Host (sp_Rules spec) = concat (map ing_hosts ings)"
proof -
  have "map rule_Host rs = map (\<lambda>nr. ir_Host (snd nr)) nrs" if "list_all2 (routes_as L) nrs rs" for nrs rs
    using that by (induction nrs rs rule: list_all2_induct) (simp_all add: routes_as_def)
  from this [OF ings2VCLSpec_routes [OF assms]] show ?thesis
    by (simp add: ing_rules_def ing_hosts_def [abs_def] map_concat comp_def)
qed

section \<open>The order of the paths\<close>

text \<open>The line that adds a path to the matcher of its host.\<close>

definition path_line :: "Rule \<Rightarrow> string \<times> Service \<Rightarrow> string" where
  "path_line r ps = urlMatcher r @ ''.add(\"'' @ fst ps @ ''\",
				backend='' @ directorName (snd ps) @ ''.backend());''"

lemma render_url_set_paths:
  "sublist (concat (map (\<lambda>ps. ''
	'' @ path_line r ps) (rule_PathMap r))) (render_url_set r)"
  unfolding render_url_set_def path_line_def
  by (rule sublist_concat) (simp add: case_prod_unfold)

lemma sorted_split:
  fixes m :: "(string \<times> 'a) list"
  assumes "sorted_wrt (<) (map fst m)" and "(k, v) \<in> set m" and "(k', v') \<in> set m" and "k < k'"
  shows "\<exists>x y z. m = x @ (k, v) # y @ (k', v') # z"
proof -
  obtain x y where m: "m = x @ (k, v) # y" using assms(2) by (auto dest: split_list)
  have "(k', v') \<notin> set x"
  proof
    assume "(k', v') \<in> set x"
    then have "k' < k" using assms(1) by (force simp: m sorted_wrt_append)
    with assms(4) show False by (rule less_asym)
  qed
  with assms(3,4) have "(k', v') \<in> set y" by (auto simp: m)
  then obtain u w where "y = u @ (k', v') # w" by (auto dest: split_list)
  with m show ?thesis by blast
qed

lemma less_longer: "(p :: string) < p @ c # q"
  by (induction p) auto

lemma shorter_path_first:
  assumes "gm_ok (rule_PathMap r)" and "gm_get (rule_PathMap r) p = Some s"
    and "gm_get (rule_PathMap r) (p @ c # q) = Some t"
  shows "in_order (path_line r (p, s)) (path_line r (p @ c # q, t)) (render_url_set r)"
proof -
  obtain x y z where m: "rule_PathMap r = x @ (p, s) # y @ (p @ c # q, t) # z"
    using sorted_split [of "rule_PathMap r" p s "p @ c # q" t] assms less_longer
    by (auto simp: gm_ok_def dest: map_of_SomeD)
  have "in_order (''
	'' @ path_line r (p, s)) (''
	'' @ path_line r (p @ c # q, t)) (concat (map (\<lambda>ps. ''
	'' @ path_line r ps) (rule_PathMap r)))"
    unfolding m by (rule in_order_concat)
  from in_order_sublist [OF this render_url_set_paths]
  show ?thesis by (rule in_order_cut [of _ "''
	''" _ "[]" _ "''
	''" _ "[]", rotated 2]) simp_all
qed

lemma paths_in_order:
  assumes "ings2VCLSpec L ings = Ok (spec, bcfgs)" and "GetSrc spec = Ok src"
    and "(ns, rule) \<in> set (ing_rules ings)"
    and "Option.bind (path_backend (rule_paths rule) p) (backend_target L ns) = Some s"
    and "Option.bind (path_backend (rule_paths rule) (p @ c # q)) (backend_target L ns) = Some t"
  shows "\<exists>r \<in> set (sp_Rules spec). rule_Host r = ir_Host rule
     \<and> in_order (path_line r (p, s)) (path_line r (p @ c # q, t)) src"
proof -
  obtain r where r: "r \<in> set (sp_Rules spec)" and "routes_as L (ns, rule) r"
    using ings2VCLSpec_routes [OF assms(1)] assms(3)
    by (metis in_set_conv_nth list_all2_conv_all_nth)
  then have h: "rule_Host r = ir_Host rule"
    and m: "gm_get (rule_PathMap r) p = Some s" "gm_get (rule_PathMap r) (p @ c # q) = Some t"
    using assms(4,5) by (simp_all add: routes_as_def)
  have "gm_ok (rule_PathMap r)"
    using ings2VCLSpec_ok [OF assms(1)] r by (simp add: build_ok_def rule_closed_def)
  from shorter_path_first [OF this m]
  have "in_order (path_line r (p, s)) (path_line r (p @ c # q, t)) (render_url_set r)" .
  moreover have "sublist (render_url_set r) (concat (map render_url_set (sp_Rules spec)))"
    using r by (rule sublist_concat_map)
  ultimately have "in_order (path_line r (p, s)) (path_line r (p @ c # q, t)) src"
    using in_order_sublist url_sets_in GetSrc_ingress [OF assms(2)] by metis
  with r h show ?thesis by blast
qed

section \<open>Backends\<close>

text \<open>The declaration of a backend, up to its port, and the line that adds it to its director.\<close>

definition backend_decl :: "Service \<Rightarrow> Address \<Rightarrow> string" where
  "backend_decl svc addr = ''backend '' @ backendName svc (addr_IP addr) @ '' {
	.host = \"'' @ addr_IP addr @ ''\";
	.port = \"'' @ itoa32 (addr_Port addr) @ ''\";''"

definition backend_added :: "Service \<Rightarrow> Address \<Rightarrow> string" where
  "backend_added svc addr =
     directorName svc @ ''.add_backend('' @ backendName svc (addr_IP addr)"

lemma render_backend_decl: "sublist (backend_decl svc addr) (render_backend name svc addr)"
  by (simp add: render_backend_def backend_decl_def sublist_appendI del: append_assoc)

lemma backends_in:
  assumes "(k, svc) \<in> set (sp_AllServices spec)" and "addr \<in> set (svc_Addresses svc)"
  shows "sublist (backend_decl svc addr) (render_ingress spec)"
proof -
  have "sublist (backend_decl svc addr) (render_backend k svc addr)" by (rule render_backend_decl)
  also have "sublist \<dots> (render_backends (k, svc))"
    unfolding render_backends_def using assms(2) by (auto intro: sublist_concat_map)
  also have "sublist \<dots> (concat (map render_backends (sp_AllServices spec)))"
    using assms(1) by (rule sublist_concat_map)
  also have "sublist \<dots> (render_ingress spec)"
    unfolding render_ingress_def by (rule sublist_concat) simp
  finally show ?thesis .
qed

lemma directors_in:
  assumes "(k, svc) \<in> set (sp_AllServices spec)" and "addr \<in> set (svc_Addresses svc)"
  shows "sublist (backend_added svc addr) (render_ingress spec)"
proof -
  let ?f = "\<lambda>addr. concat [''
	'', directorName svc, ''.add_backend('', backendName svc (addr_IP addr),
         opt_text (dirType svc = ''random'') ''
		, 1.0'', ''
		);'']"
  have "?f addr = ''
	'' @ backend_added svc addr @ opt_text (dirType svc = ''random'') ''
		, 1.0'' @ ''
		);''" by (simp add: backend_added_def)
  then have "sublist (backend_added svc addr) (?f addr)" by (simp only: sublist_appendI)
  also have "sublist \<dots> (concat (map ?f (svc_Addresses svc)))"
    using assms(2) by (rule sublist_concat_map)
  also have "sublist \<dots> (render_director (k, svc))"
    unfolding render_director_def Let_def by (rule sublist_concat) simp
  also have "sublist \<dots> (concat (map render_director (sp_AllServices spec)))"
    using assms(1) by (rule sublist_concat_map)
  also have "sublist \<dots> (render_ingress spec)"
    unfolding render_ingress_def by (rule sublist_concat) simp
  finally show ?thesis .
qed

text \<open>Every service of the specification is the target of a backend of the Ingresses.\<close>

definition all_backends :: "Ingress list \<Rightarrow> (string \<times> IngressBackend) list" where
  "all_backends ings = concat (map (\<lambda>ing. map (Pair (ing_ns ing)) (ing_backends ing)) ings)"

definition from_backends :: "Listers \<Rightarrow> (string \<times> IngressBackend) set \<Rightarrow> Service gomap \<Rightarrow> bool" where
  "from_backends L B m \<longleftrightarrow>
     (\<forall>(k, svc) \<in> set m. \<exists>(ns, b) \<in> B. k = ns @ ''/'' @ ib_ServiceName b
        \<and> backend_target L ns b = Some svc)"

lemma from_backends_put:
  assumes "from_backends L B m" and "(ns, b) \<in> B" and "backendSvc L ns b = Ok (svc, c)"
  shows "from_backends L B (gm_put (ns @ ''/'' @ ib_ServiceName b) svc m)"
proof -
  have "\<exists>(ns, b) \<in> B. k = ns @ ''/'' @ ib_ServiceName b \<and> backend_target L ns b = Some s"
    if "(k, s) \<in> set (gm_put (ns @ ''/'' @ ib_ServiceName b) svc m)" for k s
    using that set_gm_put assms unfolding from_backends_def backend_target_def by fastforce
  then show ?thesis by (auto simp: from_backends_def)
qed

lemma ing_step_from:
  assumes "ing_step L ing st = Ok st'" and "from_backends L B (sp_AllServices (fst st))"
    and "Pair (ing_ns ing) ` set (ing_backends ing) \<subseteq> B"
  shows "from_backends L B (sp_AllServices (fst st'))"
proof -
  from assms(1) obtain t where
    t: "(case ing_Backend ing of None \<Rightarrow> Ok st | Some b \<Rightarrow> default_step L (ing_ns ing) b st) = Ok t"
    and loop: "ofold (rule_step L (ing_ns ing)) (ing_Rules ing) t = Ok st'"
    by (auto simp: ing_step_def obind_Ok_iff)
  have 0: "from_backends L B (sp_AllServices (fst t))"
    using t assms(2,3)
    by (auto simp: default_step_def obind_Ok_iff ing_backends_def
        intro!: from_backends_put [simplified] split: option.split_asm if_split_asm)
  have path: "from_backends L B (sp_AllServices (fst (snd s')))"
    if "path_step L (ing_ns ing) p s = Ok s'" "from_backends L B (sp_AllServices (fst (snd s)))"
      "(ing_ns ing, ip_Backend p) \<in> B" for p s s'
    using that by (auto simp: path_step_def obind_Ok_iff intro: from_backends_put [simplified])
  have rule: "from_backends L B (sp_AllServices (fst s'))"
    if s: "rule_step L (ing_ns ing) r s = Ok s'" "from_backends L B (sp_AllServices (fst s))"
      and r: "r \<in> set (ing_Rules ing)" for r s s'
  proof (cases "ir_HTTP r")
    case None
    with s show ?thesis by (auto simp: rule_step_def add_rule_def split: if_split_asm)
  next
    case (Some paths)
    then have B: "(ing_ns ing, ip_Backend p) \<in> B" if "p \<in> set paths" for p
      using that r assms(3) by (fastforce simp: ing_backends_def)
    from s Some obtain r' u where
      l: "ofold (path_step L (ing_ns ing)) paths (\<lparr>rule_Host = ir_Host r, rule_PathMap = []\<rparr>, s) = Ok (r', u)"
      and s': "s' = add_rule r' u"
      by (auto simp: rule_step_def obind_Ok_iff split: if_split_asm)
    have "from_backends L B (sp_AllServices (fst (snd (r', u))))"
      by (rule ofold_invariant [OF l]) (use s B path in auto)
    then show ?thesis by (simp add: s' add_rule_def)
  qed
  show ?thesis
    by (rule ofold_invariant [OF loop, where P = "\<lambda>s. from_backends L B (sp_AllServices (fst s))"])
      (use 0 rule in auto)
qed

lemma built_from_backends:
  assumes "ings2VCLSpec L ings = Ok (spec, bcfgs)"
  shows "from_backends L (set (all_backends ings)) (sp_AllServices spec)"
proof -
  let ?P = "\<lambda>s :: build. from_backends L (set (all_backends ings)) (sp_AllServices (fst s))"
  have "?P s'" if "ing \<in> set ings" "?P s" "ing_step L ing s = Ok s'" for ing s s'
    using that by (intro ing_step_from [OF that(3)]) (auto simp: all_backends_def)
  moreover have "?P (zero_Spec, [])" by (simp add: from_backends_def zero_Spec_def)
  ultimately have "?P (spec, bcfgs)"
    using ofold_invariant [OF assms [unfolded ings2VCLSpec_def], of ?P] by blast
  then show ?thesis by simp
qed

text \<open>
  A backend that a rule names, when no two backends name the same Service with different ports: its
  service is in the specification with the addresses that a request may be sent to.
\<close>

definition one_port_each :: "Ingress list \<Rightarrow> bool" where
  "one_port_each ings \<longleftrightarrow>
     (\<forall>(ns, b) \<in> set (all_backends ings). \<forall>(ns', b') \<in> set (all_backends ings).
        ns @ ''/'' @ ib_ServiceName b = ns' @ ''/'' @ ib_ServiceName b' \<longrightarrow> ns = ns' \<and> b = b')"

lemma path_backend_mem:
  "path_backend ps p = Some b \<Longrightarrow> \<exists>x \<in> set ps. ip_Path x = p \<and> ip_Backend x = b"
  by (auto simp: path_backend_def dest!: map_of_SomeD)

lemma rule_backend_in:
  assumes "(ns, rule) \<in> set (ing_rules ings)" and "path_backend (rule_paths rule) p = Some b"
  shows "(ns, b) \<in> set (all_backends ings)"
proof -
  from assms(1) obtain ing where i: "ing \<in> set ings" "ns = ing_ns ing" "rule \<in> set (ing_Rules ing)"
    by (auto simp: ing_rules_def)
  from path_backend_mem [OF assms(2)] obtain x paths where
    "ir_HTTP rule = Some paths" "x \<in> set paths" "ip_Backend x = b"
    by (cases "ir_HTTP rule") (auto simp: rule_paths_def)
  with i show ?thesis by (fastforce simp: all_backends_def ing_backends_def)
qed

lemma ofold_each:
  "ofold f xs s = Ok s' \<Longrightarrow> x \<in> set xs \<Longrightarrow> \<exists>t t'. f x t = Ok t'"
  by (induction xs arbitrary: s) (auto simp: obind_Ok_iff)

lemma rule_backend_target:
  assumes "ings2VCLSpec L ings = Ok (spec, bcfgs)" and "(ns, rule) \<in> set (ing_rules ings)"
    and "path_backend (rule_paths rule) p = Some b"
  shows "backend_target L ns b \<noteq> None"
proof -
  from assms(2) obtain ing where i: "ing \<in> set ings" "ns = ing_ns ing" "rule \<in> set (ing_Rules ing)"
    by (auto simp: ing_rules_def)
  from path_backend_mem [OF assms(3)] obtain x paths where
    x: "ir_HTTP rule = Some paths" "x \<in> set paths" "ip_Backend x = b"
    by (cases "ir_HTTP rule") (auto simp: rule_paths_def)
  obtain s s' where "ing_step L ing s = Ok s'"
    using ofold_each [OF assms(1) [unfolded ings2VCLSpec_def] i(1)] by blast
  then obtain t where "ofold (rule_step L ns) (ing_Rules ing) t = Ok s'"
    by (auto simp: ing_step_def obind_Ok_iff i(2))
  from ofold_each [OF this i(3)] obtain u u' where "rule_step L ns rule u = Ok u'" by blast
  with x(1) obtain q v where
    "ofold (path_step L ns) paths (\<lparr>rule_Host = ir_Host rule, rule_PathMap = []\<rparr>, u) = Ok (q, v)"
    by (auto simp: rule_step_def obind_Ok_iff split: if_split_asm)
  from ofold_each [OF this x(2)] x(3) show ?thesis
    by (auto simp: path_step_def obind_Ok_iff backend_target_def split: prod.split)
qed

lemma routed_service_known:
  assumes "ings2VCLSpec L ings = Ok (spec, bcfgs)" and "one_port_each ings"
    and "(ns, rule) \<in> set (ing_rules ings)" and "path_backend (rule_paths rule) p = Some b"
  shows "\<exists>svc. backend_target L ns b = Some svc
     \<and> (ns @ ''/'' @ ib_ServiceName b, svc) \<in> set (sp_AllServices spec)"
proof -
  from rule_backend_target [OF assms(1,3,4)] obtain svc where t: "backend_target L ns b = Some svc"
    by auto
  have ns: "ns \<noteq> []" using assms(3) by (auto simp: ing_rules_def)
  note name = backend_target_service [OF t ns]
  obtain r where r: "r \<in> set (sp_Rules spec)" and "routes_as L (ns, rule) r"
    using ings2VCLSpec_routes [OF assms(1)] assms(3)
    by (metis in_set_conv_nth list_all2_conv_all_nth)
  then have "gm_get (rule_PathMap r) p = Some svc" using assms(4) t by (simp add: routes_as_def)
  then have "(p, svc) \<in> set (rule_PathMap r)" by (rule map_of_SomeD)
  then have "gm_get (sp_AllServices spec) (svc_Name svc) \<noteq> None"
    using ings2VCLSpec_ok [OF assms(1)] r by (force simp: build_ok_def rule_closed_def)
  then obtain s where s: "(ns @ ''/'' @ ib_ServiceName b, s) \<in> set (sp_AllServices spec)"
    using name by (auto dest: map_of_SomeD)
  then obtain ns' b' where "(ns', b') \<in> set (all_backends ings)"
    and k: "ns @ ''/'' @ ib_ServiceName b = ns' @ ''/'' @ ib_ServiceName b'"
    and t': "backend_target L ns' b' = Some s"
    using built_from_backends [OF assms(1)] by (auto simp: from_backends_def)
  then have "ns' = ns \<and> b' = b"
    using assms(2) rule_backend_in [OF assms(3,4)] unfolding one_port_each_def by blast
  with t t' s show ?thesis by auto
qed

text \<open>The VarnishConfig changes neither the rules nor the services.\<close>

lemma apply_vcfg_other:
  assumes "apply_vcfg W svc v spec = Ok spec'"
  shows "sp_Rules spec' = sp_Rules spec \<and> sp_AllServices spec' = sp_AllServices spec"
  using assms
  by (auto simp: apply_vcfg_def obind_Ok_iff dest!: configSharding_other configAuth_other
      configRewrites_other configReqDisps_other)

lemma build_config_built:
  assumes "build_config W svc ings = Ok cfg"
  obtains spec bcfgs where "ings2VCLSpec (wk_listers W) ings = Ok (spec, bcfgs)"
    and "sp_Rules (ic_spec cfg) = sp_Rules spec" and "sp_AllServices (ic_spec cfg) = sp_AllServices spec"
  using assms
  by (auto simp: build_config_def obind_Ok_iff Let_def dest: apply_vcfg_other split: option.split_asm)

end
