(* ===== verification/Lifecycle.thy ===== *)
theory Lifecycle
  imports WorkerLoops
begin

text \<open>
  Start and stop of the process: the goroutine of \<open>main\<close>, which is in \<open>IngressController.Run\<close>
  (\<open>controller.go\<close>) and after it in \<open>NamespaceQueues.Stop\<close> (\<open>worker.go\<close>), the goroutine of the router,
  those of the workers, and \<open>handleTermination\<close> (\<open>cmd/main.go\<close>), which calls \<open>IngressController.Stop\<close>.
  They meet at the channels \<open>stopCh\<close> and \<open>DoneChan\<close>, at the queues and at the wait group of the workers.
  One relation per goroutine; a step is what happens between two points at which it may wait.
\<close>

section \<open>The state\<close>

text \<open>Where \<open>Run\<close> is; the last four are its deferred call of \<open>NamespaceQueues.Stop\<close> and its return.\<close>

datatype run_pc =
    RunStart | RunReady | RunSync | RunBlock
  | StopQueue | StopWorkers | StopWait | StopReturn

text \<open>Where \<open>handleTermination\<close> is; from the second to the fourth in \<open>IngressController.Stop\<close>.\<close>

datatype term_pc = TermSignal | TermSend | TermClose | TermAwait | TermInformers | TermQuit

text \<open>The router: at the head of its loop, in \<open>Get\<close>, with an item, before \<open>wg.Add\<close>, or between two runs.\<close>

datatype router_pc = RtOff | RtLoop | RtGet | RtItem | RtSpawned | RtPause | RtEnd

text \<open>
  The workers that run, counted by whether their queue is open or shut down, and the counter of the wait
  group.  \<open>lc_quit\<close>: \<open>vc.Quit\<close> has returned.  \<open>lc_exit\<close>: the process has ended, with this status.
\<close>

record proc_state =
  lc_run :: run_pc
  lc_term :: term_pc
  lc_router :: router_pc
  lc_informers :: bool
  lc_stopClosed :: bool
  lc_doneClosed :: bool
  lc_queueDown :: bool
  lc_open :: nat
  lc_shut :: nat
  lc_wg :: int
  lc_quit :: bool
  lc_exit :: "nat option"

definition lc_init :: proc_state where
  "lc_init =
     \<lparr>lc_run = RunStart, lc_term = TermSignal, lc_router = RtOff, lc_informers = False,
      lc_stopClosed = False, lc_doneClosed = False, lc_queueDown = False, lc_open = 0, lc_shut = 0,
      lc_wg = 0, lc_quit = False, lc_exit = None\<rparr>"

section \<open>Run\<close>

text \<open>
  Launch of the informers, ready file, synchronisation of the caches (which is given up when \<open>stopCh\<close> is
  closed), start of the router, and the wait for \<open>stopCh\<close>.  Every end leads into \<open>NamespaceQueues.Stop\<close>.
\<close>

inductive run_step :: "proc_state \<Rightarrow> proc_state \<Rightarrow> bool" where
  run_launch: "lc_run S = RunStart \<Longrightarrow> run_step S (S\<lparr>lc_run := RunReady, lc_informers := True\<rparr>)"
| run_ready: "lc_run S = RunReady \<Longrightarrow> run_step S (S\<lparr>lc_run := RunSync\<rparr>)"
| run_not_ready: "lc_run S = RunReady \<Longrightarrow> run_step S (S\<lparr>lc_run := StopQueue\<rparr>)"
| run_synced: "lc_run S = RunSync \<Longrightarrow> run_step S (S\<lparr>lc_run := RunBlock, lc_router := RtLoop\<rparr>)"
| run_not_synced: "lc_run S = RunSync \<Longrightarrow> lc_stopClosed S \<Longrightarrow> run_step S (S\<lparr>lc_run := StopQueue\<rparr>)"
| run_stopped: "lc_run S = RunBlock \<Longrightarrow> lc_stopClosed S \<Longrightarrow> run_step S (S\<lparr>lc_run := StopQueue\<rparr>)"

section \<open>NamespaceQueues.Stop\<close>

inductive stop_step :: "proc_state \<Rightarrow> proc_state \<Rightarrow> bool" where
  stop_queue: "lc_run S = StopQueue \<Longrightarrow> stop_step S (S\<lparr>lc_run := StopWorkers, lc_queueDown := True\<rparr>)"
| stop_workers: "lc_run S = StopWorkers \<Longrightarrow>
     stop_step S (S\<lparr>lc_run := StopWait, lc_open := 0, lc_shut := lc_shut S + lc_open S\<rparr>)"
| stop_waited: "lc_run S = StopWait \<Longrightarrow> lc_wg S = 0 \<Longrightarrow>
     stop_step S (S\<lparr>lc_run := StopReturn, lc_doneClosed := True\<rparr>)"

text \<open>When \<open>Run\<close> has returned, so does \<open>main\<close>, and the process ends with status 0.\<close>

inductive main_step :: "proc_state \<Rightarrow> proc_state \<Rightarrow> bool" where
  main_return: "lc_run S = StopReturn \<Longrightarrow> main_step S (S\<lparr>lc_exit := Some 0\<rparr>)"

section \<open>Router and workers\<close>

text \<open>
  The router is called again and again until \<open>stopCh\<close> ends it.  A \<open>Get\<close> gives what is left in a queue that
  is shut down.  A worker that is new is started before the wait group counts it.
\<close>

inductive router_step :: "proc_state \<Rightarrow> proc_state \<Rightarrow> bool" where
  router_next: "lc_router S = RtLoop \<Longrightarrow> \<not> lc_queueDown S \<Longrightarrow> router_step S (S\<lparr>lc_router := RtGet\<rparr>)"
| router_down: "lc_router S = RtLoop \<Longrightarrow> lc_queueDown S \<Longrightarrow> router_step S (S\<lparr>lc_router := RtPause\<rparr>)"
| router_get: "lc_router S = RtGet \<Longrightarrow> router_step S (S\<lparr>lc_router := RtItem\<rparr>)"
| router_quit: "lc_router S = RtGet \<Longrightarrow> lc_queueDown S \<Longrightarrow> router_step S (S\<lparr>lc_router := RtLoop\<rparr>)"
| router_known: "lc_router S = RtItem \<Longrightarrow> router_step S (S\<lparr>lc_router := RtLoop\<rparr>)"
| router_spawn: "lc_router S = RtItem \<Longrightarrow>
     router_step S (S\<lparr>lc_router := RtSpawned, lc_open := lc_open S + 1\<rparr>)"
| router_add: "lc_router S = RtSpawned \<Longrightarrow>
     router_step S (S\<lparr>lc_router := RtLoop, lc_wg := lc_wg S + 1\<rparr>)"
| router_again: "lc_router S = RtPause \<Longrightarrow> \<not> lc_stopClosed S \<Longrightarrow> router_step S (S\<lparr>lc_router := RtLoop\<rparr>)"
| router_end: "lc_router S = RtPause \<Longrightarrow> lc_stopClosed S \<Longrightarrow> router_step S (S\<lparr>lc_router := RtEnd\<rparr>)"

text \<open>
  A worker ends when its queue is shut down (\<open>work_ends\<close>).  A wait group with a negative counter
  panics, which ends the process with status 2.
\<close>

inductive worker_step :: "proc_state \<Rightarrow> proc_state \<Rightarrow> bool" where
  worker_end: "lc_shut S > 0 \<Longrightarrow> lc_wg S > 0 \<Longrightarrow>
     worker_step S (S\<lparr>lc_shut := lc_shut S - 1, lc_wg := lc_wg S - 1\<rparr>)"
| worker_panic: "lc_shut S > 0 \<Longrightarrow> lc_wg S \<le> 0 \<Longrightarrow> worker_step S (S\<lparr>lc_exit := Some 2\<rparr>)"

section \<open>handleTermination\<close>

text \<open>
  \<open>IngressController.Stop\<close>: the value sent on \<open>stopCh\<close> is taken by one of those who wait for it, \<open>Run\<close>, the
  synchronisation of the caches, the router between two runs, or an informer.
\<close>

inductive ing_stop_step :: "proc_state \<Rightarrow> proc_state \<Rightarrow> bool" where
  send_run: "lc_term S = TermSend \<Longrightarrow> lc_run S = RunBlock \<Longrightarrow>
     ing_stop_step S (S\<lparr>lc_term := TermClose, lc_run := StopQueue\<rparr>)"
| send_sync: "lc_term S = TermSend \<Longrightarrow> lc_run S = RunSync \<Longrightarrow>
     ing_stop_step S (S\<lparr>lc_term := TermClose, lc_run := StopQueue\<rparr>)"
| send_router: "lc_term S = TermSend \<Longrightarrow> lc_router S = RtPause \<Longrightarrow>
     ing_stop_step S (S\<lparr>lc_term := TermClose, lc_router := RtEnd\<rparr>)"
| send_informer: "lc_term S = TermSend \<Longrightarrow> lc_informers S \<Longrightarrow>
     ing_stop_step S (S\<lparr>lc_term := TermClose\<rparr>)"
| stop_close: "lc_term S = TermClose \<Longrightarrow>
     ing_stop_step S (S\<lparr>lc_term := TermAwait, lc_stopClosed := True\<rparr>)"
| stop_await: "lc_term S = TermAwait \<Longrightarrow> lc_doneClosed S \<Longrightarrow>
     ing_stop_step S (S\<lparr>lc_term := TermInformers\<rparr>)"

text \<open>The signal, \<open>informerStop\<close>, \<open>vc.Quit\<close>, and the end of the process with status 0.\<close>

inductive term_step :: "proc_state \<Rightarrow> proc_state \<Rightarrow> bool" where
  term_signal: "lc_term S = TermSignal \<Longrightarrow> term_step S (S\<lparr>lc_term := TermSend\<rparr>)"
| term_stop: "ing_stop_step S S' \<Longrightarrow> term_step S S'"
| term_informers: "lc_term S = TermInformers \<Longrightarrow> term_step S (S\<lparr>lc_term := TermQuit\<rparr>)"
| term_quit: "lc_term S = TermQuit \<Longrightarrow> \<not> lc_quit S \<Longrightarrow> term_step S (S\<lparr>lc_quit := True\<rparr>)"
| term_exit: "lc_term S = TermQuit \<Longrightarrow> lc_quit S \<Longrightarrow> term_step S (S\<lparr>lc_exit := Some 0\<rparr>)"

section \<open>The process\<close>

definition lc_step :: "proc_state \<Rightarrow> proc_state \<Rightarrow> bool" where
  "lc_step S S' \<longleftrightarrow> lc_exit S = None
     \<and> (run_step S S' \<or> stop_step S S' \<or> main_step S S' \<or> router_step S S' \<or> worker_step S S'
        \<or> term_step S S')"

abbreviation lc_steps :: "proc_state \<Rightarrow> proc_state \<Rightarrow> bool" where
  "lc_steps \<equiv> lc_step\<^sup>*\<^sup>*"

inductive_cases run_stepE: "run_step S S'"
inductive_cases stop_stepE: "stop_step S S'"
inductive_cases main_stepE: "main_step S S'"
inductive_cases router_stepE: "router_step S S'"
inductive_cases worker_stepE: "worker_step S S'"
inductive_cases ing_stop_stepE: "ing_stop_step S S'"
inductive_cases term_stepE: "term_step S S'"

lemmas lc_elims = run_stepE stop_stepE main_stepE router_stepE worker_stepE term_stepE ing_stop_stepE

lemma lc_stepE:
  assumes "lc_step S S'"
  obtains "lc_exit S = None" "run_step S S'" | "lc_exit S = None" "stop_step S S'"
    | "lc_exit S = None" "main_step S S'" | "lc_exit S = None" "router_step S S'"
    | "lc_exit S = None" "worker_step S S'" | "lc_exit S = None" "term_step S S'"
  using assms by (auto simp: lc_step_def)

section \<open>The invariant\<close>

definition uncounted :: "proc_state \<Rightarrow> nat" where
  "uncounted S = (if lc_router S = RtSpawned then 1 else 0)"

text \<open>
  The wait group counts the workers that run, but for one that has just been started; \<open>DoneChan\<close> is closed
  by \<open>NamespaceQueues.Stop\<close> only, and \<open>handleTermination\<close> goes on only after it.
\<close>

definition lc_ok :: "proc_state \<Rightarrow> bool" where
  "lc_ok S \<longleftrightarrow>
     lc_wg S = int (lc_open S + lc_shut S) - int (uncounted S)
     \<and> lc_wg S \<ge> 0
     \<and> (lc_run S \<in> {RunStart, RunReady, RunSync} \<longrightarrow> lc_router S = RtOff)
     \<and> (lc_doneClosed S \<longleftrightarrow> lc_run S = StopReturn)
     \<and> (lc_term S \<in> {TermInformers, TermQuit} \<longrightarrow> lc_doneClosed S)
     \<and> (lc_run S \<in> {StopWorkers, StopWait, StopReturn} \<longleftrightarrow> lc_queueDown S)
     \<and> (lc_quit S \<longrightarrow> lc_term S = TermQuit)"

lemma lc_ok_init: "lc_ok lc_init"
  by (simp add: lc_ok_def lc_init_def uncounted_def)

lemma lc_ok_step: "lc_step S S' \<Longrightarrow> lc_ok S \<Longrightarrow> lc_ok S'"
  by (erule lc_stepE; erule lc_elims; (erule ing_stop_stepE)?)
    (auto simp: lc_ok_def uncounted_def)

lemma lc_ok_steps: "lc_steps S S' \<Longrightarrow> lc_ok S \<Longrightarrow> lc_ok S'"
  by (induction rule: rtranclp_induct) (auto intro: lc_ok_step)

section \<open>Whether the process ends\<close>

text \<open>
  While \<open>NamespaceQueues.Stop\<close> waits, a worker that the wait group counts and whose queue is open keeps it
  waiting, and nobody shuts down the queue any more.
\<close>

definition stuck :: "proc_state \<Rightarrow> bool" where
  "stuck S \<longleftrightarrow> lc_run S = StopWait \<and> lc_open S > uncounted S \<and> lc_exit S = None"

lemma stuck_step: "lc_step S S' \<Longrightarrow> lc_ok S \<Longrightarrow> stuck S \<Longrightarrow> stuck S'"
  by (erule lc_stepE; erule lc_elims; (erule ing_stop_stepE)?)
    (auto simp: lc_ok_def stuck_def uncounted_def split: if_split_asm)

lemma stuck_steps: "lc_steps S S' \<Longrightarrow> lc_ok S \<Longrightarrow> stuck S \<Longrightarrow> stuck S'"
proof (induction rule: rtranclp_induct)
  case (step T U)
  then show ?case using lc_ok_steps stuck_step by blast
qed simp

lemma lc_exitI: "lc_step S T \<Longrightarrow> \<exists>U. lc_steps T U \<and> P U \<Longrightarrow> \<exists>U. lc_steps S U \<and> P U"
  by (meson converse_rtranclp_into_rtranclp)

lemma workers_end:
  "lc_run S = StopWait \<Longrightarrow> lc_exit S = None \<Longrightarrow> lc_wg S = int n \<Longrightarrow> n \<le> lc_shut S \<Longrightarrow>
     \<exists>S'. lc_steps S S' \<and> lc_exit S' = Some 0"
proof (induction n arbitrary: S)
  case 0
  let ?T = "S\<lparr>lc_run := StopReturn, lc_doneClosed := True\<rparr>"
  have "lc_step S ?T" using 0 by (simp add: lc_step_def stop_waited)
  moreover have "lc_step ?T (?T\<lparr>lc_exit := Some 0\<rparr>)" using 0 by (simp add: lc_step_def main_return)
  ultimately show ?case by (intro exI [of _ "?T\<lparr>lc_exit := Some 0\<rparr>"]) auto
next
  case (Suc n)
  let ?T = "S\<lparr>lc_shut := lc_shut S - 1, lc_wg := lc_wg S - 1\<rparr>"
  have "worker_step S ?T" using Suc.prems by (intro worker_end) simp_all
  then have "lc_step S ?T" using Suc.prems(2) unfolding lc_step_def by blast
  moreover have "\<exists>S'. lc_steps ?T S' \<and> lc_exit S' = Some 0" using Suc.prems by (intro Suc.IH) auto
  ultimately show ?case by (rule lc_exitI)
qed

lemma shutdown_iff:
  assumes "lc_ok S" and "lc_run S = StopWait" and "lc_exit S = None"
  shows "(\<exists>S'. lc_steps S S' \<and> lc_exit S' \<noteq> None) \<longleftrightarrow> lc_open S \<le> uncounted S"
proof
  assume "\<exists>S'. lc_steps S S' \<and> lc_exit S' \<noteq> None"
  then obtain S' where steps: "lc_steps S S'" and e: "lc_exit S' \<noteq> None" by blast
  show "lc_open S \<le> uncounted S"
  proof (rule ccontr)
    assume "\<not> lc_open S \<le> uncounted S"
    then have "stuck S" using assms(2,3) by (simp add: stuck_def)
    from stuck_steps [OF steps assms(1) this] e show False by (simp add: stuck_def)
  qed
next
  assume o: "lc_open S \<le> uncounted S"
  have w: "lc_wg S = int (lc_open S + lc_shut S) - int (uncounted S)" "lc_wg S \<ge> 0"
    using assms(1) by (simp_all add: lc_ok_def)
  then have "lc_wg S = int (nat (lc_wg S))" "nat (lc_wg S) \<le> lc_shut S"
    using o by linarith+
  from workers_end [OF assms(2,3) this] show "\<exists>S'. lc_steps S S' \<and> lc_exit S' \<noteq> None" by auto
qed

section \<open>Runs\<close>

text \<open>
  Ten steps to a run that hangs: the signal comes when the router has taken an item of a new namespace, and
  the queues of the workers are shut down before it has started the worker.
\<close>

definition lc_running :: proc_state where
  "lc_running = lc_init\<lparr>lc_run := RunBlock, lc_router := RtLoop, lc_informers := True\<rparr>"

lemma lc_steps_Cons: "lc_step S T \<Longrightarrow> lc_steps T U \<Longrightarrow> lc_steps S U"
  by (rule converse_rtranclp_into_rtranclp)

lemma lc_running: "lc_steps lc_init lc_running"
proof -
  let ?A = "lc_init\<lparr>lc_run := RunReady, lc_informers := True\<rparr>"
  let ?B = "?A\<lparr>lc_run := RunSync\<rparr>"
  have "run_step lc_init ?A" by (rule run_launch) (simp add: lc_init_def)
  moreover have "run_step ?A ?B" by (rule run_ready) simp
  moreover have "run_step ?B (?B\<lparr>lc_run := RunBlock, lc_router := RtLoop\<rparr>)" by (rule run_synced) simp
  moreover have "?B\<lparr>lc_run := RunBlock, lc_router := RtLoop\<rparr> = lc_running"
    by (simp add: lc_running_def)
  ultimately have "lc_step lc_init ?A" "lc_step ?A ?B" "lc_step ?B lc_running"
    by (simp_all add: lc_step_def lc_init_def)
  then show ?thesis by (meson lc_steps_Cons rtranclp.rtrancl_refl)
qed

definition lc_hung :: proc_state where
  "lc_hung = lc_running
     \<lparr>lc_run := StopWait, lc_term := TermClose, lc_router := RtLoop, lc_queueDown := True,
      lc_open := 1, lc_wg := 1\<rparr>"

lemma lc_hung: "lc_steps lc_running lc_hung"
proof -
  let ?A = "lc_running\<lparr>lc_router := RtGet\<rparr>"
  let ?B = "?A\<lparr>lc_router := RtItem\<rparr>"
  let ?C = "?B\<lparr>lc_term := TermSend\<rparr>"
  let ?D = "?C\<lparr>lc_term := TermClose, lc_run := StopQueue\<rparr>"
  let ?E = "?D\<lparr>lc_run := StopWorkers, lc_queueDown := True\<rparr>"
  let ?F = "?E\<lparr>lc_run := StopWait, lc_open := 0, lc_shut := lc_shut ?E + lc_open ?E\<rparr>"
  let ?G = "?F\<lparr>lc_router := RtSpawned, lc_open := lc_open ?F + 1\<rparr>"
  let ?H = "?G\<lparr>lc_router := RtLoop, lc_wg := lc_wg ?G + 1\<rparr>"
  have "router_step lc_running ?A" by (rule router_next) (simp_all add: lc_running_def lc_init_def)
  moreover have "router_step ?A ?B" by (rule router_get) simp
  moreover have "term_step ?B ?C" by (rule term_signal) (simp add: lc_running_def lc_init_def)
  moreover have "term_step ?C ?D"
    by (intro term_stop send_run) (simp_all add: lc_running_def)
  moreover have "stop_step ?D ?E" by (rule stop_queue) simp
  moreover have "stop_step ?E ?F" by (rule stop_workers) simp
  moreover have "router_step ?F ?G" by (rule router_spawn) simp
  moreover have "router_step ?G ?H" by (rule router_add) simp
  moreover have "?H = lc_hung" by (simp add: lc_hung_def lc_running_def lc_init_def)
  moreover have "lc_exit lc_running = None" by (simp add: lc_running_def lc_init_def)
  ultimately have "lc_step lc_running ?A" "lc_step ?A ?B" "lc_step ?B ?C" "lc_step ?C ?D"
    "lc_step ?D ?E" "lc_step ?E ?F" "lc_step ?F ?G" "lc_step ?G lc_hung"
    by (simp_all add: lc_step_def)
  then show ?thesis by (meson lc_steps_Cons rtranclp.rtrancl_refl)
qed

lemma lc_hung_stuck: "stuck lc_hung"
  by (simp add: stuck_def lc_hung_def lc_running_def lc_init_def uncounted_def)

text \<open>
  A run without the race: the queues are shut down while the router waits for an object.  It may end
  before \<open>vc.Quit\<close>, as \<open>main\<close> returns first.
\<close>

definition lc_waiting :: proc_state where
  "lc_waiting = lc_running\<lparr>lc_run := StopWait, lc_term := TermClose, lc_queueDown := True\<rparr>"

lemma lc_waiting: "lc_steps lc_running lc_waiting"
proof -
  let ?C = "lc_running\<lparr>lc_term := TermSend\<rparr>"
  let ?D = "?C\<lparr>lc_term := TermClose, lc_run := StopQueue\<rparr>"
  let ?E = "?D\<lparr>lc_run := StopWorkers, lc_queueDown := True\<rparr>"
  let ?F = "?E\<lparr>lc_run := StopWait, lc_open := 0, lc_shut := lc_shut ?E + lc_open ?E\<rparr>"
  have "term_step lc_running ?C" by (rule term_signal) (simp add: lc_running_def lc_init_def)
  moreover have "term_step ?C ?D"
    by (intro term_stop send_run) (simp_all add: lc_running_def)
  moreover have "stop_step ?D ?E" by (rule stop_queue) simp
  moreover have "stop_step ?E ?F" by (rule stop_workers) simp
  moreover have "?F = lc_waiting" by (simp add: lc_waiting_def lc_running_def lc_init_def)
  moreover have "lc_exit lc_running = None" by (simp add: lc_running_def lc_init_def)
  ultimately have "lc_step lc_running ?C" "lc_step ?C ?D" "lc_step ?D ?E" "lc_step ?E lc_waiting"
    by (simp_all add: lc_step_def)
  then show ?thesis by (meson lc_steps_Cons rtranclp.rtrancl_refl)
qed

definition lc_unquit :: proc_state where
  "lc_unquit = lc_waiting\<lparr>lc_run := StopReturn, lc_doneClosed := True, lc_exit := Some 0\<rparr>"

lemma lc_unquit: "lc_steps lc_waiting lc_unquit"
proof -
  let ?G = "lc_waiting\<lparr>lc_run := StopReturn, lc_doneClosed := True\<rparr>"
  have "stop_step lc_waiting ?G"
    by (rule stop_waited) (simp_all add: lc_waiting_def lc_running_def lc_init_def)
  moreover have "main_step ?G (?G\<lparr>lc_exit := Some 0\<rparr>)" by (rule main_return) simp
  moreover have "?G\<lparr>lc_exit := Some 0\<rparr> = lc_unquit" by (simp add: lc_unquit_def)
  moreover have "lc_exit lc_waiting = None" by (simp add: lc_waiting_def lc_running_def lc_init_def)
  ultimately have "lc_step lc_waiting ?G" "lc_step ?G lc_unquit"
    by (simp_all add: lc_step_def)
  then show ?thesis by (meson lc_steps_Cons rtranclp.rtrancl_refl)
qed

end
