(* ===== verification/CommandLine.thy ===== *)
theory CommandLine
  imports GoLib
begin

text \<open>
  The start of the process (\<open>main\<close> in \<open>cmd/main.go\<close>, up to the call of \<open>Run\<close>): what the options must
  satisfy, and what the controllers are started with.  The results of the calls of other packages are
  the record \<open>startup_env\<close>.
\<close>

record Flags =
  fl_version :: bool
  fl_loglvl :: string
  fl_namespace :: string
  fl_templatedir :: string
  fl_readyfile :: string
  fl_monIntvl :: int
  fl_metricsPort :: uint64
  fl_class :: string
  fl_resync :: int

datatype remove_result = Removed | NotExist | RemoveFails

text \<open>
  Whether each call succeeds: the removal of the ready file, the environment variable \<open>TEMPLATE_DIR\<close>, the
  templates of a directory, the configuration of the client, both clients, and \<open>NewIngressController\<close>.
\<close>

record startup_env =
  se_Remove :: "string \<Rightarrow> remove_result"
  se_TEMPLATE_DIR :: "string option"
  se_templates :: "string \<Rightarrow> bool"
  se_config :: bool
  se_kubeClient :: bool
  se_vingClient :: bool
  se_controller :: bool

datatype log_level = PanicLevel | FatalLevel | ErrorLevel | WarnLevel | InfoLevel | DebugLevel | TraceLevel

text \<open>What is running when \<open>Run\<close> is called.\<close>

record started =
  st_level :: log_level
  st_class :: string
  st_templates :: string
  st_monIntvl :: int
  st_namespace :: "string option"
  st_resync :: int
  st_readyfile :: string
  st_port :: uint16

datatype startup = Exit nat | Running started

text \<open>
  \<open>strings.ToLower\<close>, as far as a comparison with a word of ASCII letters can tell: besides the ASCII
  capitals, the capital I with dot and the Kelvin sign have an ASCII letter as their lower case.
\<close>

fun ToLower :: "bytes \<Rightarrow> bytes" where
  "ToLower [] = []"
| "ToLower (c # cs) =
     (if of_char c = (0xC4 :: nat) \<and> cs \<noteq> [] \<and> of_char (hd cs) = (0xB0 :: nat) then CHR ''i'' # ToLower (tl cs)
      else if of_char c = (0xE2 :: nat) \<and> length cs > 1 \<and> of_char (hd cs) = (0x84 :: nat)
          \<and> of_char (hd (tl cs)) = (0xAA :: nat)
        then CHR ''k'' # ToLower (tl (tl cs))
      else if 65 \<le> (of_char c :: nat) \<and> (of_char c :: nat) \<le> 90 then char_of (of_char c + 32 :: nat) # ToLower cs
      else c # ToLower cs)"

text \<open>None: an unknown level.\<close>

definition logLevel :: "string \<Rightarrow> log_level option" where
  "logLevel s =
     (let lvl = ToLower s
      in if lvl = ''panic'' then Some PanicLevel
         else if lvl = ''fatal'' then Some FatalLevel
         else if lvl = ''error'' then Some ErrorLevel
         else if lvl = ''warn'' then Some WarnLevel
         else if lvl = ''debug'' then Some DebugLevel
         else if lvl = ''trace'' then Some TraceLevel
         else if lvl = ''info'' then Some InfoLevel
         else None)"

text \<open>\<open>NewVarnishController\<close>: the directory of the templates; None: they cannot be read.\<close>

definition template_dir :: "startup_env \<Rightarrow> string \<Rightarrow> string option" where
  "template_dir E tmplDir =
     (let dir = (if tmplDir = [] then
                   (case se_TEMPLATE_DIR E of None \<Rightarrow> tmplDir | Some d \<Rightarrow> d)
                 else tmplDir)
      in if se_templates E dir then Some dir else None)"

text \<open>\<open>os.Exit(-1)\<close> gives status 255, \<open>log.Fatal\<close> status 1.\<close>

definition main :: "startup_env \<Rightarrow> Flags \<Rightarrow> startup" where
  "main E fl =
     (if fl_version fl then Exit 0
      else if fl_readyfile fl \<noteq> [] \<and> se_Remove E (fl_readyfile fl) = RemoveFails then Exit 255
      else
        (case logLevel (fl_loglvl fl) of
           None \<Rightarrow> Exit 255
         | Some level \<Rightarrow>
             if fl_class fl = [] then Exit 1
             else if fl_metricsPort fl > 65535 then Exit 1
             else
               (case template_dir E (fl_templatedir fl) of
                  None \<Rightarrow> Exit 1
                | Some dir \<Rightarrow>
                    if \<not> se_config E then Exit 1
                    else if \<not> se_kubeClient E then Exit 1
                    else if \<not> se_vingClient E then Exit 1
                    else if \<not> se_controller E then Exit 1
                    else Running
                      \<lparr>st_level = level, st_class = fl_class fl, st_templates = dir,
                       st_monIntvl = fl_monIntvl fl,
                       st_namespace = (if fl_namespace fl = [] then None else Some (fl_namespace fl)),
                       st_resync = fl_resync fl, st_readyfile = fl_readyfile fl,
                       st_port = ucast (fl_metricsPort fl)\<rparr>)))"

text \<open>The options with which the controllers run: the port is the one of the option.\<close>

lemma ucast_port: "(p :: uint64) \<le> 65535 \<Longrightarrow> unat (ucast p :: uint16) = unat p"
  by (simp add: unsigned_ucast_eq take_bit_nat_eq_self word_le_nat_alt)

lemma main_running:
  assumes "main E fl = Running st"
  shows "unat (st_port st) = unat (fl_metricsPort fl) \<and> st_class st = fl_class fl \<and> fl_class fl \<noteq> []
     \<and> logLevel (fl_loglvl fl) = Some (st_level st) \<and> se_templates E (st_templates st)
     \<and> (fl_readyfile fl \<noteq> [] \<longrightarrow> se_Remove E (fl_readyfile fl) \<noteq> RemoveFails)"
  using assms
  by (auto simp: main_def template_dir_def Let_def ucast_port linorder_not_less split: if_split_asm option.split_asm)

lemma main_exits:
  assumes "main E fl = Exit n" and "\<not> fl_version fl"
  shows "n \<noteq> 0"
  using assms by (auto simp: main_def split: if_split_asm option.split_asm)

end
