(* ===== verification/CrdClient.thy ===== *)
theory CrdClient
  imports CrdTypes
begin

text \<open>
  The clients of the custom resources: their registration (\<open>pkg/apis/varnishingress/v1alpha1/register.go\<close>),
  and the generated client (\<open>pkg/client/clientset/versioned\<close>), as the requests that it builds.  The REST
  client of \<open>client-go\<close> is outside the repository: a request is what it is asked for.
\<close>

section \<open>Names of the API\<close>

record GroupVersion =
  gv_Group :: string
  gv_Version :: string

record GroupVersionResource =
  gvr_Group :: string
  gvr_Version :: string
  gvr_Resource :: string

record GroupVersionKind =
  gvk_Group :: string
  gvk_Version :: string
  gvk_Kind :: string

definition SchemeGroupVersion :: GroupVersion where
  "SchemeGroupVersion = \<lparr>gv_Group = ''ingress.varnish-cache.org'', gv_Version = ''v1alpha1''\<rparr>"

definition WithResource :: "string \<Rightarrow> GroupVersionResource" where
  "WithResource resource =
     \<lparr>gvr_Group = gv_Group SchemeGroupVersion, gvr_Version = gv_Version SchemeGroupVersion,
      gvr_Resource = resource\<rparr>"

text \<open>A group with a kind, and with a resource.\<close>

definition Kind :: "string \<Rightarrow> string \<times> string" where
  "Kind kind = (gv_Group SchemeGroupVersion, kind)"

definition Resource :: "string \<Rightarrow> string \<times> string" where
  "Resource resource = (gv_Group SchemeGroupVersion, resource)"

section \<open>Objects, options and bodies\<close>

text \<open>The fields of \<open>ListMeta\<close> are only copied.  \<open>ROther\<close> is a \<open>runtime.Object\<close> of any other type.\<close>

type_synonym ListMeta = "(string \<times> string) list"

record VarnishConfigList =
  vcl_ListMeta :: ListMeta
  vcl_Items :: "VarnishConfig list"

record BackendConfigList =
  bcl_ListMeta :: ListMeta
  bcl_Items :: "BackendConfig list"

datatype robject =
    RVarnishConfig VarnishConfig
  | RVarnishConfigList VarnishConfigList
  | RBackendConfig BackendConfig
  | RBackendConfigList BackendConfigList
  | ROther

text \<open>
  Of \<open>ListOptions\<close>, the fields that the clients read or set; \<open>lo_query\<close> stands for the others.
\<close>

record ListOptions =
  lo_TimeoutSeconds :: "int64 option"
  lo_Watch :: bool
  lo_query :: "(string \<times> string) list"

text \<open>\<open>GetOptions\<close> and \<open>DeleteOptions\<close> are only handed on, the latter by a pointer.\<close>

type_synonym GetOptions = "(string \<times> string) list"
type_synonym DeleteOptions = "(string \<times> string) list"

datatype body =
    NoBody
  | ObjBody robject
  | OptsBody "DeleteOptions option"
  | PatchBody string bytes

datatype params = NoParams | GetParams GetOptions | ListParams ListOptions

section \<open>Requests\<close>

text \<open>
  How a request is made and what is read of its answer: \<open>Do().Into(result)\<close>, \<open>Do().Error()\<close> or \<open>Watch()\<close>.
\<close>

datatype rest_verb = VGet | VPost | VPut | VDelete | VPatch
datatype rest_end = DoInto | DoError | DoWatch

record Request =
  rq_verb :: rest_verb
  rq_Namespace :: string
  rq_Resource :: string
  rq_Name :: "string option"
  rq_SubResource :: "string list"
  rq_Params :: params
  rq_Timeout :: "int64 option"
  rq_Body :: body
  rq_end :: rest_end

text \<open>The start of every chain of calls: the verb, the namespace and the resource.\<close>

definition request :: "rest_verb \<Rightarrow> string \<Rightarrow> string \<Rightarrow> rest_end \<Rightarrow> Request" where
  "request verb ns resource e =
     \<lparr>rq_verb = verb, rq_Namespace = ns, rq_Resource = resource, rq_Name = None, rq_SubResource = [],
      rq_Params = NoParams, rq_Timeout = None, rq_Body = NoBody, rq_end = e\<rparr>"

text \<open>\<open>time.Duration(*opts.TimeoutSeconds) * time.Second\<close>, which wraps around.\<close>

definition opts_timeout :: "ListOptions \<Rightarrow> int64" where
  "opts_timeout opts = (case lo_TimeoutSeconds opts of None \<Rightarrow> 0 | Some s \<Rightarrow> s * 1000000000)"

section \<open>The client of VarnishConfigs\<close>

definition varnishConfigs_Get :: "string \<Rightarrow> string \<Rightarrow> GetOptions \<Rightarrow> Request" where
  "varnishConfigs_Get ns name options =
     (request VGet ns ''varnishconfigs'' DoInto)
       \<lparr>rq_Name := Some name, rq_Params := GetParams options\<rparr>"

definition varnishConfigs_List :: "string \<Rightarrow> ListOptions \<Rightarrow> Request" where
  "varnishConfigs_List ns opts =
     (request VGet ns ''varnishconfigs'' DoInto)
       \<lparr>rq_Params := ListParams opts, rq_Timeout := Some (opts_timeout opts)\<rparr>"

definition varnishConfigs_Watch :: "string \<Rightarrow> ListOptions \<Rightarrow> Request" where
  "varnishConfigs_Watch ns opts =
     (request VGet ns ''varnishconfigs'' DoWatch)
       \<lparr>rq_Params := ListParams (opts\<lparr>lo_Watch := True\<rparr>), rq_Timeout := Some (opts_timeout opts)\<rparr>"

definition varnishConfigs_Create :: "string \<Rightarrow> VarnishConfig \<Rightarrow> Request" where
  "varnishConfigs_Create ns varnishConfig =
     (request VPost ns ''varnishconfigs'' DoInto)\<lparr>rq_Body := ObjBody (RVarnishConfig varnishConfig)\<rparr>"

definition varnishConfigs_Update :: "string \<Rightarrow> VarnishConfig \<Rightarrow> Request" where
  "varnishConfigs_Update ns varnishConfig =
     (request VPut ns ''varnishconfigs'' DoInto)
       \<lparr>rq_Name := Some (om_Name (vcfg_Meta varnishConfig)), rq_Body := ObjBody (RVarnishConfig varnishConfig)\<rparr>"

definition varnishConfigs_Delete ::
    "string \<Rightarrow> string \<Rightarrow> DeleteOptions option \<Rightarrow> Request" where
  "varnishConfigs_Delete ns name options =
     (request VDelete ns ''varnishconfigs'' DoError)
       \<lparr>rq_Name := Some name, rq_Body := OptsBody options\<rparr>"

definition varnishConfigs_DeleteCollection ::
    "string \<Rightarrow> DeleteOptions option \<Rightarrow> ListOptions \<Rightarrow> Request" where
  "varnishConfigs_DeleteCollection ns options listOptions =
     (request VDelete ns ''varnishconfigs'' DoError)
       \<lparr>rq_Params := ListParams listOptions, rq_Timeout := Some (opts_timeout listOptions),
        rq_Body := OptsBody options\<rparr>"

definition varnishConfigs_Patch ::
    "string \<Rightarrow> string \<Rightarrow> string \<Rightarrow> bytes \<Rightarrow> string list \<Rightarrow> Request" where
  "varnishConfigs_Patch ns name pt data subresources =
     (request VPatch ns ''varnishconfigs'' DoInto)
       \<lparr>rq_SubResource := subresources, rq_Name := Some name, rq_Body := PatchBody pt data\<rparr>"

section \<open>The client of BackendConfigs\<close>

definition backendConfigs_Get :: "string \<Rightarrow> string \<Rightarrow> GetOptions \<Rightarrow> Request" where
  "backendConfigs_Get ns name options =
     (request VGet ns ''backendconfigs'' DoInto)
       \<lparr>rq_Name := Some name, rq_Params := GetParams options\<rparr>"

definition backendConfigs_List :: "string \<Rightarrow> ListOptions \<Rightarrow> Request" where
  "backendConfigs_List ns opts =
     (request VGet ns ''backendconfigs'' DoInto)
       \<lparr>rq_Params := ListParams opts, rq_Timeout := Some (opts_timeout opts)\<rparr>"

definition backendConfigs_Watch :: "string \<Rightarrow> ListOptions \<Rightarrow> Request" where
  "backendConfigs_Watch ns opts =
     (request VGet ns ''backendconfigs'' DoWatch)
       \<lparr>rq_Params := ListParams (opts\<lparr>lo_Watch := True\<rparr>), rq_Timeout := Some (opts_timeout opts)\<rparr>"

definition backendConfigs_Create :: "string \<Rightarrow> BackendConfig \<Rightarrow> Request" where
  "backendConfigs_Create ns backendConfig =
     (request VPost ns ''backendconfigs'' DoInto)\<lparr>rq_Body := ObjBody (RBackendConfig backendConfig)\<rparr>"

definition backendConfigs_Update :: "string \<Rightarrow> BackendConfig \<Rightarrow> Request" where
  "backendConfigs_Update ns backendConfig =
     (request VPut ns ''backendconfigs'' DoInto)
       \<lparr>rq_Name := Some (om_Name (bcfg_Meta backendConfig)), rq_Body := ObjBody (RBackendConfig backendConfig)\<rparr>"

definition backendConfigs_Delete ::
    "string \<Rightarrow> string \<Rightarrow> DeleteOptions option \<Rightarrow> Request" where
  "backendConfigs_Delete ns name options =
     (request VDelete ns ''backendconfigs'' DoError)
       \<lparr>rq_Name := Some name, rq_Body := OptsBody options\<rparr>"

definition backendConfigs_DeleteCollection ::
    "string \<Rightarrow> DeleteOptions option \<Rightarrow> ListOptions \<Rightarrow> Request" where
  "backendConfigs_DeleteCollection ns options listOptions =
     (request VDelete ns ''backendconfigs'' DoError)
       \<lparr>rq_Params := ListParams listOptions, rq_Timeout := Some (opts_timeout listOptions),
        rq_Body := OptsBody options\<rparr>"

definition backendConfigs_Patch ::
    "string \<Rightarrow> string \<Rightarrow> string \<Rightarrow> bytes \<Rightarrow> string list \<Rightarrow> Request" where
  "backendConfigs_Patch ns name pt data subresources =
     (request VPatch ns ''backendconfigs'' DoInto)
       \<lparr>rq_SubResource := subresources, rq_Name := Some name, rq_Body := PatchBody pt data\<rparr>"

section \<open>Configuration of the client\<close>

text \<open>
  Of \<open>rest.Config\<close>, the fields that the code reads or sets.  \<open>'q\<close> is the type of \<open>QPS\<close>, a \<open>float32\<close>, of which
  only \<open>positive\<close> is asked, and \<open>'l\<close> that of a rate limiter.
\<close>

record ('q, 'l) Config =
  cf_RateLimiter :: "'l option"
  cf_QPS :: 'q
  cf_Burst :: "64 word"
  cf_UserAgent :: string
  cf_GroupVersion :: "GroupVersion option"
  cf_APIPath :: string
  cf_WithoutConversion :: bool

definition setConfigDefaults :: "string \<Rightarrow> ('q, 'l) Config \<Rightarrow> ('q, 'l) Config" where
  "setConfigDefaults DefaultKubernetesUserAgent config =
     config\<lparr>cf_GroupVersion := Some SchemeGroupVersion, cf_APIPath := ''/apis'',
            cf_WithoutConversion := True,
            cf_UserAgent := if cf_UserAgent config = [] then DefaultKubernetesUserAgent
                            else cf_UserAgent config\<rparr>"

text \<open>
  What the constructors call: \<open>rest.RESTClientFor\<close>, \<open>discovery.NewDiscoveryClientForConfig\<close>, and the token
  bucket.
\<close>

record ('q, 'l, 'r, 'd, 'e) client_lib =
  cl_positive :: "'q \<Rightarrow> bool"
  cl_NewTokenBucketRateLimiter :: "'q \<Rightarrow> 64 word \<Rightarrow> 'l"
  cl_DefaultKubernetesUserAgent :: string
  cl_RESTClientFor :: "('q, 'l) Config \<Rightarrow> 'e + 'r"
  cl_NewDiscoveryClientForConfig :: "('q, 'l) Config \<Rightarrow> 'e + 'd"
  cl_NewDiscoveryClient :: "'r \<Rightarrow> 'd"

datatype 'e client_error = BurstRequired | LibError 'e

text \<open>A client for the group is given by the REST client that it holds.\<close>

definition IngressV1alpha1_NewForConfig ::
    "('q, 'l, 'r, 'd, 'e) client_lib \<Rightarrow> ('q, 'l) Config \<Rightarrow> 'e + 'r" where
  "IngressV1alpha1_NewForConfig C c =
     cl_RESTClientFor C (setConfigDefaults (cl_DefaultKubernetesUserAgent C) c)"

definition IngressV1alpha1_NewForConfigOrDie ::
    "('q, 'l, 'r, 'd, 'e) client_lib \<Rightarrow> ('q, 'l) Config \<Rightarrow> (unit, 'r) outcome" where
  "IngressV1alpha1_NewForConfigOrDie C c =
     (case IngressV1alpha1_NewForConfig C c of Inl _ \<Rightarrow> Panic | Inr client \<Rightarrow> Ok client)"

record ('r, 'd) Clientset =
  cs_DiscoveryClient :: 'd
  cs_ingressV1alpha1 :: 'r

text \<open>The check of the rate limit and the copy of the configuration that both clients get.\<close>

definition configShallowCopy ::
    "('q, 'l, 'r, 'd, 'e) client_lib \<Rightarrow> ('q, 'l) Config \<Rightarrow> 'e client_error + ('q, 'l) Config" where
  "configShallowCopy C c =
     (if cf_RateLimiter c = None \<and> cl_positive C (cf_QPS c) then
        (if cf_Burst c <=s 0 then Inl BurstRequired
         else Inr (c\<lparr>cf_RateLimiter := Some (cl_NewTokenBucketRateLimiter C (cf_QPS c) (cf_Burst c))\<rparr>))
      else Inr c)"

definition NewForConfig ::
    "('q, 'l, 'r, 'd, 'e) client_lib \<Rightarrow> ('q, 'l) Config \<Rightarrow> 'e client_error + ('r, 'd) Clientset" where
  "NewForConfig C c =
     (case configShallowCopy C c of
        Inl e \<Rightarrow> Inl e
      | Inr c' \<Rightarrow>
          (case IngressV1alpha1_NewForConfig C c' of
             Inl e \<Rightarrow> Inl (LibError e)
           | Inr ing \<Rightarrow>
               (case cl_NewDiscoveryClientForConfig C c' of
                  Inl e \<Rightarrow> Inl (LibError e)
                | Inr disc \<Rightarrow> Inr \<lparr>cs_DiscoveryClient = disc, cs_ingressV1alpha1 = ing\<rparr>)))"

text \<open>Without the check; \<open>NewDiscoveryClientForConfigOrDie\<close> panics where its variant returns an error.\<close>

definition NewForConfigOrDie ::
    "('q, 'l, 'r, 'd, 'e) client_lib \<Rightarrow> ('q, 'l) Config \<Rightarrow> (unit, ('r, 'd) Clientset) outcome" where
  "NewForConfigOrDie C c =
     obind (IngressV1alpha1_NewForConfigOrDie C c) (\<lambda>ing.
       case cl_NewDiscoveryClientForConfig C c of
         Inl _ \<Rightarrow> Panic
       | Inr disc \<Rightarrow> Ok \<lparr>cs_DiscoveryClient = disc, cs_ingressV1alpha1 = ing\<rparr>)"

definition New :: "('q, 'l, 'r, 'd, 'e) client_lib \<Rightarrow> 'r \<Rightarrow> ('r, 'd) Clientset" where
  "New C c = \<lparr>cs_DiscoveryClient = cl_NewDiscoveryClient C c, cs_ingressV1alpha1 = c\<rparr>"

end
