(* ===== verification/InformerFactory.thy ===== *)
theory InformerFactory
  imports CrdListers CrdClient
begin

text \<open>
  The informers of the custom resources: the generated factory
  (\<open>pkg/client/informers/externalversions\<close>), the requests that its informers send with the generated
  client (\<open>pkg/client/clientset\<close>), and how \<open>main\<close> and \<open>NewIngressController\<close> (\<open>controller.go\<close>) make the
  informers and listers of the controller from it and from the factory of \<open>client-go\<close>.  The informers
  themselves, the REST client and the second factory are outside the repository.
\<close>

section \<open>Informers\<close>

text \<open>The type of the objects, which is the key of the factory's tables.\<close>

datatype crd_type = TVarnishConfig | TBackendConfig

type_synonym tweak_fn = "ListOptions \<Rightarrow> ListOptions"

text \<open>What \<open>cache.NewSharedIndexInformer\<close> is called with.\<close>

record SharedIndexInformer =
  si_ListFunc :: "ListOptions \<Rightarrow> Request"
  si_WatchFunc :: "ListOptions \<Rightarrow> Request"
  si_type :: crd_type
  si_resync :: int64

definition tweaked :: "tweak_fn option \<Rightarrow> ListOptions \<Rightarrow> ListOptions" where
  "tweaked tweak opts = (case tweak of None \<Rightarrow> opts | Some f \<Rightarrow> f opts)"

definition NewFilteredVarnishConfigInformer ::
    "string \<Rightarrow> int64 \<Rightarrow> tweak_fn option \<Rightarrow> SharedIndexInformer" where
  "NewFilteredVarnishConfigInformer ns resync tweak =
     \<lparr>si_ListFunc = (\<lambda>opts. varnishConfigs_List ns (tweaked tweak opts)),
      si_WatchFunc = (\<lambda>opts. varnishConfigs_Watch ns (tweaked tweak opts)),
      si_type = TVarnishConfig, si_resync = resync\<rparr>"

definition NewFilteredBackendConfigInformer ::
    "string \<Rightarrow> int64 \<Rightarrow> tweak_fn option \<Rightarrow> SharedIndexInformer" where
  "NewFilteredBackendConfigInformer ns resync tweak =
     \<lparr>si_ListFunc = (\<lambda>opts. backendConfigs_List ns (tweaked tweak opts)),
      si_WatchFunc = (\<lambda>opts. backendConfigs_Watch ns (tweaked tweak opts)),
      si_type = TBackendConfig, si_resync = resync\<rparr>"

definition NewVarnishConfigInformer :: "string \<Rightarrow> int64 \<Rightarrow> SharedIndexInformer" where
  "NewVarnishConfigInformer ns resync = NewFilteredVarnishConfigInformer ns resync None"

definition NewBackendConfigInformer :: "string \<Rightarrow> int64 \<Rightarrow> SharedIndexInformer" where
  "NewBackendConfigInformer ns resync = NewFilteredBackendConfigInformer ns resync None"

section \<open>The factory\<close>

record sharedInformerFactory =
  sf_namespace :: string
  sf_tweakListOptions :: "tweak_fn option"
  sf_defaultResync :: int64
  sf_customResync :: "crd_type \<Rightarrow> int64 option"
  sf_informers :: "crd_type \<Rightarrow> nat option"
  sf_startedInformers :: "crd_type \<Rightarrow> bool"

type_synonym factory_option = "sharedInformerFactory \<Rightarrow> sharedInformerFactory"

text \<open>The pairs of the map in the order in which they are ranged over, by the type of their object.\<close>

definition WithCustomResyncConfig :: "(crd_type \<times> int64) list \<Rightarrow> factory_option" where
  "WithCustomResyncConfig resyncConfig f =
     f\<lparr>sf_customResync := fold (\<lambda>(k, v) m. m(k \<mapsto> v)) resyncConfig (sf_customResync f)\<rparr>"

definition WithTweakListOptions :: "tweak_fn \<Rightarrow> factory_option" where
  "WithTweakListOptions tweak f = f\<lparr>sf_tweakListOptions := Some tweak\<rparr>"

definition WithNamespace :: "string \<Rightarrow> factory_option" where
  "WithNamespace ns f = f\<lparr>sf_namespace := ns\<rparr>"

definition NewSharedInformerFactoryWithOptions ::
    "int64 \<Rightarrow> factory_option list \<Rightarrow> sharedInformerFactory" where
  "NewSharedInformerFactoryWithOptions defaultResync options =
     fold (\<lambda>opt f. opt f) options
       \<lparr>sf_namespace = [], sf_tweakListOptions = None, sf_defaultResync = defaultResync,
        sf_customResync = Map.empty, sf_informers = Map.empty, sf_startedInformers = (\<lambda>_. False)\<rparr>"

definition NewSharedInformerFactory :: "int64 \<Rightarrow> sharedInformerFactory" where
  "NewSharedInformerFactory defaultResync = NewSharedInformerFactoryWithOptions defaultResync []"

definition NewFilteredSharedInformerFactory ::
    "int64 \<Rightarrow> string \<Rightarrow> tweak_fn \<Rightarrow> sharedInformerFactory" where
  "NewFilteredSharedInformerFactory defaultResync ns tweak =
     NewSharedInformerFactoryWithOptions defaultResync [WithNamespace ns, WithTweakListOptions tweak]"

text \<open>
  The factory with the informers it has made, addressed by their number, and the goroutines that run an
  informer, each until a channel is closed.
\<close>

datatype stop_chan = InformerStop | StopCh

record factory_state =
  fs_factory :: sharedInformerFactory
  fs_objs :: "SharedIndexInformer list"
  fs_runs :: "(nat \<times> stop_chan) list"

definition factory_new :: "sharedInformerFactory \<Rightarrow> factory_state" where
  "factory_new f = \<lparr>fs_factory = f, fs_objs = [], fs_runs = []\<rparr>"

definition InformerFor ::
    "crd_type \<Rightarrow> (int64 \<Rightarrow> SharedIndexInformer) \<Rightarrow> factory_state \<Rightarrow> nat \<times> factory_state" where
  "InformerFor informerType newFunc S =
     (let f = fs_factory S in
      case sf_informers f informerType of
        Some informer \<Rightarrow> (informer, S)
      | None \<Rightarrow>
          (let resyncPeriod = (case sf_customResync f informerType of
                                 Some d \<Rightarrow> d | None \<Rightarrow> sf_defaultResync f);
               informer = length (fs_objs S)
           in (informer,
               S\<lparr>fs_objs := fs_objs S @ [newFunc resyncPeriod],
                 fs_factory := f\<lparr>sf_informers := (sf_informers f)(informerType \<mapsto> informer)\<rparr>\<rparr>)))"

text \<open>The turns of \<open>Start\<close>'s loop touch different entries, so their order does not matter.\<close>

definition start_one :: "stop_chan \<Rightarrow> crd_type \<Rightarrow> factory_state \<Rightarrow> factory_state" where
  "start_one stopCh informerType S =
     (let f = fs_factory S in
      case sf_informers f informerType of
        None \<Rightarrow> S
      | Some informer \<Rightarrow>
          if sf_startedInformers f informerType then S
          else S\<lparr>fs_runs := fs_runs S @ [(informer, stopCh)],
                 fs_factory := f\<lparr>sf_startedInformers := (sf_startedInformers f)(informerType := True)\<rparr>\<rparr>)"

definition Start :: "stop_chan \<Rightarrow> factory_state \<Rightarrow> factory_state" where
  "Start stopCh S = start_one stopCh TBackendConfig (start_one stopCh TVarnishConfig S)"

text \<open>\<open>synced r\<close>: the result of waiting for the cache of an informer.\<close>

definition WaitForCacheSync :: "(nat \<Rightarrow> bool) \<Rightarrow> factory_state \<Rightarrow> crd_type \<Rightarrow> bool option" where
  "WaitForCacheSync synced S informType =
     (let f = fs_factory S in
      case sf_informers f informType of
        None \<Rightarrow> None
      | Some informer \<Rightarrow> if sf_startedInformers f informType then Some (synced informer) else None)"

section \<open>Access to the informers\<close>

text \<open>What the interfaces of a group, a version and a resource carry, besides the factory.\<close>

record scope =
  sc_namespace :: string
  sc_tweakListOptions :: "tweak_fn option"

definition Ingress :: "factory_state \<Rightarrow> scope" where
  "Ingress S = \<lparr>sc_namespace = sf_namespace (fs_factory S),
                sc_tweakListOptions = sf_tweakListOptions (fs_factory S)\<rparr>"

definition V1alpha1 :: "scope \<Rightarrow> scope" where
  "V1alpha1 g = \<lparr>sc_namespace = sc_namespace g, sc_tweakListOptions = sc_tweakListOptions g\<rparr>"

definition VarnishConfigs :: "scope \<Rightarrow> scope" where
  "VarnishConfigs v = \<lparr>sc_namespace = sc_namespace v, sc_tweakListOptions = sc_tweakListOptions v\<rparr>"

definition BackendConfigs :: "scope \<Rightarrow> scope" where
  "BackendConfigs v = \<lparr>sc_namespace = sc_namespace v, sc_tweakListOptions = sc_tweakListOptions v\<rparr>"

definition varnishConfigInformer_Informer :: "scope \<Rightarrow> factory_state \<Rightarrow> nat \<times> factory_state" where
  "varnishConfigInformer_Informer sc = InformerFor TVarnishConfig
     (\<lambda>resync. NewFilteredVarnishConfigInformer (sc_namespace sc) resync (sc_tweakListOptions sc))"

definition backendConfigInformer_Informer :: "scope \<Rightarrow> factory_state \<Rightarrow> nat \<times> factory_state" where
  "backendConfigInformer_Informer sc = InformerFor TBackendConfig
     (\<lambda>resync. NewFilteredBackendConfigInformer (sc_namespace sc) resync (sc_tweakListOptions sc))"

text \<open>A lister is given by the informer whose cache it reads.\<close>

definition varnishConfigInformer_Lister :: "scope \<Rightarrow> factory_state \<Rightarrow> nat \<times> factory_state" where
  "varnishConfigInformer_Lister sc S = varnishConfigInformer_Informer sc S"

definition backendConfigInformer_Lister :: "scope \<Rightarrow> factory_state \<Rightarrow> nat \<times> factory_state" where
  "backendConfigInformer_Lister sc S = backendConfigInformer_Informer sc S"

text \<open>
  The informer and the resource of a \<open>genericInformer\<close>, or the error \<open>no informer found\<close>.
\<close>

definition ForResource :: "GroupVersionResource \<Rightarrow> factory_state \<Rightarrow>
    (GroupVersionResource + nat \<times> string \<times> string) \<times> factory_state" where
  "ForResource resource S =
     (if resource = WithResource ''backendconfigs'' then
        (case backendConfigInformer_Informer (BackendConfigs (V1alpha1 (Ingress S))) S of
           (informer, S') \<Rightarrow> (Inr (informer, gvr_Group resource, gvr_Resource resource), S'))
      else if resource = WithResource ''varnishconfigs'' then
        (case varnishConfigInformer_Informer (VarnishConfigs (V1alpha1 (Ingress S))) S of
           (informer, S') \<Rightarrow> (Inr (informer, gvr_Group resource, gvr_Resource resource), S'))
      else (Inl resource, S))"

section \<open>The informers of the controller\<close>

text \<open>\<open>noop\<close> and the choice of the factory in \<open>cmd/main.go\<close>; the empty namespace is \<open>NamespaceAll\<close>.\<close>

definition noop :: tweak_fn where
  "noop opts = opts"

definition main_vcrInformerFactory :: "string \<Rightarrow> int64 \<Rightarrow> sharedInformerFactory" where
  "main_vcrInformerFactory namespaceF resyncPeriodF =
     (if namespaceF = [] then NewSharedInformerFactory resyncPeriodF
      else NewFilteredSharedInformerFactory resyncPeriodF namespaceF noop)"

record infrmrs =
  in_ing :: nat
  in_svc :: nat
  in_endp :: nat
  in_secr :: nat
  in_vcfg :: nat
  in_bcfg :: nat

datatype k8s_type = TIngress | TService | TEndpoints | TSecret

text \<open>
  The two literals of \<open>NewIngressController\<close>.  \<open>kf\<close> is the factory of \<open>client-go\<close>: the informer of a type,
  with the state of that factory after the call.
\<close>

definition make_informers ::
    "(k8s_type \<Rightarrow> 's \<Rightarrow> nat \<times> 's) \<Rightarrow> 's \<Rightarrow> factory_state \<Rightarrow> infrmrs \<times> 's \<times> factory_state" where
  "make_informers kf K S =
     (let (ing, K1) = kf TIngress K;
          (svc, K2) = kf TService K1;
          (endp, K3) = kf TEndpoints K2;
          (secr, K4) = kf TSecret K3;
          (vcfg, S1) = varnishConfigInformer_Informer (VarnishConfigs (V1alpha1 (Ingress S))) S;
          (bcfg, S2) = backendConfigInformer_Informer (BackendConfigs (V1alpha1 (Ingress S1))) S1
      in (\<lparr>in_ing = ing, in_svc = svc, in_endp = endp, in_secr = secr, in_vcfg = vcfg, in_bcfg = bcfg\<rparr>,
          K4, S2))"

definition make_listers ::
    "(k8s_type \<Rightarrow> 's \<Rightarrow> nat \<times> 's) \<Rightarrow> 's \<Rightarrow> factory_state \<Rightarrow> infrmrs \<times> 's \<times> factory_state" where
  "make_listers kf K S =
     (let (ing, K1) = kf TIngress K;
          (svc, K2) = kf TService K1;
          (endp, K3) = kf TEndpoints K2;
          (secr, K4) = kf TSecret K3;
          (vcfg, S1) = varnishConfigInformer_Lister (VarnishConfigs (V1alpha1 (Ingress S))) S;
          (bcfg, S2) = backendConfigInformer_Lister (BackendConfigs (V1alpha1 (Ingress S1))) S1
      in (\<lparr>in_ing = ing, in_svc = svc, in_endp = endp, in_secr = secr, in_vcfg = vcfg, in_bcfg = bcfg\<rparr>,
          K4, S2))"

text \<open>The listers of a worker, over the caches of these informers.\<close>

definition cached_listers ::
    "(nat \<Rightarrow> VarnishConfig indexer) \<Rightarrow> (nat \<Rightarrow> BackendConfig indexer) \<Rightarrow> infrmrs \<Rightarrow> Listers \<Rightarrow> Listers" where
  "cached_listers vcache bcache I = crd_listers (vcache (in_vcfg I)) (bcache (in_bcfg I))"

section \<open>The contract of a factory\<close>

text \<open>
  One informer per type: a call returns the informer it has made known, keeps what is known, and does
  nothing for a type that is known.
\<close>

locale informer_factory =
  fixes informer_for :: "'k \<Rightarrow> 's \<Rightarrow> nat \<times> 's" and known :: "'s \<Rightarrow> 'k \<Rightarrow> nat option"
  assumes returns: "informer_for k s = (r, s') \<Longrightarrow> known s' k = Some r"
    and keeps: "informer_for k s = (r, s') \<Longrightarrow> known s j = Some q \<Longrightarrow> known s' j = Some q"
    and again: "known s k = Some r \<Longrightarrow> informer_for k s = (r, s)"
begin

fun informers_for :: "'k list \<Rightarrow> 's \<Rightarrow> nat list \<times> 's" where
  "informers_for [] s = ([], s)"
| "informers_for (k # ks) s =
     (case informer_for k s of (r, s1) \<Rightarrow> case informers_for ks s1 of (rs, s2) \<Rightarrow> (r # rs, s2))"

lemma informers_for_known:
  "informers_for ks s = (rs, s') \<Longrightarrow>
   list_all2 (\<lambda>k r. known s' k = Some r) ks rs \<and> (\<forall>j q. known s j = Some q \<longrightarrow> known s' j = Some q)"
proof (induction ks arbitrary: s rs)
  case Nil
  then show ?case by simp
next
  case (Cons k ks)
  from Cons.prems obtain r s1 rs1 where k: "informer_for k s = (r, s1)"
    and ks: "informers_for ks s1 = (rs1, s')" and rs: "rs = r # rs1"
    by (auto split: prod.splits)
  from Cons.IH [OF ks] returns [OF k] keeps [OF k] rs show ?case by auto
qed

lemma informers_for_again_aux:
  "list_all2 (\<lambda>k r. known s k = Some r) ks rs \<Longrightarrow> informers_for ks s = (rs, s)"
  by (induction ks rs rule: list_all2_induct) (simp_all add: again)

text \<open>Asked a second time, the factory returns the same informers.\<close>

lemma informers_for_again:
  "informers_for ks s = (rs, s') \<Longrightarrow> informers_for ks s' = (rs, s')"
  using informers_for_known informers_for_again_aux by blast

end

text \<open>The generated factory, with the constructors of the two resources.\<close>

definition crd_informer_for :: "crd_type \<Rightarrow> factory_state \<Rightarrow> nat \<times> factory_state" where
  "crd_informer_for k S =
     (case k of
        TVarnishConfig \<Rightarrow> varnishConfigInformer_Informer (VarnishConfigs (V1alpha1 (Ingress S))) S
      | TBackendConfig \<Rightarrow> backendConfigInformer_Informer (BackendConfigs (V1alpha1 (Ingress S))) S)"

lemma InformerFor_contract:
  assumes "InformerFor k new S = (r, S')"
  shows "sf_informers (fs_factory S') k = Some r"
    and "sf_informers (fs_factory S) j = Some q \<Longrightarrow> sf_informers (fs_factory S') j = Some q"
  using assms by (auto simp: InformerFor_def Let_def split: option.splits)

lemma InformerFor_again: "sf_informers (fs_factory S) k = Some r \<Longrightarrow> InformerFor k new S = (r, S)"
  by (simp add: InformerFor_def)

interpretation crds: informer_factory crd_informer_for "\<lambda>S. sf_informers (fs_factory S)"
  by unfold_locales
    (auto simp: crd_informer_for_def varnishConfigInformer_Informer_def backendConfigInformer_Informer_def
       InformerFor_again intro: InformerFor_contract split: crd_type.splits)

section \<open>The invariant of the factory\<close>

text \<open>
  The informer of a type is one of the type; what is started has been made; and \<open>Start\<close> runs what is
  started once.
\<close>

definition factory_ok :: "factory_state \<Rightarrow> bool" where
  "factory_ok S \<longleftrightarrow>
     (\<forall>k r. sf_informers (fs_factory S) k = Some r \<longrightarrow> r < length (fs_objs S) \<and> si_type (fs_objs S ! r) = k)
     \<and> (\<forall>k. sf_startedInformers (fs_factory S) k \<longrightarrow> sf_informers (fs_factory S) k \<noteq> None)
     \<and> (\<forall>r c. (r, c) \<in> set (fs_runs S) \<longrightarrow>
           (\<exists>k. sf_startedInformers (fs_factory S) k \<and> sf_informers (fs_factory S) k = Some r))
     \<and> (\<forall>k r. sf_startedInformers (fs_factory S) k \<longrightarrow> sf_informers (fs_factory S) k = Some r \<longrightarrow>
           (\<exists>c. (r, c) \<in> set (fs_runs S)))
     \<and> distinct (map fst (fs_runs S))"

text \<open>The calls of a factory's methods.\<close>

inductive factory_step :: "factory_state \<Rightarrow> factory_state \<Rightarrow> bool" where
  step_informer: "crd_informer_for k S = (r, S') \<Longrightarrow> factory_step S S'"
| step_start: "factory_step S (Start stopCh S)"

lemma factory_ok_new:
  "sf_informers f = Map.empty \<Longrightarrow> sf_startedInformers f = (\<lambda>_. False) \<Longrightarrow> factory_ok (factory_new f)"
  by (simp add: factory_ok_def factory_new_def)

lemma factory_ok_InformerFor:
  assumes "factory_ok S" and "\<And>d. si_type (new d) = k" and "InformerFor k new S = (r, S')"
  shows "factory_ok S'"
proof (cases "sf_informers (fs_factory S) k")
  case None
  let ?f = "sf_informers (fs_factory S)" and ?st = "sf_startedInformers (fs_factory S)"
  have new: "\<not> ?st k" using assms(1) None by (auto simp: factory_ok_def)
  define x where "x = new (case sf_customResync (fs_factory S) k of
      None \<Rightarrow> sf_defaultResync (fs_factory S) | Some d \<Rightarrow> d)"
  then have x: "si_type x = k"
    "fs_objs S' = fs_objs S @ [x]" "sf_informers (fs_factory S') = ?f(k \<mapsto> length (fs_objs S))"
    "sf_startedInformers (fs_factory S') = ?st" "fs_runs S' = fs_runs S"
    using assms(2,3) None by (auto simp: InformerFor_def Let_def)
  have "\<exists>j. ?st j \<and> (?f(k \<mapsto> length (fs_objs S))) j = Some q" if "(q, c) \<in> set (fs_runs S)" for q c
    using assms(1) that new by (metis factory_ok_def fun_upd_other)
  then show ?thesis using assms(1) new x
    unfolding factory_ok_def by (auto simp: nth_append less_Suc_eq)
next
  case (Some q)
  with assms show ?thesis by (simp add: InformerFor_again)
qed

lemma factory_ok_start_one:
  assumes "factory_ok S"
  shows "factory_ok (start_one c k S)"
proof (cases "sf_informers (fs_factory S) k")
  case None
  with assms show ?thesis by (simp add: start_one_def)
next
  case (Some q)
  let ?st = "sf_startedInformers (fs_factory S)"
  show ?thesis
  proof (cases "?st k")
    case True
    with Some assms show ?thesis by (simp add: start_one_def)
  next
    case False
    have same: "j = k" if "sf_informers (fs_factory S) j = Some q" for j
      using assms that Some unfolding factory_ok_def by metis
    then have new: "(q, d) \<notin> set (fs_runs S)" for d
      using assms False by (auto simp: factory_ok_def)
    have T: "fs_runs (start_one c k S) = fs_runs S @ [(q, c)]" "fs_objs (start_one c k S) = fs_objs S"
      "sf_informers (fs_factory (start_one c k S)) = sf_informers (fs_factory S)"
      "sf_startedInformers (fs_factory (start_one c k S)) = ?st(k := True)"
      using False Some by (simp_all add: start_one_def Let_def)
    have kept: "\<exists>j. (?st(k := True)) j \<and> sf_informers (fs_factory S) j = Some r"
      if "(r, d) \<in> set (fs_runs S)" for r d
      using assms that unfolding factory_ok_def by (metis fun_upd_apply)
    have again: "q \<notin> fst ` set (fs_runs S)" using new by auto
    show ?thesis
      unfolding factory_ok_def T
    proof (intro conjI)
      show "distinct (map fst (fs_runs S @ [(q, c)]))" using assms again by (simp add: factory_ok_def)
    next
      show "\<forall>r d. (r, d) \<in> set (fs_runs S @ [(q, c)]) \<longrightarrow>
          (\<exists>j. (?st(k := True)) j \<and> sf_informers (fs_factory S) j = Some r)"
        using kept Some by auto
    next
      show "\<forall>j r. (?st(k := True)) j \<longrightarrow> sf_informers (fs_factory S) j = Some r \<longrightarrow>
          (\<exists>d. (r, d) \<in> set (fs_runs S @ [(q, c)]))"
        using assms Some unfolding factory_ok_def by (metis Un_iff fun_upd_other list.set_intros(1) option.inject set_append)
    qed (use assms Some in \<open>auto simp: factory_ok_def\<close>)
  qed
qed

lemma factory_ok_step:
  assumes "factory_step S S'" and "factory_ok S"
  shows "factory_ok S'"
  using assms
proof cases
  case (step_informer k r)
  then show ?thesis using assms(2)
    by (auto simp: crd_informer_for_def varnishConfigInformer_Informer_def backendConfigInformer_Informer_def
         NewFilteredVarnishConfigInformer_def NewFilteredBackendConfigInformer_def
         elim!: factory_ok_InformerFor [rotated 2] split: crd_type.splits)
next
  case (step_start stopCh)
  then show ?thesis using assms(2) by (simp add: Start_def factory_ok_start_one)
qed

lemma factory_ok_steps: "factory_step\<^sup>*\<^sup>* S S' \<Longrightarrow> factory_ok S \<Longrightarrow> factory_ok S'"
  by (induction rule: rtranclp_induct) (auto intro: factory_ok_step)

lemma factory_ok_main: "factory_ok (factory_new (main_vcrInformerFactory ns resync))"
  by (rule factory_ok_new)
    (simp_all add: main_vcrInformerFactory_def NewFilteredSharedInformerFactory_def
       NewSharedInformerFactory_def NewSharedInformerFactoryWithOptions_def WithNamespace_def
       WithTweakListOptions_def)

text \<open>A second \<open>Start\<close> changes nothing, and neither does the order of its loop.\<close>

lemma Start_again: "Start d (Start c S) = Start c S"
  by (auto simp: Start_def start_one_def Let_def split: option.splits)

lemma start_one_commute:
  "mset (fs_runs (start_one c j (start_one c k S))) = mset (fs_runs (start_one c k (start_one c j S)))"
  "fs_factory (start_one c j (start_one c k S)) = fs_factory (start_one c k (start_one c j S))"
  by (auto simp: start_one_def Let_def fun_eq_iff split: option.splits)

section \<open>Informers and listers of the controller\<close>

lemma make_listers_again:
  assumes "informer_factory kf known" and "make_informers kf K S = (I, K', S')"
  shows "make_listers kf K' S' = (I, K', S')"
proof -
  let ?ks = "[TIngress, TService, TEndpoints, TSecret]" and ?cs = "[TVarnishConfig, TBackendConfig]"
  note kube = informer_factory.informers_for.simps [OF assms(1)]
  have "informer_factory.informers_for kf ?ks K = ([in_ing I, in_svc I, in_endp I, in_secr I], K')"
    and "crds.informers_for ?cs S = ([in_vcfg I, in_bcfg I], S')"
    using assms(2) by (auto simp: make_informers_def crd_informer_for_def kube split: prod.splits)
  from informer_factory.informers_for_again [OF assms(1) this(1)] crds.informers_for_again [OF this(2)]
  show ?thesis
    by (auto simp: make_listers_def crd_informer_for_def varnishConfigInformer_Lister_def
      backendConfigInformer_Lister_def kube split: prod.splits)
qed

text \<open>What the informers of \<open>main\<close> ask for.\<close>

lemma main_factory:
  "sf_namespace (main_vcrInformerFactory ns resync) = ns"
  "tweaked (sf_tweakListOptions (main_vcrInformerFactory ns resync)) opts = opts"
  "sf_informers (main_vcrInformerFactory ns resync) = Map.empty"
  by (simp_all add: main_vcrInformerFactory_def NewFilteredSharedInformerFactory_def
       NewSharedInformerFactory_def NewSharedInformerFactoryWithOptions_def WithNamespace_def
       WithTweakListOptions_def tweaked_def noop_def)

lemma main_informers:
  assumes "make_informers kf K (factory_new (main_vcrInformerFactory ns resync)) = (I, K', S')"
  shows "in_vcfg I \<noteq> in_bcfg I"
    and "si_ListFunc (fs_objs S' ! in_vcfg I) opts = varnishConfigs_List ns opts
       \<and> si_WatchFunc (fs_objs S' ! in_vcfg I) opts = varnishConfigs_Watch ns opts"
    and "si_ListFunc (fs_objs S' ! in_bcfg I) opts = backendConfigs_List ns opts
       \<and> si_WatchFunc (fs_objs S' ! in_bcfg I) opts = backendConfigs_Watch ns opts"
    and "factory_step\<^sup>*\<^sup>* (factory_new (main_vcrInformerFactory ns resync)) S'"
    and "factory_ok S'"
proof -
  let ?S = "factory_new (main_vcrInformerFactory ns resync)"
  obtain v S1 b where s: "crd_informer_for TVarnishConfig ?S = (v, S1)" "crd_informer_for TBackendConfig S1 = (b, S')"
    and I: "in_vcfg I = v" "in_bcfg I = b"
    using assms by (auto simp: make_informers_def crd_informer_for_def split: prod.splits)
  from s show steps: "factory_step\<^sup>*\<^sup>* ?S S'"
    by (meson step_informer converse_rtranclp_into_rtranclp rtranclp.rtrancl_refl)
  show "factory_ok S'" by (rule factory_ok_steps [OF steps factory_ok_main])
  show "in_vcfg I \<noteq> in_bcfg I"
    and "si_ListFunc (fs_objs S' ! in_vcfg I) opts = varnishConfigs_List ns opts
       \<and> si_WatchFunc (fs_objs S' ! in_vcfg I) opts = varnishConfigs_Watch ns opts"
    and "si_ListFunc (fs_objs S' ! in_bcfg I) opts = backendConfigs_List ns opts
       \<and> si_WatchFunc (fs_objs S' ! in_bcfg I) opts = backendConfigs_Watch ns opts"
    using s I
    by (auto simp: crd_informer_for_def varnishConfigInformer_Informer_def backendConfigInformer_Informer_def
      InformerFor_def Let_def factory_new_def main_factory VarnishConfigs_def BackendConfigs_def V1alpha1_def Ingress_def
      NewFilteredVarnishConfigInformer_def NewFilteredBackendConfigInformer_def)
qed

end
