(* ===== verification/Metrics.thy ===== *)
theory Metrics
  imports Prelude
begin

text \<open>
  The metrics of Prometheus (\<open>varnish/metrics.go\<close>, \<open>controller/metrics.go\<close>): how they are made and
  registered.  The registry is outside the repository: a function \<open>Register\<close> with the locale
  \<open>registry\<close>.  Its result is ignored by the code, so that a metric which is not accepted is lost.
\<close>

section \<open>Metrics\<close>

datatype metric_kind = Counter | Gauge | Summary | CounterVec

text \<open>\<open>mx_id\<close> tells objects apart that were made with the same options; \<open>mx_labels\<close>: those of a vector.\<close>

record Metric =
  mx_id :: nat
  mx_kind :: metric_kind
  mx_Namespace :: string
  mx_Subsystem :: string
  mx_Name :: string
  mx_Help :: string
  mx_ConstLabels :: "string gomap"
  mx_labels :: "string list"

text \<open>The name under which a metric is registered (\<open>prometheus.BuildFQName\<close>).\<close>

definition fqName :: "Metric \<Rightarrow> string" where
  "fqName m = mx_Namespace m @ ''_'' @ mx_Subsystem m @ ''_'' @ mx_Name m"

text \<open>The letter of \<open>\<mu>secs\<close>, in UTF-8.\<close>

definition mu :: bytes where
  "mu = [char_of (0xC2 :: nat), char_of (0xB5 :: nat)]"

section \<open>The metrics of an instance\<close>

record instanceMetrics =
  im_updates :: Metric
  im_updateErrs :: Metric
  im_connectFails :: Metric
  im_vclLoads :: Metric
  im_vclLoadErrs :: Metric
  im_connectLatency :: Metric
  im_vclLoadLatency :: Metric
  im_pings :: Metric
  im_pingFails :: Metric
  im_panics :: Metric
  im_childRunning :: Metric
  im_childNotRunning :: Metric
  im_vclDiscards :: Metric
  im_monitorChecks :: Metric

definition instance_opts :: "metric_kind \<Rightarrow> string \<Rightarrow> string \<Rightarrow> nat \<Rightarrow> string \<Rightarrow> Metric" where
  "instance_opts kind name help n addr =
     \<lparr>mx_id = n, mx_kind = kind, mx_Namespace = ''varnishingctl'', mx_Subsystem = ''varnish'',
      mx_Name = name, mx_Help = help, mx_ConstLabels = [(''varnish_instance'', addr)], mx_labels = []\<rparr>"

definition new_instanceMetrics :: "nat \<Rightarrow> string \<Rightarrow> instanceMetrics" where
  "new_instanceMetrics n addr =
     \<lparr>im_updates = instance_opts Counter ''updates_total''
        ''Total number of attempted updates'' n addr,
      im_updateErrs = instance_opts Counter ''update_errors_total''
        ''Total number of update errors'' (n + 1) addr,
      im_connectFails = instance_opts Counter ''admin_connect_fails_total''
        ''Total number of admin connection failures'' (n + 2) addr,
      im_vclLoads = instance_opts Counter ''vcl_loads_total''
        ''Total number of successful VCL loads'' (n + 3) addr,
      im_vclLoadErrs = instance_opts Counter ''vcl_load_errors_total''
        ''Total number of VCL load errors'' (n + 4) addr,
      im_connectLatency = instance_opts Summary ''admin_connect_latency_seconds''
        ''Admin connection latency'' (n + 5) addr,
      im_vclLoadLatency = instance_opts Summary ''vcl_load_latency_seconds''
        ''VCL load latency'' (n + 6) addr,
      im_pings = instance_opts Counter ''pings_total''
        ''Total number of successful pings'' (n + 7) addr,
      im_pingFails = instance_opts Counter ''ping_errors_total''
        ''Total number of ping errors'' (n + 8) addr,
      im_panics = instance_opts Counter ''panics_total''
        ''Total number of panics detected'' (n + 9) addr,
      im_childRunning = instance_opts Counter ''child_running_total''
        ''Total number of monitor runs with the child process in the running state'' (n + 10) addr,
      im_childNotRunning = instance_opts Counter ''child_not_running_total''
        ''Total number of monitor runs with the child process not in the running state'' (n + 11) addr,
      im_vclDiscards = instance_opts Counter ''vcl_discards_total''
        ''Total number of VCL discards'' (n + 12) addr,
      im_monitorChecks = instance_opts Counter ''monitor_checks_total''
        ''Total number of monitor checks'' (n + 13) addr\<rparr>"

text \<open>In the order in which they are registered.\<close>

definition instance_list :: "instanceMetrics \<Rightarrow> Metric list" where
  "instance_list m =
     [im_updates m, im_updateErrs m, im_connectFails m, im_vclLoads m, im_vclLoadErrs m,
      im_connectLatency m, im_vclLoadLatency m, im_pings m, im_pingFails m, im_panics m,
      im_childRunning m, im_childNotRunning m, im_vclDiscards m, im_monitorChecks m]"

record 'r metric_state =
  mt_registry :: 'r
  mt_next :: nat
  mt_inst :: "instanceMetrics gomap"

type_synonym 'r register = "Metric \<Rightarrow> 'r \<Rightarrow> 'r"

definition getInstanceMetrics ::
    "'r register \<Rightarrow> string \<Rightarrow> 'r metric_state \<Rightarrow> instanceMetrics \<times> 'r metric_state" where
  "getInstanceMetrics Register addr S =
     (case gm_get (mt_inst S) addr of
        Some metrics \<Rightarrow> (metrics, S)
      | None \<Rightarrow>
          (let metrics = new_instanceMetrics (mt_next S) addr
           in (metrics,
               S\<lparr>mt_registry := fold Register (instance_list metrics) (mt_registry S),
                 mt_next := mt_next S + 14,
                 mt_inst := gm_put addr metrics (mt_inst S)\<rparr>)))"

section \<open>The metrics of the controllers\<close>

definition plain_opts ::
    "metric_kind \<Rightarrow> string \<Rightarrow> string \<Rightarrow> string \<Rightarrow> string list \<Rightarrow> nat \<Rightarrow> Metric" where
  "plain_opts kind subsystem name help labels n =
     \<lparr>mx_id = n, mx_kind = kind, mx_Namespace = ''varnishingctl'', mx_Subsystem = subsystem,
      mx_Name = name, mx_Help = help, mx_ConstLabels = [], mx_labels = labels\<rparr>"

definition svcsGauge :: Metric where
  "svcsGauge = plain_opts Gauge ''varnish'' ''services''
     ''Current number of managed Varnish services'' [] 0"

definition instsGauge :: Metric where
  "instsGauge = plain_opts Gauge ''varnish'' ''instances''
     ''Current number of managed Varnish instances'' [] 1"

definition secretsGauge :: Metric where
  "secretsGauge = plain_opts Gauge ''varnish'' ''secrets''
     ''Current number of known admin secrets'' [] 2"

definition beSvcsGauge :: Metric where
  "beSvcsGauge = plain_opts Gauge ''varnish'' ''backend_services''
     ''Current number of Services configured as Varnish backends'' [] 3"

definition beEndpsGauge :: Metric where
  "beEndpsGauge = plain_opts Gauge ''varnish'' ''backend_endpoints''
     ''Current number of Service endpoints configured as Varnish backends'' [] 4"

definition monResultCtr :: Metric where
  "monResultCtr = plain_opts CounterVec ''varnish'' ''monitor_result_total''
     ''Total number of monitor results'' [''service'', ''status'', ''result''] 5"

definition watchCounters :: Metric where
  "watchCounters = plain_opts CounterVec ''watcher'' ''events_total''
     ''Total number of watcher API events'' [''kind'', ''event''] 6"

definition syncCounters :: Metric where
  "syncCounters = plain_opts CounterVec ''sync'' ''result_total''
     ''Total number of synchronization results'' [''namespace'', ''kind'', ''result''] 7"

text \<open>\<open>initMetrics\<close> of the Varnish controller and \<open>InitMetrics\<close> of the Ingress controller.\<close>

definition initMetrics :: "'r register \<Rightarrow> 'r metric_state \<Rightarrow> 'r metric_state" where
  "initMetrics Register S = S\<lparr>mt_registry := fold Register
     [svcsGauge, instsGauge, secretsGauge, monResultCtr, beSvcsGauge, beEndpsGauge] (mt_registry S)\<rparr>"

definition InitMetrics :: "'r register \<Rightarrow> 'r metric_state \<Rightarrow> 'r metric_state" where
  "InitMetrics Register S = S\<lparr>mt_registry := fold Register [watchCounters, syncCounters] (mt_registry S)\<rparr>"

section \<open>The metrics of a work queue\<close>

text \<open>The provider of metrics for the queues of \<open>client-go\<close>, by their name.\<close>

definition queue_opts :: "metric_kind \<Rightarrow> string \<Rightarrow> string \<Rightarrow> string \<Rightarrow> nat \<Rightarrow> Metric" where
  "queue_opts kind name help label n =
     \<lparr>mx_id = n, mx_kind = kind, mx_Namespace = ''varnishingctl'', mx_Subsystem = ''workqueue'',
      mx_Name = name, mx_Help = help, mx_ConstLabels = [(''namespace'', label)], mx_labels = []\<rparr>"

definition registered :: "'r register \<Rightarrow> (nat \<Rightarrow> Metric) \<Rightarrow> 'r metric_state \<Rightarrow> Metric \<times> 'r metric_state" where
  "registered Register new S =
     (let m = new (mt_next S)
      in (m, S\<lparr>mt_registry := Register m (mt_registry S), mt_next := mt_next S + 1\<rparr>))"

definition NewDepthMetric ::
    "'r register \<Rightarrow> string \<Rightarrow> 'r metric_state \<Rightarrow> Metric \<times> 'r metric_state" where
  "NewDepthMetric Register name =
     registered Register (queue_opts Gauge ''depth''
       ''Current depth of the workqueue'' name)"

definition NewAddsMetric ::
    "'r register \<Rightarrow> string \<Rightarrow> 'r metric_state \<Rightarrow> Metric \<times> 'r metric_state" where
  "NewAddsMetric Register name =
     registered Register (queue_opts Counter ''adds_total''
       ''Total number of adds handled by the workqueue'' name)"

definition NewLatencyMetric ::
    "'r register \<Rightarrow> string \<Rightarrow> 'r metric_state \<Rightarrow> Metric \<times> 'r metric_state" where
  "NewLatencyMetric Register name =
     registered Register (queue_opts Summary ''latency_useconds''
       (''Time spent (in '' @ mu @ ''secs) by items waiting in the workqueue'') name)"

definition NewWorkDurationMetric ::
    "'r register \<Rightarrow> string \<Rightarrow> 'r metric_state \<Rightarrow> Metric \<times> 'r metric_state" where
  "NewWorkDurationMetric Register name =
     registered Register (queue_opts Summary ''work_duration_useconds''
       (''Time needed (in '' @ mu @ ''secs) to process items from the workqueue'') name)"

definition NewRetriesMetric ::
    "'r register \<Rightarrow> string \<Rightarrow> 'r metric_state \<Rightarrow> Metric \<times> 'r metric_state" where
  "NewRetriesMetric Register name =
     registered Register (queue_opts Counter ''retries_total''
       ''Total number of retries handled by workqueue'' name)"

definition NewLongestRunningProcessorSecondsMetric ::
    "'r register \<Rightarrow> string \<Rightarrow> 'r metric_state \<Rightarrow> Metric \<times> 'r metric_state" where
  "NewLongestRunningProcessorSecondsMetric Register name =
     registered Register (queue_opts Gauge ''longest_running_seconds''
       ''Time (in secs) spent by the longest running processor in the workqueue'' name)"

definition NewUnfinishedWorkSecondsMetric ::
    "'r register \<Rightarrow> string \<Rightarrow> 'r metric_state \<Rightarrow> Metric \<times> 'r metric_state" where
  "NewUnfinishedWorkSecondsMetric Register name =
     registered Register (queue_opts Gauge ''unfinished_work_seconds''
       ''Time (in secs) for work in the workqueue that is not yet observed by work_duration_useconds'' name)"

datatype queue_metric = Depth | Adds | Latency | WorkDuration | Retries | LongestRunning | UnfinishedWork

fun provider :: "queue_metric \<Rightarrow> 'r register \<Rightarrow> string \<Rightarrow> 'r metric_state \<Rightarrow> Metric \<times> 'r metric_state" where
  "provider Depth = NewDepthMetric"
| "provider Adds = NewAddsMetric"
| "provider Latency = NewLatencyMetric"
| "provider WorkDuration = NewWorkDurationMetric"
| "provider Retries = NewRetriesMetric"
| "provider LongestRunning = NewLongestRunningProcessorSecondsMetric"
| "provider UnfinishedWork = NewUnfinishedWorkSecondsMetric"

section \<open>The registry\<close>

text \<open>
  What Prometheus identifies metrics by, and what must be the same for all metrics of a name: the help text
  and the names of the labels.
\<close>

definition metric_key :: "Metric \<Rightarrow> string \<times> string gomap" where
  "metric_key m = (fqName m, mx_ConstLabels m)"

definition metric_dims :: "Metric \<Rightarrow> string \<times> string list" where
  "metric_dims m = (mx_Help m, map fst (mx_ConstLabels m) @ mx_labels m)"

definition ascii :: "string \<Rightarrow> bool" where
  "ascii s = list_all (\<lambda>c. of_char c < (128 :: nat)) s"

definition acceptable :: "Metric \<Rightarrow> Metric set \<Rightarrow> bool" where
  "acceptable m ms \<longleftrightarrow>
     list_all (\<lambda>l. ascii (snd l)) (mx_ConstLabels m)
     \<and> metric_key m \<notin> metric_key ` ms
     \<and> (\<forall>m' \<in> ms. fqName m' = fqName m \<longrightarrow> metric_dims m' = metric_dims m)"

locale registry =
  fixes Register :: "'r register" and exported :: "'r \<Rightarrow> Metric set"
  assumes accepts: "acceptable m (exported r) \<Longrightarrow> exported (Register m r) = insert m (exported r)"
begin

lemma register_all:
  "distinct (map metric_key ms) \<Longrightarrow>
   \<forall>m \<in> set ms. acceptable m (exported r) \<Longrightarrow>
   \<forall>m \<in> set ms. \<forall>m' \<in> set ms. fqName m' = fqName m \<longrightarrow> metric_dims m' = metric_dims m \<Longrightarrow>
   exported (fold Register ms r) = set ms \<union> exported r"
proof (induction ms arbitrary: r)
  case (Cons m ms)
  have e: "exported (Register m r) = insert m (exported r)"
    using Cons.prems(2) by (intro accepts) simp
  note dims = Cons.prems(3) [unfolded list.simps(15)]
  have "acceptable x (exported (Register m r))" if x: "x \<in> set ms" for x
  proof -
    have "metric_key m \<notin> metric_key ` set ms" using Cons.prems(1) by simp
    with x have "metric_key x \<noteq> metric_key m" by (metis imageI)
    moreover have "fqName m = fqName x \<longrightarrow> metric_dims m = metric_dims x" using dims x by blast
    moreover have "acceptable x (exported r)" using Cons.prems(2) x by simp
    ultimately show ?thesis unfolding e acceptable_def by blast
  qed
  moreover have "distinct (map metric_key ms)" using Cons.prems(1) by simp
  moreover have "\<forall>x \<in> set ms. \<forall>m' \<in> set ms. fqName m' = fqName x \<longrightarrow> metric_dims m' = metric_dims x"
    using dims by blast
  ultimately have "exported (fold Register ms (Register m r)) = set ms \<union> exported (Register m r)"
    by (intro Cons.IH) blast+
  then show ?case by (simp add: e)
qed simp

end

text \<open>A registry that keeps what is acceptable.\<close>

definition keep_Register :: "Metric list register" where
  "keep_Register m r = (if acceptable m (set r) then r @ [m] else r)"

interpretation keep: registry keep_Register set
  by unfold_locales (simp add: keep_Register_def)

section \<open>Every metric is exported\<close>

text \<open>
  The calls: for an instance, and by \<open>client-go\<close> for a new queue.  The result of a run is the set of all
  metrics that were returned.
\<close>

datatype metric_call = CallInstance string | CallQueue queue_metric string

fun call :: "'r register \<Rightarrow> metric_call \<Rightarrow> 'r metric_state \<Rightarrow> Metric set \<times> 'r metric_state" where
  "call Register (CallInstance addr) S =
     (case getInstanceMetrics Register addr S of (m, S') \<Rightarrow> (set (instance_list m), S'))"
| "call Register (CallQueue q name) S = (case provider q Register name S of (m, S') \<Rightarrow> ({m}, S'))"

fun calls :: "'r register \<Rightarrow> metric_call list \<Rightarrow> 'r metric_state \<Rightarrow> Metric set \<times> 'r metric_state" where
  "calls Register [] S = ({}, S)"
| "calls Register (c # cs) S =
     (case call Register c S of (ms, S1) \<Rightarrow> case calls Register cs S1 of (ms', S2) \<Rightarrow> (ms \<union> ms', S2))"

text \<open>At the start: both initialisations, on an empty registry.\<close>

definition metrics_start :: "'r register \<Rightarrow> 'r \<Rightarrow> 'r metric_state" where
  "metrics_start Register r =
     InitMetrics Register (initMetrics Register \<lparr>mt_registry = r, mt_next = 8, mt_inst = []\<rparr>)"

text \<open>What one metric of a queue is, and the names and dimensions of all metrics.\<close>

fun queue_metric_of :: "queue_metric \<Rightarrow> string \<Rightarrow> nat \<Rightarrow> Metric" where
  "queue_metric_of Depth = queue_opts Gauge ''depth'' ''Current depth of the workqueue''"
| "queue_metric_of Adds = queue_opts Counter ''adds_total''
     ''Total number of adds handled by the workqueue''"
| "queue_metric_of Latency = queue_opts Summary ''latency_useconds''
     (''Time spent (in '' @ mu @ ''secs) by items waiting in the workqueue'')"
| "queue_metric_of WorkDuration = queue_opts Summary ''work_duration_useconds''
     (''Time needed (in '' @ mu @ ''secs) to process items from the workqueue'')"
| "queue_metric_of Retries = queue_opts Counter ''retries_total''
     ''Total number of retries handled by workqueue''"
| "queue_metric_of LongestRunning = queue_opts Gauge ''longest_running_seconds''
     ''Time (in secs) spent by the longest running processor in the workqueue''"
| "queue_metric_of UnfinishedWork = queue_opts Gauge ''unfinished_work_seconds''
     ''Time (in secs) for work in the workqueue that is not yet observed by work_duration_useconds''"

lemma provider_of: "provider q Register name = registered Register (queue_metric_of q name)"
  by (cases q) (simp_all add: NewDepthMetric_def NewAddsMetric_def NewLatencyMetric_def
      NewWorkDurationMetric_def NewRetriesMetric_def NewLongestRunningProcessorSecondsMetric_def
      NewUnfinishedWorkSecondsMetric_def)

definition plain_list :: "Metric list" where
  "plain_list = [svcsGauge, instsGauge, secretsGauge, monResultCtr, beSvcsGauge, beEndpsGauge,
     watchCounters, syncCounters]"

lemmas plain_defs = plain_list_def svcsGauge_def instsGauge_def secretsGauge_def monResultCtr_def
  beSvcsGauge_def beEndpsGauge_def watchCounters_def syncCounters_def plain_opts_def

definition all_queue :: "queue_metric list" where
  "all_queue = [Depth, Adds, Latency, WorkDuration, Retries, LongestRunning, UnfinishedWork]"

definition catalogue :: "(string \<times> string \<times> string list) list" where
  "catalogue = map (\<lambda>m. (fqName m, metric_dims m))
     (plain_list @ instance_list (new_instanceMetrics 0 []) @ map (\<lambda>q. queue_metric_of q [] 0) all_queue)"

lemma all_queue [simp]: "q \<in> set all_queue"
  by (cases q) (simp_all add: all_queue_def)

lemma catalogue_distinct: "distinct (map fst catalogue)"
  by (simp add: catalogue_def plain_defs instance_list_def new_instanceMetrics_def instance_opts_def
      all_queue_def queue_opts_def fqName_def)

lemma instance_names: "map (\<lambda>m. (fqName m, metric_dims m)) (instance_list (new_instanceMetrics n a))
    = map (\<lambda>m. (fqName m, metric_dims m)) (instance_list (new_instanceMetrics 0 []))"
  by (simp add: instance_list_def new_instanceMetrics_def instance_opts_def fqName_def metric_dims_def)

lemma queue_names: "fqName (queue_metric_of q a n) = fqName (queue_metric_of q [] 0)"
  "metric_dims (queue_metric_of q a n) = metric_dims (queue_metric_of q [] 0)"
  by (cases q, simp_all add: queue_opts_def fqName_def metric_dims_def)+

definition catalogued :: "Metric \<Rightarrow> bool" where
  "catalogued m \<longleftrightarrow> (fqName m, metric_dims m) \<in> set catalogue"

lemma catalogued_dims:
  "catalogued m \<Longrightarrow> catalogued m' \<Longrightarrow> fqName m' = fqName m \<Longrightarrow> metric_dims m' = metric_dims m"
  unfolding catalogued_def using catalogue_distinct by (metis eq_key_imp_eq_value)

lemma catalogued_plain: "m \<in> set plain_list \<Longrightarrow> catalogued m"
  unfolding catalogued_def catalogue_def by auto

lemma catalogued_instance:
  assumes "m \<in> set (instance_list (new_instanceMetrics n a))"
  shows "catalogued m"
proof -
  have "(fqName m, metric_dims m)
      \<in> set (map (\<lambda>m. (fqName m, metric_dims m)) (instance_list (new_instanceMetrics n a)))"
    using assms by simp
  also have "\<dots> \<subseteq> set catalogue" unfolding catalogue_def instance_names [of n a] by auto
  finally show ?thesis unfolding catalogued_def .
qed

lemma catalogued_queue: "catalogued (queue_metric_of q a n)"
  unfolding catalogued_def catalogue_def using queue_names by force

lemma queue_fq_inj: "fqName (queue_metric_of q a n) = fqName (queue_metric_of q' a' n') \<Longrightarrow> q = q'"
  by (cases q; cases q') (simp_all add: queue_opts_def fqName_def)

lemma instance_labels:
  "m \<in> set (instance_list (new_instanceMetrics n a)) \<Longrightarrow> mx_ConstLabels m = [(''varnish_instance'', a)]"
  by (auto simp: instance_list_def new_instanceMetrics_def instance_opts_def)

lemma queue_labels: "mx_ConstLabels (queue_metric_of q name n) = [(''namespace'', name)]"
  by (cases q) (simp_all add: queue_opts_def)

lemma plain_labels: "m \<in> set plain_list \<Longrightarrow> mx_ConstLabels m = []"
  by (auto simp: plain_defs)

lemma instance_distinct: "distinct (map metric_key (instance_list (new_instanceMetrics n a)))"
  by (simp add: metric_key_def instance_list_def new_instanceMetrics_def instance_opts_def fqName_def)

lemma plain_distinct: "distinct (map metric_key plain_list)"
  by (simp add: metric_key_def plain_defs fqName_def)

text \<open>
  What is exported is catalogued and belongs to no label, to a known instance, or to a queue that has been
  made; and the metrics of the known instances are exported.
\<close>

definition metrics_ok :: "('r \<Rightarrow> Metric set) \<Rightarrow> (queue_metric \<times> string) set \<Rightarrow> 'r metric_state \<Rightarrow> bool" where
  "metrics_ok exported used S \<longleftrightarrow>
     (\<forall>m \<in> exported (mt_registry S). catalogued m
        \<and> (mx_ConstLabels m = []
           \<or> (\<exists>a. gm_get (mt_inst S) a \<noteq> None \<and> mx_ConstLabels m = [(''varnish_instance'', a)])
           \<or> (\<exists>q name n. (q, name) \<in> used \<and> m = queue_metric_of q name n)))
     \<and> (\<forall>a m. gm_get (mt_inst S) a = Some m \<longrightarrow> set (instance_list m) \<subseteq> exported (mt_registry S))"

fun call_key :: "metric_call \<Rightarrow> (queue_metric \<times> string) list" where
  "call_key (CallInstance addr) = []"
| "call_key (CallQueue q name) = [(q, name)]"

fun call_label :: "metric_call \<Rightarrow> string" where
  "call_label (CallInstance addr) = addr"
| "call_label (CallQueue q name) = name"

context registry
begin

lemma acceptableI:
  assumes "metrics_ok exported used S" and "catalogued m" and "list_all (\<lambda>l. ascii (snd l)) (mx_ConstLabels m)"
    and "metric_key m \<notin> metric_key ` exported (mt_registry S)"
  shows "acceptable m (exported (mt_registry S))"
  using assms catalogued_dims unfolding acceptable_def metrics_ok_def by blast

lemma start_ok:
  assumes "exported r = {}"
  shows "metrics_ok exported {} (metrics_start Register r)"
    and "exported (mt_registry (metrics_start Register r)) = set plain_list"
proof -
  have f: "mt_registry (metrics_start Register r) = fold Register plain_list r"
    and i: "mt_inst (metrics_start Register r) = []"
    by (simp_all add: metrics_start_def InitMetrics_def initMetrics_def plain_list_def)
  have a: "\<forall>m \<in> set plain_list. acceptable m (exported r)"
    using assms by (simp add: acceptable_def plain_labels)
  have d: "\<forall>m \<in> set plain_list. \<forall>m' \<in> set plain_list. fqName m' = fqName m \<longrightarrow> metric_dims m' = metric_dims m"
    using catalogued_plain catalogued_dims by blast
  show e: "exported (mt_registry (metrics_start Register r)) = set plain_list"
    unfolding f register_all [OF plain_distinct a d] assms by (rule Un_empty_right)
  show "metrics_ok exported {} (metrics_start Register r)"
    unfolding metrics_ok_def e i by (simp add: catalogued_plain plain_labels)
qed

lemma instance_ok:
  assumes "metrics_ok exported used S" and "ascii addr" and "getInstanceMetrics Register addr S = (m, S')"
  shows "metrics_ok exported used S'" and "set (instance_list m) \<subseteq> exported (mt_registry S')"
    and "exported (mt_registry S) \<subseteq> exported (mt_registry S')"
proof -
  have "metrics_ok exported used S' \<and> set (instance_list m) \<subseteq> exported (mt_registry S')
      \<and> exported (mt_registry S) \<subseteq> exported (mt_registry S')"
  proof (cases "gm_get (mt_inst S) addr")
    case (Some x)
    with assms show ?thesis by (auto simp: getInstanceMetrics_def metrics_ok_def)
  next
    case None
    define ms where "ms = instance_list (new_instanceMetrics (mt_next S) addr)"
    have lab: "mx_ConstLabels x = [(''varnish_instance'', addr)]" "catalogued x" if "x \<in> set ms" for x
      using that instance_labels catalogued_instance by (auto simp: ms_def)
    have S': "m = new_instanceMetrics (mt_next S) addr" "mt_registry S' = fold Register ms (mt_registry S)"
      "mt_inst S' = gm_put addr m (mt_inst S)"
      using assms(3) None by (auto simp: getInstanceMetrics_def Let_def ms_def)
    have other: "mx_ConstLabels y \<noteq> [(''varnish_instance'', addr)]" if "y \<in> exported (mt_registry S)" for y
      using assms(1) that None unfolding metrics_ok_def by (fastforce simp: queue_labels)
    have "acceptable x (exported (mt_registry S))" if x: "x \<in> set ms" for x
    proof (rule acceptableI [OF assms(1) lab(2) [OF x]])
      show "list_all (\<lambda>l. ascii (snd l)) (mx_ConstLabels x)" using lab(1) [OF x] assms(2) by simp
      show "metric_key x \<notin> metric_key ` exported (mt_registry S)"
        using lab(1) [OF x] other unfolding metric_key_def by force
    qed
    moreover have "\<forall>x \<in> set ms. \<forall>y \<in> set ms. fqName y = fqName x \<longrightarrow> metric_dims y = metric_dims x"
      using lab(2) catalogued_dims by blast
    moreover have "distinct (map metric_key ms)" by (simp add: ms_def instance_distinct)
    ultimately have e: "exported (mt_registry S') = set ms \<union> exported (mt_registry S)"
      unfolding S' by (intro register_all) blast+
    have "metrics_ok exported used S'"
      unfolding metrics_ok_def e
    proof (intro conjI ballI allI impI)
      fix x assume "x \<in> set ms \<union> exported (mt_registry S)"
      then show "catalogued x" using lab assms(1) by (auto simp: metrics_ok_def)
    next
      fix x assume "x \<in> set ms \<union> exported (mt_registry S)"
      then show "mx_ConstLabels x = []
         \<or> (\<exists>a. gm_get (mt_inst S') a \<noteq> None \<and> mx_ConstLabels x = [(''varnish_instance'', a)])
         \<or> (\<exists>q name n. (q, name) \<in> used \<and> x = queue_metric_of q name n)"
      proof (cases "x \<in> set ms")
        case True
        from lab(1) [OF this] show ?thesis by (simp add: S'(3))
      next
        case False
        with \<open>x \<in> set ms \<union> exported (mt_registry S)\<close> have "x \<in> exported (mt_registry S)" by simp
        with assms(1) consider "mx_ConstLabels x = []"
          | a where "gm_get (mt_inst S) a \<noteq> None" "mx_ConstLabels x = [(''varnish_instance'', a)]"
          | "\<exists>q name n. (q, name) \<in> used \<and> x = queue_metric_of q name n"
          unfolding metrics_ok_def by blast
        then show ?thesis by cases (auto simp: S'(3))
      qed
    next
      fix a x assume "gm_get (mt_inst S') a = Some x"
      then show "set (instance_list x) \<subseteq> set ms \<union> exported (mt_registry S)"
        using assms(1) S' unfolding metrics_ok_def by (auto simp: ms_def split: if_splits)
    qed
    then show ?thesis unfolding e S'(1) by (auto simp: ms_def)
  qed
  then show "metrics_ok exported used S'" and "set (instance_list m) \<subseteq> exported (mt_registry S')"
    and "exported (mt_registry S) \<subseteq> exported (mt_registry S')" by simp_all
qed

lemma queue_ok:
  assumes "metrics_ok exported used S" and "ascii name" and "(q, name) \<notin> used"
    and "provider q Register name S = (m, S')"
  shows "metrics_ok exported (insert (q, name) used) S'"
    and "exported (mt_registry S') = insert m (exported (mt_registry S))"
proof -
  have S': "m = queue_metric_of q name (mt_next S)" "mt_registry S' = Register m (mt_registry S)"
    "mt_inst S' = mt_inst S"
    using assms(4) by (auto simp: provider_of registered_def Let_def)
  have "metric_key m \<noteq> metric_key y" if "y \<in> exported (mt_registry S)" for y
    using assms(1,3) that queue_fq_inj unfolding metrics_ok_def S'(1)
    by (fastforce simp: queue_labels metric_key_def)
  then have "acceptable m (exported (mt_registry S))"
    using assms(2) by (intro acceptableI [OF assms(1)]) (auto simp: S'(1) queue_labels catalogued_queue)
  then show e: "exported (mt_registry S') = insert m (exported (mt_registry S))"
    unfolding S'(2) by (rule accepts)
  show "metrics_ok exported (insert (q, name) used) S'"
    using assms(1) unfolding metrics_ok_def e S'(3)
    by (auto simp: S'(1) catalogued_queue) (metis)+
qed

lemma calls_exported:
  assumes "metrics_ok exported used S" and "list_all (\<lambda>c. ascii (call_label c)) cs"
    and "distinct (concat (map call_key cs))" and "set (concat (map call_key cs)) \<inter> used = {}"
    and "calls Register cs S = (ms, S')"
  shows "ms \<subseteq> exported (mt_registry S') \<and> exported (mt_registry S) \<subseteq> exported (mt_registry S')"
  using assms
proof (induction cs arbitrary: S ms used)
  case (Cons c cs)
  from Cons.prems(5) obtain x S1 xs where c: "call Register c S = (x, S1)"
    and cs: "calls Register cs S1 = (xs, S')" and ms: "ms = x \<union> xs"
    by (auto split: prod.splits)
  have step: "metrics_ok exported (set (call_key c) \<union> used) S1 \<and> x \<subseteq> exported (mt_registry S1)
      \<and> exported (mt_registry S) \<subseteq> exported (mt_registry S1)"
  proof (cases c)
    case (CallInstance addr)
    with c Cons.prems(1,2) show ?thesis
      using instance_ok [of used S addr _ S1] by (auto split: prod.splits)
  next
    case (CallQueue q name)
    with c Cons.prems(1,2,4) show ?thesis
      using queue_ok [of used S name q _ S1] by (auto split: prod.splits)
  qed
  have "xs \<subseteq> exported (mt_registry S') \<and> exported (mt_registry S1) \<subseteq> exported (mt_registry S')"
    using Cons.prems(2-4) cs
    by (intro Cons.IH [of "set (call_key c) \<union> used" S1 xs]) (use step in auto)
  with step ms show ?case by auto
qed simp

end

end
