(* ===== verification/DeepCopy.thy ===== *)
theory DeepCopy
  imports Prelude
begin

text \<open>
  The deep copies of the custom resources (\<open>zz_generated.deepcopy.go\<close>), which \<open>client-go\<close> needs of every
  object that it keeps in a cache.  Elsewhere in this library a resource is a value; here it lies in a
  heap, where slices and pointers can be shared.
\<close>

named_theorems copies_rules "which functions copy which types"

section \<open>Values and memory\<close>

text \<open>
  A scalar stands for strings, booleans and numbers.  A slice is the list of the addresses of its elements;
  None is nil.
\<close>

datatype scalar = SStr string | SBool bool | SInt int

datatype gval =
    Prim scalar
  | Ptr "nat option"
  | Slice "nat list option"
  | Struct "(string \<times> gval) list"

type_synonym heap = "gval list"

text \<open>What a value looks like when all its pointers are followed.\<close>

datatype tree =
    LPrim scalar
  | LPtr "tree option"
  | LSlice "tree list option"
  | LStruct "(string \<times> tree) list"

text \<open>
  The value is read as the tree, and all memory that it uses has an address of at least the bound.
\<close>

inductive reads :: "nat \<Rightarrow> heap \<Rightarrow> gval \<Rightarrow> tree \<Rightarrow> bool" for n H where
  reads_prim: "reads n H (Prim s) (LPrim s)"
| reads_nil: "reads n H (Ptr None) (LPtr None)"
| reads_ptr: "n \<le> a \<Longrightarrow> a < length H \<Longrightarrow> reads n H (H ! a) t \<Longrightarrow> reads n H (Ptr (Some a)) (LPtr (Some t))"
| reads_nil_slice: "reads n H (Slice None) (LSlice None)"
| reads_slice: "list_all2 (\<lambda>a t. n \<le> a \<and> a < length H \<and> reads n H (H ! a) t) as ts \<Longrightarrow>
     reads n H (Slice (Some as)) (LSlice (Some ts))"
| reads_struct: "list_all2 (\<lambda>f g. fst f = fst g \<and> reads n H (snd f) (snd g)) fs gs \<Longrightarrow>
     reads n H (Struct fs) (LStruct gs)"

inductive_cases reads_primE: "reads n H v (LPrim s)"
inductive_cases reads_ptrE: "reads n H v (LPtr p)"
inductive_cases reads_sliceE: "reads n H v (LSlice p)"
inductive_cases reads_structE: "reads n H v (LStruct gs)"

text \<open>More memory changes nothing.\<close>

lemma reads_more: "reads n H v t \<Longrightarrow> reads n (H @ K) v t"
proof (induction rule: reads.induct)
  case (reads_ptr a t)
  then show ?case by (intro reads.reads_ptr) (simp_all add: nth_append)
next
  case (reads_slice as ts)
  then show ?case
    by (intro reads.reads_slice) (auto elim!: list_all2_mono simp: nth_append)
next
  case (reads_struct fs gs)
  then show ?case by (intro reads.reads_struct) (auto elim!: list_all2_mono)
qed (auto intro: reads.intros)

lemma reads_lower: "reads n H v t \<Longrightarrow> m \<le> n \<Longrightarrow> reads m H v t"
proof (induction rule: reads.induct)
  case (reads_slice as ts)
  then show ?case by (intro reads.reads_slice) (auto elim!: list_all2_mono)
next
  case (reads_struct fs gs)
  then show ?case by (intro reads.reads_struct) (auto elim!: list_all2_mono)
qed (auto intro: reads.intros)

section \<open>Types\<close>

datatype gtype = TPrim | TPtr gtype | TSlice gtype | TStruct "(string \<times> gtype) list"

fun shaped :: "gtype \<Rightarrow> tree \<Rightarrow> bool" where
  "shaped TPrim t = (case t of LPrim s \<Rightarrow> True | _ \<Rightarrow> False)"
| "shaped (TPtr y) t = (case t of LPtr None \<Rightarrow> True | LPtr (Some u) \<Rightarrow> shaped y u | _ \<Rightarrow> False)"
| "shaped (TSlice y) t = (case t of LSlice None \<Rightarrow> True | LSlice (Some us) \<Rightarrow> list_all (shaped y) us | _ \<Rightarrow> False)"
| "shaped (TStruct ys) t =
     (case t of LStruct gs \<Rightarrow> list_all2 (\<lambda>y g. fst g = fst y \<and> shaped (snd y) (snd g)) ys gs | _ \<Rightarrow> False)"

text \<open>A type without pointers and slices.\<close>

fun flat :: "gtype \<Rightarrow> bool" where
  "flat TPrim = True"
| "flat (TPtr y) = False"
| "flat (TSlice y) = False"
| "flat (TStruct ys) = list_all (\<lambda>y. flat (snd y)) ys"

text \<open>The structs of \<open>types.go\<close>, with the types of their fields.  The metadata of objects and lists is
  a type of \<open>apimachinery\<close>, an argument.\<close>

definition TypeMeta_type :: gtype where
  "TypeMeta_type = TStruct [(''Kind'', TPrim), (''APIVersion'', TPrim)]"

definition ProbeSpec_type :: gtype where
  "ProbeSpec_type = TStruct
     [(''URL'', TPrim),
      (''Request'', TSlice TPrim),
      (''ExpResponse'', TPtr TPrim),
      (''Timeout'', TPrim),
      (''Interval'', TPrim),
      (''Initial'', TPtr TPrim),
      (''Window'', TPtr TPrim),
      (''Threshold'', TPtr TPrim)]"

definition SelfShardSpec_type :: gtype where
  "SelfShardSpec_type = TStruct
     [(''Max2ndTTL'', TPrim),
      (''Probe'', ProbeSpec_type)]"

definition Condition_type :: gtype where
  "Condition_type = TStruct
     [(''Comparand'', TPrim),
      (''Compare'', TPrim),
      (''Value'', TPrim)]"

definition AuthSpec_type :: gtype where
  "AuthSpec_type = TStruct
     [(''Realm'', TPrim),
      (''SecretName'', TPrim),
      (''Type'', TPrim),
      (''UTF8'', TPrim),
      (''Conditions'', TSlice Condition_type)]"

definition ResultHdrType_type :: gtype where
  "ResultHdrType_type = TStruct
     [(''Header'', TPrim),
      (''Success'', TPrim),
      (''Failure'', TPrim)]"

definition ACLAddress_type :: gtype where
  "ACLAddress_type = TStruct
     [(''Address'', TPrim),
      (''MaskBits'', TPtr TPrim),
      (''Negate'', TPrim)]"

definition ACLSpec_type :: gtype where
  "ACLSpec_type = TStruct
     [(''Name'', TPrim),
      (''ACLType'', TPrim),
      (''Comparand'', TPrim),
      (''ResultHdr'', TPtr ResultHdrType_type),
      (''FailStatus'', TPtr TPrim),
      (''Addresses'', TSlice ACLAddress_type),
      (''Conditions'', TSlice Condition_type)]"

definition RewriteRule_type :: gtype where
  "RewriteRule_type = TStruct
     [(''Value'', TPrim),
      (''Rewrite'', TPrim)]"

definition MatchFlagsType_type :: gtype where
  "MatchFlagsType_type = TStruct
     [(''MaxMem'', TPtr TPrim),
      (''Anchor'', TPrim),
      (''CaseSensitive'', TPtr TPrim),
      (''UTF8'', TPrim),
      (''PosixSyntax'', TPrim),
      (''LongestMatch'', TPrim),
      (''Literal'', TPrim),
      (''NeverCapture'', TPrim),
      (''PerlClasses'', TPrim),
      (''WordBoundary'', TPrim)]"

definition RewriteSpec_type :: gtype where
  "RewriteSpec_type = TStruct
     [(''Rules'', TSlice RewriteRule_type),
      (''MatchFlags'', TPtr MatchFlagsType_type),
      (''Target'', TPrim),
      (''Source'', TPrim),
      (''Method'', TPrim),
      (''Compare'', TPrim),
      (''VCLSub'', TPrim),
      (''Select'', TPrim)]"

definition ReqCondition_type :: gtype where
  "ReqCondition_type = TStruct
     [(''Values'', TSlice TPrim),
      (''MatchFlags'', TPtr MatchFlagsType_type),
      (''Count'', TPtr TPrim),
      (''Comparand'', TPrim),
      (''Compare'', TPrim)]"

definition DispositionSpec_type :: gtype where
  "DispositionSpec_type = TStruct
     [(''Action'', TPrim),
      (''Status'', TPtr TPrim),
      (''Reason'', TPrim)]"

definition RequestDispSpec_type :: gtype where
  "RequestDispSpec_type = TStruct
     [(''Conditions'', TSlice ReqCondition_type),
      (''Disposition'', DispositionSpec_type)]"

definition VarnishConfigSpec_type :: gtype where
  "VarnishConfigSpec_type = TStruct
     [(''Services'', TSlice TPrim),
      (''SelfSharding'', TPtr SelfShardSpec_type),
      (''VCL'', TPrim),
      (''Auth'', TSlice AuthSpec_type),
      (''ACLs'', TSlice ACLSpec_type),
      (''Rewrites'', TSlice RewriteSpec_type),
      (''ReqDispositions'', TSlice RequestDispSpec_type)]"

definition VarnishConfig_type :: "gtype \<Rightarrow> gtype" where
  "VarnishConfig_type om = TStruct
     [(''TypeMeta'', TypeMeta_type),
      (''ObjectMeta'', om),
      (''Spec'', VarnishConfigSpec_type)]"

definition VarnishConfigList_type :: "gtype \<Rightarrow> gtype \<Rightarrow> gtype" where
  "VarnishConfigList_type om lm = TStruct
     [(''TypeMeta'', TypeMeta_type),
      (''ListMeta'', lm),
      (''Items'', TSlice (VarnishConfig_type om))]"

definition DirectorSpec_type :: gtype where
  "DirectorSpec_type = TStruct
     [(''Type'', TPrim),
      (''Warmup'', TPtr TPrim),
      (''Rampup'', TPrim)]"

definition BackendConfigSpec_type :: gtype where
  "BackendConfigSpec_type = TStruct
     [(''Services'', TSlice TPrim),
      (''Probe'', TPtr ProbeSpec_type),
      (''Director'', TPtr DirectorSpec_type),
      (''HostHeader'', TPrim),
      (''ConnectTimeout'', TPrim),
      (''FirstByteTimeout'', TPrim),
      (''BetweenBytesTimeout'', TPrim),
      (''MaxConnections'', TPtr TPrim),
      (''ProxyHeader'', TPtr TPrim)]"

definition BackendConfig_type :: "gtype \<Rightarrow> gtype" where
  "BackendConfig_type om = TStruct
     [(''TypeMeta'', TypeMeta_type),
      (''ObjectMeta'', om),
      (''Spec'', BackendConfigSpec_type)]"

definition BackendConfigList_type :: "gtype \<Rightarrow> gtype \<Rightarrow> gtype" where
  "BackendConfigList_type om lm = TStruct
     [(''TypeMeta'', TypeMeta_type),
      (''ListMeta'', lm),
      (''Items'', TSlice (BackendConfig_type om))]"

section \<open>Copying\<close>

text \<open>
  A copier takes what is copied, and gives the copy and the memory after it.  \<open>shallow\<close> is an assignment;
  \<open>copy_ptr\<close> is \<open>new\<close> and a copy into it, unless the pointer is nil; \<open>copy_slice\<close> is \<open>make\<close> and a copy of
  each element; \<open>copy_struct\<close> assigns the struct and then sets the fields that are listed.
  (New memory is numbered in the order in which its copy is complete.)
\<close>

type_synonym copier = "heap \<Rightarrow> gval \<Rightarrow> gval \<times> heap"

definition shallow :: copier where
  "shallow H v = (v, H)"

definition copy_ptr :: "copier \<Rightarrow> copier" where
  "copy_ptr c H p =
     (case p of
        Ptr (Some a) \<Rightarrow> (case c H (H ! a) of (v, H1) \<Rightarrow> (Ptr (Some (length H1)), H1 @ [v]))
      | _ \<Rightarrow> (p, H))"

fun copy_elems :: "copier \<Rightarrow> heap \<Rightarrow> nat list \<Rightarrow> nat list \<times> heap" where
  "copy_elems c H [] = ([], H)"
| "copy_elems c H (a # as) =
     (case c H (H ! a) of (v, H1) \<Rightarrow>
      case copy_elems c (H1 @ [v]) as of (bs, H2) \<Rightarrow> (length H1 # bs, H2))"

definition copy_slice :: "copier \<Rightarrow> copier" where
  "copy_slice c H p =
     (case p of
        Slice (Some as) \<Rightarrow> (case copy_elems c H as of (bs, H1) \<Rightarrow> (Slice (Some bs), H1))
      | _ \<Rightarrow> (p, H))"

fun copy_fields :: "(string \<times> copier) list \<Rightarrow> heap \<Rightarrow> (string \<times> gval) list \<Rightarrow> (string \<times> gval) list \<times> heap" where
  "copy_fields upds H [] = ([], H)"
| "copy_fields upds H (f # fs) =
     (case (case map_of upds (fst f) of None \<Rightarrow> (snd f, H) | Some c \<Rightarrow> c H (snd f)) of (v, H1) \<Rightarrow>
      case copy_fields upds H1 fs of (fs', H2) \<Rightarrow> ((fst f, v) # fs', H2))"

definition copy_struct :: "(string \<times> copier) list \<Rightarrow> copier" where
  "copy_struct upds H v =
     (case v of Struct fs \<Rightarrow> (case copy_fields upds H fs of (fs', H1) \<Rightarrow> (Struct fs', H1)) | _ \<Rightarrow> (v, H))"

section \<open>The generated functions\<close>

text \<open>A field is listed where \<open>DeepCopyInto\<close> does more than the assignment of the struct.\<close>

definition ProbeSpec_DeepCopyInto :: copier where
  "ProbeSpec_DeepCopyInto = copy_struct
     [(''Request'', copy_slice shallow),
      (''ExpResponse'', copy_ptr shallow),
      (''Initial'', copy_ptr shallow),
      (''Window'', copy_ptr shallow),
      (''Threshold'', copy_ptr shallow)]"

definition ProbeSpec_DeepCopy :: copier where
  "ProbeSpec_DeepCopy = copy_ptr ProbeSpec_DeepCopyInto"

definition SelfShardSpec_DeepCopyInto :: copier where
  "SelfShardSpec_DeepCopyInto = copy_struct
     [(''Probe'', ProbeSpec_DeepCopyInto)]"

definition SelfShardSpec_DeepCopy :: copier where
  "SelfShardSpec_DeepCopy = copy_ptr SelfShardSpec_DeepCopyInto"

definition Condition_DeepCopyInto :: copier where
  "Condition_DeepCopyInto = copy_struct []"

definition Condition_DeepCopy :: copier where
  "Condition_DeepCopy = copy_ptr Condition_DeepCopyInto"

definition AuthSpec_DeepCopyInto :: copier where
  "AuthSpec_DeepCopyInto = copy_struct
     [(''Conditions'', copy_slice shallow)]"

definition AuthSpec_DeepCopy :: copier where
  "AuthSpec_DeepCopy = copy_ptr AuthSpec_DeepCopyInto"

definition ResultHdrType_DeepCopyInto :: copier where
  "ResultHdrType_DeepCopyInto = copy_struct []"

definition ResultHdrType_DeepCopy :: copier where
  "ResultHdrType_DeepCopy = copy_ptr ResultHdrType_DeepCopyInto"

definition ACLAddress_DeepCopyInto :: copier where
  "ACLAddress_DeepCopyInto = copy_struct
     [(''MaskBits'', copy_ptr shallow)]"

definition ACLAddress_DeepCopy :: copier where
  "ACLAddress_DeepCopy = copy_ptr ACLAddress_DeepCopyInto"

definition ACLSpec_DeepCopyInto :: copier where
  "ACLSpec_DeepCopyInto = copy_struct
     [(''ResultHdr'', copy_ptr shallow),
      (''FailStatus'', copy_ptr shallow),
      (''Addresses'', copy_slice ACLAddress_DeepCopyInto),
      (''Conditions'', copy_slice shallow)]"

definition ACLSpec_DeepCopy :: copier where
  "ACLSpec_DeepCopy = copy_ptr ACLSpec_DeepCopyInto"

definition RewriteRule_DeepCopyInto :: copier where
  "RewriteRule_DeepCopyInto = copy_struct []"

definition RewriteRule_DeepCopy :: copier where
  "RewriteRule_DeepCopy = copy_ptr RewriteRule_DeepCopyInto"

definition MatchFlagsType_DeepCopyInto :: copier where
  "MatchFlagsType_DeepCopyInto = copy_struct
     [(''MaxMem'', copy_ptr shallow),
      (''CaseSensitive'', copy_ptr shallow)]"

definition MatchFlagsType_DeepCopy :: copier where
  "MatchFlagsType_DeepCopy = copy_ptr MatchFlagsType_DeepCopyInto"

definition RewriteSpec_DeepCopyInto :: copier where
  "RewriteSpec_DeepCopyInto = copy_struct
     [(''Rules'', copy_slice shallow),
      (''MatchFlags'', copy_ptr MatchFlagsType_DeepCopyInto)]"

definition RewriteSpec_DeepCopy :: copier where
  "RewriteSpec_DeepCopy = copy_ptr RewriteSpec_DeepCopyInto"

definition ReqCondition_DeepCopyInto :: copier where
  "ReqCondition_DeepCopyInto = copy_struct
     [(''Values'', copy_slice shallow),
      (''MatchFlags'', copy_ptr MatchFlagsType_DeepCopyInto),
      (''Count'', copy_ptr shallow)]"

definition ReqCondition_DeepCopy :: copier where
  "ReqCondition_DeepCopy = copy_ptr ReqCondition_DeepCopyInto"

definition DispositionSpec_DeepCopyInto :: copier where
  "DispositionSpec_DeepCopyInto = copy_struct
     [(''Status'', copy_ptr shallow)]"

definition DispositionSpec_DeepCopy :: copier where
  "DispositionSpec_DeepCopy = copy_ptr DispositionSpec_DeepCopyInto"

definition RequestDispSpec_DeepCopyInto :: copier where
  "RequestDispSpec_DeepCopyInto = copy_struct
     [(''Conditions'', copy_slice ReqCondition_DeepCopyInto),
      (''Disposition'', DispositionSpec_DeepCopyInto)]"

definition RequestDispSpec_DeepCopy :: copier where
  "RequestDispSpec_DeepCopy = copy_ptr RequestDispSpec_DeepCopyInto"

definition VarnishConfigSpec_DeepCopyInto :: copier where
  "VarnishConfigSpec_DeepCopyInto = copy_struct
     [(''Services'', copy_slice shallow),
      (''SelfSharding'', copy_ptr SelfShardSpec_DeepCopyInto),
      (''Auth'', copy_slice AuthSpec_DeepCopyInto),
      (''ACLs'', copy_slice ACLSpec_DeepCopyInto),
      (''Rewrites'', copy_slice RewriteSpec_DeepCopyInto),
      (''ReqDispositions'', copy_slice RequestDispSpec_DeepCopyInto)]"

definition VarnishConfigSpec_DeepCopy :: copier where
  "VarnishConfigSpec_DeepCopy = copy_ptr VarnishConfigSpec_DeepCopyInto"

definition VarnishConfig_DeepCopyInto :: "copier \<Rightarrow> copier" where
  "VarnishConfig_DeepCopyInto mc = copy_struct
     [(''TypeMeta'', shallow),
      (''ObjectMeta'', mc),
      (''Spec'', VarnishConfigSpec_DeepCopyInto)]"

definition VarnishConfig_DeepCopy :: "copier \<Rightarrow> copier" where
  "VarnishConfig_DeepCopy mc = copy_ptr (VarnishConfig_DeepCopyInto mc)"

definition VarnishConfig_DeepCopyObject :: "copier \<Rightarrow> copier" where
  "VarnishConfig_DeepCopyObject mc H p =
     (case VarnishConfig_DeepCopy mc H p of
        (Ptr (Some c), H') \<Rightarrow> (Ptr (Some c), H')
      | (_, H') \<Rightarrow> (Ptr None, H'))"

definition VarnishConfigList_DeepCopyInto :: "copier \<Rightarrow> copier \<Rightarrow> copier" where
  "VarnishConfigList_DeepCopyInto mc lc = copy_struct
     [(''TypeMeta'', shallow),
      (''ListMeta'', lc),
      (''Items'', copy_slice (VarnishConfig_DeepCopyInto mc))]"

definition VarnishConfigList_DeepCopy :: "copier \<Rightarrow> copier \<Rightarrow> copier" where
  "VarnishConfigList_DeepCopy mc lc = copy_ptr (VarnishConfigList_DeepCopyInto mc lc)"

definition VarnishConfigList_DeepCopyObject :: "copier \<Rightarrow> copier \<Rightarrow> copier" where
  "VarnishConfigList_DeepCopyObject mc lc H p =
     (case VarnishConfigList_DeepCopy mc lc H p of
        (Ptr (Some c), H') \<Rightarrow> (Ptr (Some c), H')
      | (_, H') \<Rightarrow> (Ptr None, H'))"

definition DirectorSpec_DeepCopyInto :: copier where
  "DirectorSpec_DeepCopyInto = copy_struct
     [(''Warmup'', copy_ptr shallow)]"

definition DirectorSpec_DeepCopy :: copier where
  "DirectorSpec_DeepCopy = copy_ptr DirectorSpec_DeepCopyInto"

definition BackendConfigSpec_DeepCopyInto :: copier where
  "BackendConfigSpec_DeepCopyInto = copy_struct
     [(''Services'', copy_slice shallow),
      (''Probe'', copy_ptr ProbeSpec_DeepCopyInto),
      (''Director'', copy_ptr DirectorSpec_DeepCopyInto),
      (''MaxConnections'', copy_ptr shallow),
      (''ProxyHeader'', copy_ptr shallow)]"

definition BackendConfigSpec_DeepCopy :: copier where
  "BackendConfigSpec_DeepCopy = copy_ptr BackendConfigSpec_DeepCopyInto"

definition BackendConfig_DeepCopyInto :: "copier \<Rightarrow> copier" where
  "BackendConfig_DeepCopyInto mc = copy_struct
     [(''TypeMeta'', shallow),
      (''ObjectMeta'', mc),
      (''Spec'', BackendConfigSpec_DeepCopyInto)]"

definition BackendConfig_DeepCopy :: "copier \<Rightarrow> copier" where
  "BackendConfig_DeepCopy mc = copy_ptr (BackendConfig_DeepCopyInto mc)"

definition BackendConfig_DeepCopyObject :: "copier \<Rightarrow> copier" where
  "BackendConfig_DeepCopyObject mc H p =
     (case BackendConfig_DeepCopy mc H p of
        (Ptr (Some c), H') \<Rightarrow> (Ptr (Some c), H')
      | (_, H') \<Rightarrow> (Ptr None, H'))"

definition BackendConfigList_DeepCopyInto :: "copier \<Rightarrow> copier \<Rightarrow> copier" where
  "BackendConfigList_DeepCopyInto mc lc = copy_struct
     [(''TypeMeta'', shallow),
      (''ListMeta'', lc),
      (''Items'', copy_slice (BackendConfig_DeepCopyInto mc))]"

definition BackendConfigList_DeepCopy :: "copier \<Rightarrow> copier \<Rightarrow> copier" where
  "BackendConfigList_DeepCopy mc lc = copy_ptr (BackendConfigList_DeepCopyInto mc lc)"

definition BackendConfigList_DeepCopyObject :: "copier \<Rightarrow> copier \<Rightarrow> copier" where
  "BackendConfigList_DeepCopyObject mc lc H p =
     (case BackendConfigList_DeepCopy mc lc H p of
        (Ptr (Some c), H') \<Rightarrow> (Ptr (Some c), H')
      | (_, H') \<Rightarrow> (Ptr None, H'))"

section \<open>What a deep copy is\<close>

text \<open>
  The copy is read like the original, uses only new memory, and leaves the old memory as it is.
\<close>

definition copies :: "gtype \<Rightarrow> copier \<Rightarrow> bool" where
  "copies y c \<longleftrightarrow>
     (\<forall>H v t. reads 0 H v t \<longrightarrow> shaped y t \<longrightarrow>
        (\<exists>v' K. c H v = (v', H @ K) \<and> reads (length H) (H @ K) v' t))"

lemma copiesD:
  assumes "copies y c" and "reads 0 H v t" and "shaped y t"
  obtains v' K where "c H v = (v', H @ K)" and "reads (length H) (H @ K) v' t"
  using assms unfolding copies_def by blast

lemma flat_reads: "flat y \<Longrightarrow> shaped y t \<Longrightarrow> reads n H v t \<Longrightarrow> reads m H v t"
proof (induction y t arbitrary: v rule: shaped.induct)
  case (1 t)
  then show ?case by (auto split: tree.split_asm elim: reads_primE intro: reads_prim)
next
  case (4 ys t)
  then obtain gs where t: "t = LStruct gs"
    and ys: "list_all2 (\<lambda>y g. fst g = fst y \<and> shaped (snd y) (snd g)) ys gs"
    by (auto split: tree.split_asm)
  from 4(4) t obtain fs where v: "v = Struct fs"
    and fs: "list_all2 (\<lambda>f g. fst f = fst g \<and> reads n H (snd f) (snd g)) fs gs"
    by (auto elim: reads_structE)
  have "reads m H (snd (fs ! i)) (snd (gs ! i))" if i: "i < length gs" for i
  proof (rule 4(1) [OF t])
    show "ys ! i \<in> set ys" using i ys by (simp add: list_all2_lengthD)
    show "gs ! i \<in> set gs" using i by simp
    show "flat (snd (ys ! i))" using 4(2) i ys by (simp add: list_all_length list_all2_lengthD)
    show "shaped (snd (ys ! i)) (snd (gs ! i))" using ys i by (simp add: list_all2_conv_all_nth)
    show "reads n H (snd (fs ! i)) (snd (gs ! i))" using fs i by (simp add: list_all2_conv_all_nth)
  qed
  with fs show ?case unfolding t v by (intro reads_struct) (simp add: list_all2_conv_all_nth)
qed simp_all

lemma copies_flat: "flat y \<Longrightarrow> copies y shallow"
  unfolding copies_def shallow_def using flat_reads by fastforce

lemma copies_ptr:
  assumes "copies y c"
  shows "copies (TPtr y) (copy_ptr c)"
  unfolding copies_def
proof (intro allI impI)
  fix H v t assume r: "reads 0 H v t" and s: "shaped (TPtr y) t"
  from s consider "t = LPtr None" | u where "t = LPtr (Some u)" "shaped y u"
    by (auto split: tree.split_asm option.split_asm)
  then show "\<exists>v' K. copy_ptr c H v = (v', H @ K) \<and> reads (length H) (H @ K) v' t"
  proof cases
    case 1
    with r have "v = Ptr None" by (auto elim: reads_ptrE)
    with 1 show ?thesis by (auto simp: copy_ptr_def intro: reads_nil)
  next
    case 2
    with r obtain a where v: "v = Ptr (Some a)" and a: "reads 0 H (H ! a) u" by (auto elim: reads_ptrE)
    from copiesD [OF assms a 2(2)] obtain w K where
      c: "c H (H ! a) = (w, H @ K)" and w: "reads (length H) (H @ K) w u" .
    have "reads (length H) (H @ K @ [w]) w u" using reads_more [OF w, of "[w]"] by simp
    then have "reads (length H) (H @ K @ [w]) (Ptr (Some (length (H @ K)))) (LPtr (Some u))"
      by (intro reads_ptr) (simp_all add: nth_append)
    with c v 2(1) show ?thesis by (simp add: copy_ptr_def)
  qed
qed

text \<open>The elements of a slice and the fields of a struct are copied one after the other.\<close>

lemma copy_elems:
  assumes "copies y c"
  shows "list_all2 (\<lambda>a t. a < length H \<and> reads 0 H (H ! a) t) as ts \<Longrightarrow> list_all (shaped y) ts \<Longrightarrow>
     n \<le> length H \<Longrightarrow>
     \<exists>bs K. copy_elems c H as = (bs, H @ K)
       \<and> list_all2 (\<lambda>b t. n \<le> b \<and> b < length (H @ K) \<and> reads n (H @ K) ((H @ K) ! b) t) bs ts"
proof (induction as arbitrary: H ts)
  case (Cons a as)
  from Cons.prems(1) obtain t ts' where ts: "ts = t # ts'" and "reads 0 H (H ! a) t"
    and as: "list_all2 (\<lambda>a t. a < length H \<and> reads 0 H (H ! a) t) as ts'"
    by (auto simp: list_all2_Cons1)
  moreover from Cons.prems(2) ts have "shaped y t" by simp
  ultimately have "reads 0 H (H ! a) t" and "shaped y t" by simp_all
  from copiesD [OF assms this] obtain w K where
    c: "c H (H ! a) = (w, H @ K)" and w: "reads (length H) (H @ K) w t" .
  let ?H = "H @ K @ [w]"
  have "list_all2 (\<lambda>a t. a < length ?H \<and> reads 0 ?H (?H ! a) t) as ts'"
    using as by (rule list_all2_mono) (auto simp: nth_append intro: reads_more)
  then obtain bs L where bs: "copy_elems c ?H as = (bs, ?H @ L)"
    and l: "list_all2 (\<lambda>b t. n \<le> b \<and> b < length (?H @ L) \<and> reads n (?H @ L) ((?H @ L) ! b) t) bs ts'"
    using Cons.IH [of ?H ts'] Cons.prems(2,3) ts by auto
  have "reads n (?H @ L) w t"
    using reads_lower [OF reads_more [OF w, of "[w] @ L"] Cons.prems(3)] by simp
  then have "list_all2 (\<lambda>b t. n \<le> b \<and> b < length (?H @ L) \<and> reads n (?H @ L) ((?H @ L) ! b) t)
      (length (H @ K) # bs) ts"
    using l Cons.prems(3) by (simp add: nth_append ts)
  with c bs show ?case by (intro exI [of _ "length (H @ K) # bs"] exI [of _ "K @ [w] @ L"]) simp
qed simp

lemma copies_slice:
  assumes "copies y c"
  shows "copies (TSlice y) (copy_slice c)"
  unfolding copies_def
proof (intro allI impI)
  fix H v t assume r: "reads 0 H v t" and s: "shaped (TSlice y) t"
  from s consider "t = LSlice None" | us where "t = LSlice (Some us)" "list_all (shaped y) us"
    by (auto split: tree.split_asm option.split_asm)
  then show "\<exists>v' K. copy_slice c H v = (v', H @ K) \<and> reads (length H) (H @ K) v' t"
  proof cases
    case 1
    with r have "v = Slice None" by (auto elim: reads_sliceE)
    with 1 show ?thesis by (auto simp: copy_slice_def intro: reads_nil_slice)
  next
    case 2
    with r obtain as where v: "v = Slice (Some as)"
      and a: "list_all2 (\<lambda>a t. a < length H \<and> reads 0 H (H ! a) t) as us"
      by (auto elim!: reads_sliceE)
    from copy_elems [OF assms a 2(2) order_refl] v 2(1) show ?thesis
      by (auto simp: copy_slice_def intro!: reads_slice)
  qed
qed

definition fields_copied :: "(string \<times> gtype) list \<Rightarrow> (string \<times> copier) list \<Rightarrow> bool" where
  "fields_copied ys upds \<longleftrightarrow>
     list_all (\<lambda>y. case map_of upds (fst y) of None \<Rightarrow> flat (snd y) | Some c \<Rightarrow> copies (snd y) c) ys"

lemma copy_fields:
  "list_all2 (\<lambda>f g. fst f = fst g \<and> reads 0 H (snd f) (snd g)) fs gs \<Longrightarrow>
   list_all2 (\<lambda>y g. fst g = fst y \<and> shaped (snd y) (snd g)) ys gs \<Longrightarrow>
   fields_copied ys upds \<Longrightarrow> n \<le> length H \<Longrightarrow>
   \<exists>fs' K. copy_fields upds H fs = (fs', H @ K)
     \<and> list_all2 (\<lambda>f g. fst f = fst g \<and> reads n (H @ K) (snd f) (snd g)) fs' gs"
proof (induction fs arbitrary: H gs ys)
  case (Cons f fs)
  from Cons.prems(1) obtain g gs' where gs: "gs = g # gs'"
    and f: "fst f = fst g" "reads 0 H (snd f) (snd g)"
    and fs: "list_all2 (\<lambda>f g. fst f = fst g \<and> reads 0 H (snd f) (snd g)) fs gs'"
    by (auto simp: list_all2_Cons1)
  from Cons.prems(2) gs obtain y ys' where ys: "ys = y # ys'"
    and y: "fst g = fst y" "shaped (snd y) (snd g)"
    and ys': "list_all2 (\<lambda>y g. fst g = fst y \<and> shaped (snd y) (snd g)) ys' gs'"
    by (auto simp: list_all2_Cons2)
  have "\<exists>v K. (case map_of upds (fst f) of None \<Rightarrow> (snd f, H) | Some c \<Rightarrow> c H (snd f)) = (v, H @ K)
      \<and> reads n (H @ K) v (snd g)"
  proof (cases "map_of upds (fst f)")
    case None
    then have "flat (snd y)" using Cons.prems(3) f(1) y(1) by (simp add: ys fields_copied_def)
    from flat_reads [OF this y(2) f(2)] have "reads n H (snd f) (snd g)" .
    with None show ?thesis by simp
  next
    case (Some c)
    then have "copies (snd y) c" using Cons.prems(3) f(1) y(1) by (simp add: ys fields_copied_def)
    from copiesD [OF this f(2) y(2)] obtain v K where
      "c H (snd f) = (v, H @ K)" "reads (length H) (H @ K) v (snd g)" .
    with Some reads_lower [OF _ Cons.prems(4)] show ?thesis by auto
  qed
  then obtain v K where
    v: "(case map_of upds (fst f) of None \<Rightarrow> (snd f, H) | Some c \<Rightarrow> c H (snd f)) = (v, H @ K)"
      "reads n (H @ K) v (snd g)" by blast
  have "list_all2 (\<lambda>f g. fst f = fst g \<and> reads 0 (H @ K) (snd f) (snd g)) fs gs'"
    using fs by (rule list_all2_mono) (auto intro: reads_more)
  moreover have "fields_copied ys' upds" using Cons.prems(3) by (simp add: ys fields_copied_def)
  moreover have "n \<le> length (H @ K)" using Cons.prems(4) by simp
  ultimately obtain fs' L where fs': "copy_fields upds (H @ K) fs = (fs', (H @ K) @ L)"
    and l: "list_all2 (\<lambda>f g. fst f = fst g \<and> reads n ((H @ K) @ L) (snd f) (snd g)) fs' gs'"
    using Cons.IH [of "H @ K" gs' ys'] ys' by blast
  from reads_more [OF v(2), of L] l f(1)
  have "list_all2 (\<lambda>f g. fst f = fst g \<and> reads n ((H @ K) @ L) (snd f) (snd g)) ((fst f, v) # fs') gs"
    by (simp add: gs)
  with v(1) fs' show ?case by (intro exI [of _ "(fst f, v) # fs'"] exI [of _ "K @ L"]) simp
qed simp

lemma copies_struct: "fields_copied ys upds \<Longrightarrow> copies (TStruct ys) (copy_struct upds)"
  unfolding copies_def
proof (intro allI impI)
  fix H v t assume u: "fields_copied ys upds" and r: "reads 0 H v t" and s: "shaped (TStruct ys) t"
  from s obtain gs where t: "t = LStruct gs"
    and ys: "list_all2 (\<lambda>y g. fst g = fst y \<and> shaped (snd y) (snd g)) ys gs"
    by (auto split: tree.split_asm)
  from r t obtain fs where v: "v = Struct fs"
    and fs: "list_all2 (\<lambda>f g. fst f = fst g \<and> reads 0 H (snd f) (snd g)) fs gs"
    by (auto elim: reads_structE)
  from copy_fields [OF fs ys u order_refl] v t
  show "\<exists>v' K. copy_struct upds H v = (v', H @ K) \<and> reads (length H) (H @ K) v' t"
    by (auto simp: copy_struct_def intro!: reads_struct)
qed

section \<open>Every type is copied deeply\<close>

lemma copies_prim: "copies TPrim shallow"
  by (simp add: copies_flat)

lemmas copies_simps = copies_prim copies_ptr copies_slice copies_flat fields_copied_def

lemmas flat_defs = TypeMeta_type_def ResultHdrType_type_def Condition_type_def RewriteRule_type_def

lemma ProbeSpec_copies [copies_rules]: "copies ProbeSpec_type ProbeSpec_DeepCopyInto"
  unfolding ProbeSpec_type_def ProbeSpec_DeepCopyInto_def
  by (rule copies_struct) (simp add: copies_simps copies_rules flat_defs)

lemma SelfShardSpec_copies [copies_rules]: "copies SelfShardSpec_type SelfShardSpec_DeepCopyInto"
  unfolding SelfShardSpec_type_def SelfShardSpec_DeepCopyInto_def
  by (rule copies_struct) (simp add: copies_simps copies_rules flat_defs)

lemma Condition_copies [copies_rules]: "copies Condition_type Condition_DeepCopyInto"
  unfolding Condition_type_def Condition_DeepCopyInto_def
  by (rule copies_struct) (simp add: copies_simps copies_rules flat_defs)

lemma AuthSpec_copies [copies_rules]: "copies AuthSpec_type AuthSpec_DeepCopyInto"
  unfolding AuthSpec_type_def AuthSpec_DeepCopyInto_def
  by (rule copies_struct) (simp add: copies_simps copies_rules flat_defs)

lemma ResultHdrType_copies [copies_rules]: "copies ResultHdrType_type ResultHdrType_DeepCopyInto"
  unfolding ResultHdrType_type_def ResultHdrType_DeepCopyInto_def
  by (rule copies_struct) (simp add: copies_simps copies_rules flat_defs)

lemma ACLAddress_copies [copies_rules]: "copies ACLAddress_type ACLAddress_DeepCopyInto"
  unfolding ACLAddress_type_def ACLAddress_DeepCopyInto_def
  by (rule copies_struct) (simp add: copies_simps copies_rules flat_defs)

lemma ACLSpec_copies [copies_rules]: "copies ACLSpec_type ACLSpec_DeepCopyInto"
  unfolding ACLSpec_type_def ACLSpec_DeepCopyInto_def
  by (rule copies_struct) (simp add: copies_simps copies_rules flat_defs)

lemma RewriteRule_copies [copies_rules]: "copies RewriteRule_type RewriteRule_DeepCopyInto"
  unfolding RewriteRule_type_def RewriteRule_DeepCopyInto_def
  by (rule copies_struct) (simp add: copies_simps copies_rules flat_defs)

lemma MatchFlagsType_copies [copies_rules]: "copies MatchFlagsType_type MatchFlagsType_DeepCopyInto"
  unfolding MatchFlagsType_type_def MatchFlagsType_DeepCopyInto_def
  by (rule copies_struct) (simp add: copies_simps copies_rules flat_defs)

lemma RewriteSpec_copies [copies_rules]: "copies RewriteSpec_type RewriteSpec_DeepCopyInto"
  unfolding RewriteSpec_type_def RewriteSpec_DeepCopyInto_def
  by (rule copies_struct) (simp add: copies_simps copies_rules flat_defs)

lemma ReqCondition_copies [copies_rules]: "copies ReqCondition_type ReqCondition_DeepCopyInto"
  unfolding ReqCondition_type_def ReqCondition_DeepCopyInto_def
  by (rule copies_struct) (simp add: copies_simps copies_rules flat_defs)

lemma DispositionSpec_copies [copies_rules]: "copies DispositionSpec_type DispositionSpec_DeepCopyInto"
  unfolding DispositionSpec_type_def DispositionSpec_DeepCopyInto_def
  by (rule copies_struct) (simp add: copies_simps copies_rules flat_defs)

lemma RequestDispSpec_copies [copies_rules]: "copies RequestDispSpec_type RequestDispSpec_DeepCopyInto"
  unfolding RequestDispSpec_type_def RequestDispSpec_DeepCopyInto_def
  by (rule copies_struct) (simp add: copies_simps copies_rules flat_defs)

lemma VarnishConfigSpec_copies [copies_rules]: "copies VarnishConfigSpec_type VarnishConfigSpec_DeepCopyInto"
  unfolding VarnishConfigSpec_type_def VarnishConfigSpec_DeepCopyInto_def
  by (rule copies_struct) (simp add: copies_simps copies_rules flat_defs)

lemma VarnishConfig_copies [copies_rules]:
  "copies om mc \<Longrightarrow> copies (VarnishConfig_type om) (VarnishConfig_DeepCopyInto mc)"
  unfolding VarnishConfig_type_def VarnishConfig_DeepCopyInto_def
  by (rule copies_struct) (simp add: copies_simps copies_rules flat_defs)

lemma VarnishConfigList_copies [copies_rules]:
  "copies om mc \<Longrightarrow> copies lm lc \<Longrightarrow>
     copies (VarnishConfigList_type om lm) (VarnishConfigList_DeepCopyInto mc lc)"
  unfolding VarnishConfigList_type_def VarnishConfigList_DeepCopyInto_def
  by (rule copies_struct) (simp add: copies_simps copies_rules flat_defs)

lemma DirectorSpec_copies [copies_rules]: "copies DirectorSpec_type DirectorSpec_DeepCopyInto"
  unfolding DirectorSpec_type_def DirectorSpec_DeepCopyInto_def
  by (rule copies_struct) (simp add: copies_simps copies_rules flat_defs)

lemma BackendConfigSpec_copies [copies_rules]: "copies BackendConfigSpec_type BackendConfigSpec_DeepCopyInto"
  unfolding BackendConfigSpec_type_def BackendConfigSpec_DeepCopyInto_def
  by (rule copies_struct) (simp add: copies_simps copies_rules flat_defs)

lemma BackendConfig_copies [copies_rules]:
  "copies om mc \<Longrightarrow> copies (BackendConfig_type om) (BackendConfig_DeepCopyInto mc)"
  unfolding BackendConfig_type_def BackendConfig_DeepCopyInto_def
  by (rule copies_struct) (simp add: copies_simps copies_rules flat_defs)

lemma BackendConfigList_copies [copies_rules]:
  "copies om mc \<Longrightarrow> copies lm lc \<Longrightarrow>
     copies (BackendConfigList_type om lm) (BackendConfigList_DeepCopyInto mc lc)"
  unfolding BackendConfigList_type_def BackendConfigList_DeepCopyInto_def
  by (rule copies_struct) (simp add: copies_simps copies_rules flat_defs)

section \<open>Independence\<close>

text \<open>
  The original is read as before, whatever is written to the memory of the copy, and the copy is read
  like the original, whatever is written to the memory of the original.
\<close>

definition deep_copier :: "gtype \<Rightarrow> copier \<Rightarrow> bool" where
  "deep_copier y c \<longleftrightarrow>
     (\<forall>H p t. reads 0 H p t \<longrightarrow> shaped y t \<longrightarrow>
        (\<exists>p' K. c H p = (p', H @ K)
           \<and> (\<forall>K'. reads 0 (H @ K') p t)
           \<and> (\<forall>H'. length H' = length H \<longrightarrow> reads 0 (H' @ K) p' t)))"

lemma reads_other:
  "reads n H v t \<Longrightarrow> H = G @ K \<Longrightarrow> length G = n \<Longrightarrow> length G' = n \<Longrightarrow> reads 0 (G' @ K) v t"
proof (induction rule: reads.induct)
  case (reads_ptr a t)
  then show ?case by (intro reads.reads_ptr) (simp_all add: nth_append)
next
  case (reads_slice as ts)
  then show ?case
    by (intro reads.reads_slice) (auto elim!: list_all2_mono simp: nth_append)
next
  case (reads_struct fs gs)
  then show ?case by (intro reads.reads_struct) (auto elim!: list_all2_mono)
qed (auto intro: reads.intros)

lemma copies_deep:
  assumes "copies y c"
  shows "deep_copier y c"
  unfolding deep_copier_def
proof (intro allI impI)
  fix H p t assume r: "reads 0 H p t" and s: "shaped y t"
  from copiesD [OF assms r s] obtain p' K where
    c: "c H p = (p', H @ K)" and k: "reads (length H) (H @ K) p' t" .
  have "reads 0 (H @ K') p t" for K' by (rule reads_more [OF r])
  moreover have "reads 0 (H' @ K) p' t" if "length H' = length H" for H'
    using reads_other [OF k refl refl that] .
  ultimately show "\<exists>p' K. c H p = (p', H @ K) \<and> (\<forall>K'. reads 0 (H @ K') p t)
      \<and> (\<forall>H'. length H' = length H \<longrightarrow> reads 0 (H' @ K) p' t)"
    using c by blast
qed

text \<open>\<open>DeepCopyObject\<close> returns what \<open>DeepCopy\<close> returns.\<close>

lemma copy_ptr_object:
  "(case copy_ptr c H p of (Ptr (Some a), H') \<Rightarrow> (Ptr (Some a), H') | (_, H') \<Rightarrow> (Ptr None, H'))
     = copy_ptr c H p" if "p \<in> range Ptr"
proof -
  from that obtain x where "p = Ptr x" by blast
  then show ?thesis by (cases x) (auto simp: copy_ptr_def split: prod.split)
qed

lemma copies_object:
  assumes "copies y c"
    and "\<And>H p. f H p = (case copy_ptr c H p of (Ptr (Some a), H') \<Rightarrow> (Ptr (Some a), H') | (_, H') \<Rightarrow> (Ptr None, H'))"
  shows "copies (TPtr y) f"
  unfolding copies_def
proof (intro allI impI)
  fix H v t assume r: "reads 0 H v t" and s: "shaped (TPtr y) t"
  then have "v \<in> range Ptr" by (auto split: tree.split_asm elim: reads_ptrE)
  then have "f H v = copy_ptr c H v" by (simp only: assms(2) copy_ptr_object)
  with copiesD [OF copies_ptr [OF assms(1)] r s]
  show "\<exists>v' K. f H v = (v', H @ K) \<and> reads (length H) (H @ K) v' t" by metis
qed

lemmas object_defs = VarnishConfig_DeepCopyObject_def BackendConfig_DeepCopyObject_def
  VarnishConfigList_DeepCopyObject_def BackendConfigList_DeepCopyObject_def VarnishConfig_DeepCopy_def
  BackendConfig_DeepCopy_def VarnishConfigList_DeepCopy_def BackendConfigList_DeepCopy_def

lemma object_copies:
  assumes "copies om mc" and "copies lm lc"
  shows "copies (TPtr (VarnishConfig_type om)) (VarnishConfig_DeepCopyObject mc)"
    and "copies (TPtr (BackendConfig_type om)) (BackendConfig_DeepCopyObject mc)"
    and "copies (TPtr (VarnishConfigList_type om lm)) (VarnishConfigList_DeepCopyObject mc lc)"
    and "copies (TPtr (BackendConfigList_type om lm)) (BackendConfigList_DeepCopyObject mc lc)"
  subgoal by (rule copies_object [OF VarnishConfig_copies [OF assms(1)]]) (simp add: object_defs)
  subgoal by (rule copies_object [OF BackendConfig_copies [OF assms(1)]]) (simp add: object_defs)
  subgoal by (rule copies_object [OF VarnishConfigList_copies [OF assms]]) (simp add: object_defs)
  subgoal by (rule copies_object [OF BackendConfigList_copies [OF assms]]) (simp add: object_defs)
  done

end
