(* ===== verification/Convergence.thy ===== *)
theory Convergence
  imports Handlers MonitorSync
begin

text \<open>
  Sequences of synchronisations of Ingresses.  The handler for an Ingress works on the Varnish Service
  that implements it, on the instances of that Service and on nothing else, so that what one
  synchronisation has installed stays in place while those of other Services, and repeated ones
  of the same Service, run after it, whether they succeed or fail.  This rests on what the Varnish
  controller records (\<open>sound\<close>), which most of its operations keep true; the last section is about
  one that does not.
\<close>

section \<open>What a Varnish Service owns\<close>

definition svc_addrs :: "string \<Rightarrow> 'w Controller \<Rightarrow> string list" where
  "svc_addrs k vc =
     (case gm_get (vc_svcs vc) k of None \<Rightarrow> [] | Some svc \<Rightarrow> map vi_addr (vs_instances svc))"

text \<open>No address twice in a Service, and none in two Services.\<close>

definition addrs_apart :: "'w Controller \<Rightarrow> bool" where
  "addrs_apart vc \<longleftrightarrow>
     (\<forall>k. distinct (svc_addrs k vc))
     \<and> (\<forall>k k'. k \<noteq> k' \<longrightarrow> set (svc_addrs k vc) \<inter> set (svc_addrs k' vc) = {})"

text \<open>
  An operation on the Service \<open>k\<close>: it keeps the other Services, the addresses of \<open>k\<close> and the VCL lists of
  the instances at other addresses.
\<close>

definition only_svc ::
    "(string \<Rightarrow> 'w \<Rightarrow> VCLData list) \<Rightarrow> string \<Rightarrow> 'w Controller \<Rightarrow> 'w Controller \<Rightarrow> bool" where
  "only_svc vcls k vc vc' \<longleftrightarrow>
     (\<forall>k'. k' \<noteq> k \<longrightarrow> gm_get (vc_svcs vc') k' = gm_get (vc_svcs vc) k')
     \<and> svc_addrs k vc' = svc_addrs k vc
     \<and> (\<forall>a. a \<notin> set (svc_addrs k vc) \<longrightarrow> vcls a (vc_world vc') = vcls a (vc_world vc))"

lemma only_svc_refl [simp, intro]: "only_svc vcls k vc vc"
  by (simp add: only_svc_def)

lemma only_svc_trans: "only_svc vcls k vc vc1 \<Longrightarrow> only_svc vcls k vc1 vc2 \<Longrightarrow> only_svc vcls k vc vc2"
  by (simp add: only_svc_def)

lemma only_svc_addrs: "only_svc vcls k vc vc' \<Longrightarrow> svc_addrs k' vc' = svc_addrs k' vc"
  by (cases "k' = k") (simp_all add: only_svc_def svc_addrs_def)

lemma only_svc_apart: "only_svc vcls k vc vc' \<Longrightarrow> addrs_apart vc \<Longrightarrow> addrs_apart vc'"
  by (simp add: addrs_apart_def only_svc_addrs)

lemma only_svc_put:
  assumes "gm_get (vc_svcs vc) k = Some svc"
    and "map vi_addr (vs_instances svc') = map vi_addr (vs_instances svc)"
    and "\<And>a. a \<notin> set (svc_addrs k vc) \<Longrightarrow> vcls a (vc_world vc') = vcls a (vc_world vc)"
    and "\<And>k'. gm_get (vc_svcs vc') k' = gm_get (gm_put k svc' (vc_svcs vc)) k'"
  shows "only_svc vcls k vc vc'"
  using assms by (simp add: only_svc_def svc_addrs_def)

lemma ensure_svc_only: "only_svc vcls k vc (ensure_svc k vc)"
  by (auto simp: only_svc_def svc_addrs_def ensure_svc_def new_VarnishSvc_def split: option.split)

lemma HasConfig_only:
  assumes "HasConfig k spec im vm bm vc = Ok (b, s, vc')"
  shows "only_svc vcls k vc vc'"
  using assms
  by (auto simp: HasConfig_def only_svc_def svc_addrs_def split: option.split_asm if_split_asm)

context varnish_admin
begin

lemma updateVarnishSvc_only:
  assumes "updateVarnishSvc ADM k vc = (e, vc')"
  shows "only_svc vcls k vc vc'"
  using assms
proof (cases rule: updateVarnishSvc_cases)
  case (5 svc sp src errs insts w)
  show ?thesis
  proof (rule only_svc_put [OF 5(1)])
    show "map vi_addr (vs_instances (svc\<lparr>vs_instances := insts,
        vs_spec := Some (set_spec Canonical_effect sp), vs_cfgLoaded := (errs = [])\<rparr>))
        = map vi_addr (vs_instances svc)"
      using inst_loop_keeps [OF 5(5) keeps_update] by simp
    show "vcls a (vc_world vc') = vcls a (vc_world vc)" if "a \<notin> set (svc_addrs k vc)" for a
      using inst_loop_frame [OF 5(5)] that 5(1,7) by (simp add: svc_addrs_def)
  qed (simp add: 5(7))
qed (auto simp: only_svc_def svc_addrs_def)

lemma Update_only:
  assumes "Update ADM k spec im vm bm vc = (e, vc')"
  shows "only_svc vcls k vc vc'"
proof -
  obtain svc where svc: "gm_get (vc_svcs (ensure_svc k vc)) k = Some svc" using ensure_svc_get by blast
  let ?svc = "svc\<lparr>vs_cfgLoaded := False,
      vs_spec := Some \<lparr>vm_spec = spec, vm_ings = im, vm_vcfg = vm, vm_bcfg = bm\<rparr>\<rparr>"
  let ?vc2 = "updateBeGauges (put_svc k ?svc (ensure_svc k vc))"
  have "only_svc vcls k (ensure_svc k vc) ?vc2"
    by (rule only_svc_put [OF svc]) (simp_all add: updateBeGauges_def)
  with ensure_svc_only have 2: "only_svc vcls k vc ?vc2" by (rule only_svc_trans)
  show ?thesis
  proof (cases "vs_instances svc = []")
    case True
    with assms svc 2 show ?thesis by (simp add: Update_def Let_def)
  next
    case False
    with assms svc have "updateVarnishSvc ADM k ?vc2 = (e, vc')" by (simp add: Update_def Let_def)
    from only_svc_trans [OF 2 updateVarnishSvc_only [OF this]] show ?thesis .
  qed
qed

lemma install_config_only:
  assumes "install_config W k cfg st = (r, st')" and "wk_admin W = ADM"
  shows "only_svc vcls k (ws_vc st) (ws_vc st')"
proof (cases "HasConfig k (Canonical_effect (ic_spec cfg)) (ic_ings cfg) (ic_vcfg cfg) (ic_bcfg cfg)
    (ws_vc st)")
  case (Ok x)
  then obtain b s vc1 where h: "HasConfig k (Canonical_effect (ic_spec cfg)) (ic_ings cfg)
      (ic_vcfg cfg) (ic_bcfg cfg) (ws_vc st) = Ok (b, s, vc1)" by (cases x) auto
  obtain e vc2 where u: "Update ADM k s (ic_ings cfg) (ic_vcfg cfg) (ic_bcfg cfg) vc1 = (e, vc2)"
    by fastforce
  have "ws_vc st' = (if b then vc1 else vc2)"
    using assms h u by (auto simp: install_config_def vc_call_def)
  with only_svc_trans [OF HasConfig_only [OF h] Update_only [OF u]] HasConfig_only [OF h]
  show ?thesis by simp
qed (use assms in \<open>auto simp: install_config_def\<close>)

end

section \<open>Records that can be relied upon\<close>

text \<open>The configuration \<open>sp\<close> that is stored for the Service is at each of its instances.\<close>

definition in_place ::
    "(string \<Rightarrow> 'w \<Rightarrow> VCLData list) \<Rightarrow> 'w \<Rightarrow> VarnishSvc \<Rightarrow> VclSpecMeta \<Rightarrow> bool" where
  "in_place vcls w svc sp \<longleftrightarrow>
     vs_spec svc = Some sp
     \<and> (\<forall>i \<in> set (vs_instances svc). configured (configName (vm_spec sp)) (vcls (vi_addr i) w))"

text \<open>What counts as loaded is in place.\<close>

definition svc_true :: "(string \<Rightarrow> 'w \<Rightarrow> VCLData list) \<Rightarrow> 'w Controller \<Rightarrow> string \<Rightarrow> bool" where
  "svc_true vcls vc k \<longleftrightarrow>
     (\<forall>svc. gm_get (vc_svcs vc) k = Some svc \<longrightarrow> vs_cfgLoaded svc \<longrightarrow>
        (\<exists>sp. in_place vcls (vc_world vc) svc sp))"

text \<open>Stored configurations are as the Ingress controller builds them.\<close>

definition good_meta :: "VclSpecMeta \<Rightarrow> bool" where
  "good_meta sp \<longleftrightarrow> gm_ok (vm_ings sp) \<and> gm_ok (vm_bcfg sp) \<and> spec_ports_agree (vm_spec sp)"

definition stored_good :: "'w Controller \<Rightarrow> string \<Rightarrow> bool" where
  "stored_good vc k \<longleftrightarrow>
     (\<forall>svc sp. gm_get (vc_svcs vc) k = Some svc \<longrightarrow> vs_spec svc = Some sp \<longrightarrow> good_meta sp)"

definition sound :: "(string \<Rightarrow> 'w \<Rightarrow> VCLData list) \<Rightarrow> 'w Controller \<Rightarrow> bool" where
  "sound vcls vc \<longleftrightarrow> addrs_apart vc \<and> (\<forall>k. stored_good vc k \<and> svc_true vcls vc k)"

text \<open>In the middle of an operation on the Service \<open>k\<close>.\<close>

definition sound_but :: "(string \<Rightarrow> 'w \<Rightarrow> VCLData list) \<Rightarrow> string \<Rightarrow> 'w Controller \<Rightarrow> bool" where
  "sound_but vcls k vc \<longleftrightarrow>
     addrs_apart vc \<and> (\<forall>j. stored_good vc j) \<and> (\<forall>j. j \<noteq> k \<longrightarrow> svc_true vcls vc j)"

lemma sound_iff: "sound vcls vc \<longleftrightarrow> sound_but vcls k vc \<and> svc_true vcls vc k"
proof
  assume s: "sound_but vcls k vc \<and> svc_true vcls vc k"
  have "svc_true vcls vc j" for j using s by (cases "j = k") (simp_all add: sound_but_def)
  with s show "sound vcls vc" by (simp add: sound_def sound_but_def)
qed (simp add: sound_def sound_but_def)

lemma sound_New: "sound vcls (NewVarnishController w)"
  by (simp add: sound_def addrs_apart_def svc_addrs_def svc_true_def stored_good_def
      NewVarnishController_def)

lemma good_meta_effect [simp]: "good_meta (set_spec Canonical_effect sp) = good_meta sp"
  by (simp add: good_meta_def set_spec_def effect_ports_agree)

lemma in_place_effect:
  "in_place vcls w svc sp \<Longrightarrow> good_meta sp \<Longrightarrow>
    in_place vcls w (svc\<lparr>vs_spec := Some (set_spec Canonical_effect sp)\<rparr>) (set_spec Canonical_effect sp)"
  by (simp add: in_place_def good_meta_def set_spec_def configName_effect)

text \<open>A change of the Service \<open>k\<close>, its addresses and what is at instances of no other Service.\<close>

lemma svc_true_frame:
  assumes "svc_true vcls vc j" and "gm_get (vc_svcs vc') j = gm_get (vc_svcs vc) j"
    and "\<And>a. a \<in> set (svc_addrs j vc) \<Longrightarrow> vcls a (vc_world vc') = vcls a (vc_world vc)"
  shows "svc_true vcls vc' j"
  unfolding svc_true_def
proof (intro allI impI)
  fix svc assume g: "gm_get (vc_svcs vc') j = Some svc" and l: "vs_cfgLoaded svc"
  have g': "gm_get (vc_svcs vc) j = Some svc" using g assms(2) by simp
  with assms(1) l obtain sp where p: "in_place vcls (vc_world vc) svc sp"
    unfolding svc_true_def by blast
  have "vcls (vi_addr i) (vc_world vc') = vcls (vi_addr i) (vc_world vc)"
    if "i \<in> set (vs_instances svc)" for i
    using assms(3) g' that by (simp add: svc_addrs_def)
  with p have "in_place vcls (vc_world vc') svc sp" by (simp add: in_place_def)
  then show "\<exists>sp. in_place vcls (vc_world vc') svc sp" by blast
qed

lemma sound_but_change:
  assumes "sound_but vcls k vc"
    and other: "\<And>j. j \<noteq> k \<Longrightarrow> gm_get (vc_svcs vc') j = gm_get (vc_svcs vc) j"
    and world: "\<And>j a. j \<noteq> k \<Longrightarrow> a \<in> set (svc_addrs j vc) \<Longrightarrow> vcls a (vc_world vc') = vcls a (vc_world vc)"
    and dist: "distinct (svc_addrs k vc')"
    and apart: "\<And>j. j \<noteq> k \<Longrightarrow> set (svc_addrs k vc') \<inter> set (svc_addrs j vc) = {}"
    and stored: "stored_good vc' k"
  shows "sound_but vcls k vc'"
proof -
  have addrs: "svc_addrs j vc' = svc_addrs j vc" if "j \<noteq> k" for j
    using other [OF that] by (simp add: svc_addrs_def)
  have "addrs_apart vc'"
    unfolding addrs_apart_def
  proof (intro conjI allI impI)
    show "distinct (svc_addrs j vc')" for j
      using assms(1) dist addrs [of j] by (cases "j = k") (simp_all add: sound_but_def addrs_apart_def)
    show "set (svc_addrs i vc') \<inter> set (svc_addrs j vc') = {}" if "i \<noteq> j" for i j
      using assms(1) that apart [of i] apart [of j] addrs [of i] addrs [of j]
      by (cases "i = k"; cases "j = k") (auto simp: sound_but_def addrs_apart_def)
  qed
  moreover have "stored_good vc' j" for j
    using assms(1) stored other [of j] by (cases "j = k") (simp_all add: sound_but_def stored_good_def)
  moreover have "svc_true vcls vc' j" if "j \<noteq> k" for j
    using assms(1) that by (intro svc_true_frame [OF _ other world]) (simp_all add: sound_but_def)
  ultimately show ?thesis by (simp add: sound_but_def)
qed

lemma sound_but_only:
  assumes "sound_but vcls k vc" and "only_svc vcls k vc vc'" and "stored_good vc' k"
  shows "sound_but vcls k vc'"
proof (rule sound_but_change [OF assms(1) _ _ _ _ assms(3)])
  have a: "addrs_apart vc" using assms(1) by (simp add: sound_but_def)
  fix j a assume j: "j \<noteq> k"
  show "gm_get (vc_svcs vc') j = gm_get (vc_svcs vc) j" using assms(2) j by (simp add: only_svc_def)
  show "set (svc_addrs k vc') \<inter> set (svc_addrs j vc) = {}"
    using a j assms(2) by (simp add: only_svc_def addrs_apart_def)
  assume "a \<in> set (svc_addrs j vc)"
  then have "a \<notin> set (svc_addrs k vc)" using a j by (auto simp: addrs_apart_def)
  with assms(2) show "vcls a (vc_world vc') = vcls a (vc_world vc)" by (simp add: only_svc_def)
next
  show "distinct (svc_addrs k vc')"
    using assms(1,2) by (simp add: only_svc_def sound_but_def addrs_apart_def)
qed

lemma sound_same:
  assumes "sound vcls vc" and "vc_svcs vc' = vc_svcs vc" and "vc_world vc' = vc_world vc"
  shows "sound vcls vc'"
  using assms by (simp add: sound_def addrs_apart_def svc_addrs_def stored_good_def svc_true_def)

lemma sound_has_spec: "sound vcls vc \<Longrightarrow> loaded_has_spec k vc"
  by (force simp: sound_def svc_true_def loaded_has_spec_def in_place_def)

section \<open>The operations keep the records reliable\<close>

lemma rem_insts_addr:
  "i \<in> set (rem_insts ord insts addrs) \<Longrightarrow> i \<in> set insts \<and> vi_addr i \<notin> adm_addr ` set addrs"
proof -
  assume i: "i \<in> set (rem_insts ord insts addrs)"
  then obtain a where a: "gm_get (update_addrs addrs) a = None" "gm_get (prev_addrs insts) a = Some i"
    by (auto simp: rem_insts_def split: if_split_asm option.split_asm)
  then have "vi_addr i = a" using prev_addrs_addr by blast
  moreover have "a \<notin> set (gm_keys (update_addrs addrs))"
    using a(1) unfolding update_addrs_keys
    by (auto simp: update_addrs_def gm_get_of_list map_of_eq_None_iff image_image)
  ultimately show ?thesis using i rem_insts_subset unfolding update_addrs_keys by blast
qed

lemma HasConfig_sound:
  assumes "HasConfig k spec im vm bm vc = Ok (b, s, vc')" and "sound vcls vc"
  shows "sound vcls vc'"
proof -
  note o = HasConfig_only [OF assms(1), of vcls]
  have "vc' = vc \<or> (\<exists>svc sp. gm_get (vc_svcs vc) k = Some svc \<and> vs_cfgLoaded svc \<and> vs_spec svc = Some sp
      \<and> vc' = put_svc k (svc\<lparr>vs_spec := Some (set_spec Canonical_effect sp)\<rparr>) vc)"
    using assms(1) by (auto simp: HasConfig_def split: option.split_asm if_split_asm)
  then show ?thesis
  proof (elim disjE exE conjE)
    fix svc sp
    assume g: "gm_get (vc_svcs vc) k = Some svc" "vs_cfgLoaded svc" "vs_spec svc = Some sp"
      and vc': "vc' = put_svc k (svc\<lparr>vs_spec := Some (set_spec Canonical_effect sp)\<rparr>) vc"
    have m: "good_meta sp" using assms(2) g by (auto simp: sound_def stored_good_def)
    have "in_place vcls (vc_world vc) svc sp"
      using assms(2) g by (force simp: sound_def svc_true_def in_place_def)
    from in_place_effect [OF this m] have "svc_true vcls vc' k" by (auto simp: svc_true_def vc')
    moreover have "stored_good vc' k" using m by (simp add: stored_good_def vc')
    ultimately show ?thesis
      using sound_but_only [OF _ o] assms(2) sound_iff [of vcls _ k] by blast
  qed (use assms(2) in simp)
qed

context varnish_admin
begin

text \<open>After \<open>updateVarnishSvc\<close> the records are reliable, whatever those of its Service were before.\<close>

lemma updateVarnishSvc_sound:
  assumes "updateVarnishSvc ADM k vc = (e, vc')" and "sound_but vcls k vc"
  shows "sound vcls vc'"
proof -
  have g: "stored_good vc k" and d: "distinct (svc_addrs k vc)"
    using assms(2) by (simp_all add: sound_but_def addrs_apart_def)
  have "stored_good vc' k \<and> svc_true vcls vc' k"
    using assms(1)
  proof (cases rule: updateVarnishSvc_cases)
    case (5 svc sp src errs insts w)
    have m: "good_meta sp" using g 5(1,3) by (simp add: stored_good_def)
    have addrs: "map vi_addr insts = map vi_addr (vs_instances svc)"
      using inst_loop_keeps [OF 5(5) keeps_update] by blast
    have "configured (configName (vm_spec sp)) (vcls (vi_addr i) w)" if "i \<in> set insts" "errs = []" for i
    proof -
      from that addrs obtain j where "j \<in> set (vs_instances svc)" "vi_addr i = vi_addr j"
        by (metis image_iff list.set_map)
      with inst_loop_configured [OF 5(5), of j] d 5(1) that(2) show ?thesis
        by (simp add: svc_addrs_def)
    qed
    with m show ?thesis
      by (auto simp: 5(7) stored_good_def svc_true_def in_place_def set_spec_def good_meta_def
          configName_effect)
  qed (use g in \<open>auto simp: stored_good_def svc_true_def\<close>)
  moreover from this sound_but_only [OF assms(2) updateVarnishSvc_only [OF assms(1)]]
  have "sound_but vcls k vc'" by blast
  ultimately show ?thesis using sound_iff by blast
qed

lemma Update_sound:
  assumes "Update ADM k spec im vm bm vc = (e, vc')" and "sound vcls vc"
    and "spec_ports_agree spec" and "gm_ok im" and "gm_ok bm"
  shows "sound vcls vc'"
proof -
  obtain svc where svc: "gm_get (vc_svcs (ensure_svc k vc)) k = Some svc" using ensure_svc_get by blast
  let ?svc = "svc\<lparr>vs_cfgLoaded := False,
      vs_spec := Some \<lparr>vm_spec = spec, vm_ings = im, vm_vcfg = vm, vm_bcfg = bm\<rparr>\<rparr>"
  let ?vc2 = "updateBeGauges (put_svc k ?svc (ensure_svc k vc))"
  have g: "gm_get (vc_svcs ?vc2) j = (if j = k then Some ?svc else gm_get (vc_svcs (ensure_svc k vc)) j)" for j
    by (simp add: updateBeGauges_def)
  have "only_svc vcls k (ensure_svc k vc) ?vc2"
    by (rule only_svc_put [OF svc]) (simp_all add: updateBeGauges_def)
  with ensure_svc_only have o: "only_svc vcls k vc ?vc2" by (rule only_svc_trans)
  have "stored_good ?vc2 k" and t: "svc_true vcls ?vc2 k"
    using assms(3-5) g [of k] by (auto simp: stored_good_def svc_true_def good_meta_def)
  with sound_but_only [OF _ o] assms(2) have 2: "sound_but vcls k ?vc2" using sound_iff by blast
  show ?thesis
  proof (cases "vs_instances svc = []")
    case True
    with assms(1) svc have "vc' = ?vc2" by (simp add: Update_def Let_def)
    with 2 t show ?thesis using sound_iff by blast
  next
    case False
    with assms(1) svc have "updateVarnishSvc ADM k ?vc2 = (e, vc')" by (simp add: Update_def Let_def)
    from updateVarnishSvc_sound [OF this 2] show ?thesis .
  qed
qed

lemma UpdateSvcForSecret_sound:
  assumes "UpdateSvcForSecret ADM k sk vc = (e, vc')" and "sound vcls vc"
  shows "sound vcls vc'"
proof (cases "gm_get (vc_svcs vc) k = None \<and> gm_get (vc_secrets vc) sk = None")
  case True
  with assms show ?thesis by (simp add: UpdateSvcForSecret_def)
next
  case False
  obtain svc where svc: "gm_get (vc_svcs (ensure_svc k vc)) k = Some svc" using ensure_svc_get by blast
  let ?s = "gm_get (vc_secrets vc) sk"
  let ?svc = "svc\<lparr>vs_secrName := (if ?s = None then [] else sk),
      vs_instances := map (set_secret ?s) (vs_instances svc)\<rparr>"
  let ?vc1 = "put_svc k ?svc (ensure_svc k vc)"
  have "only_svc vcls k (ensure_svc k vc) ?vc1"
    by (rule only_svc_put [OF svc]) (simp_all add: comp_def)
  with ensure_svc_only have o: "only_svc vcls k vc ?vc1" by (rule only_svc_trans)
  have "stored_good (ensure_svc k vc) k"
    using assms(2) by (auto simp: sound_def stored_good_def ensure_svc_def new_VarnishSvc_def
        split: option.split)
  with svc have "stored_good ?vc1 k" by (simp add: stored_good_def)
  with sound_but_only [OF _ o] assms(2) have "sound_but vcls k ?vc1" using sound_iff by blast
  moreover from assms(1) svc False have "updateVarnishSvc ADM k ?vc1 = (e, vc')"
    by (auto simp: UpdateSvcForSecret_def Let_def)
  ultimately show ?thesis using updateVarnishSvc_sound by blast
qed

text \<open>Labelling instances not available touches them alone.\<close>

lemma not_available_frame:
  assumes "not_available ADM heap b i w = (e, i', w')" and "x \<noteq> vi_addr i"
  shows "vcls x w' = vcls x w"
proof (cases "vi_admSecret i")
  case None
  with assms(1) show ?thesis by (simp add: not_available_def setCfgLabel_def)
next
  case (Some p)
  obtain d w1 where d: "adm_Dial ADM (vi_addr i) (deref heap p) w = (d, w1)" by fastforce
  note f = dial_vcls [OF d]
  show ?thesis
  proof (cases d)
    case (Inl a)
    with assms(1) Some d f show ?thesis by (auto simp: not_available_def setCfgLabel_def)
  next
    case (Inr cb)
    then obtain c bn where cb: "cb = (c, bn)" by fastforce
    obtain e2 w2 where l: "adm_VCLLabel ADM c readinessLabel notAvailCfg w1 = (e2, w2)" by fastforce
    have "at w1 c (vi_addr i)" using dial_ok d Inr cb by blast
    from label_frame [OF this l] assms(2) f have "vcls x w2 = vcls x w" by simp
    then show ?thesis
      using assms(1) Some d Inr cb l close_vcls
      by (auto simp: not_available_def setCfgLabel_def split: option.split_asm if_split_asm)
  qed
qed

lemma not_available_loop_frame:
  assumes "inst_loop (not_available ADM heap b) is w = (errs, is', w')" and "x \<notin> vi_addr ` set is"
  shows "vcls x w' = vcls x w"
  using assms
proof (induction "is" arbitrary: w errs is' w')
  case (Cons i "is")
  obtain e i1 w1 where u: "not_available ADM heap b i w = (e, i1, w1)" by (rule prod_cases3)
  obtain er is1 w2 where l: "inst_loop (not_available ADM heap b) is w1 = (er, is1, w2)"
    by (rule prod_cases3)
  from Cons.prems(1) u l have "w' = w2" by simp
  with Cons.IH [OF l] not_available_frame [OF u] Cons.prems(2) show ?case by auto
qed simp

text \<open>
  The part of \<open>AddOrUpdateVarnishSvc\<close> before the loading: the Service has the new addresses, its
  configuration is as it was, and only instances that leave were sent a command.
\<close>

lemma AddOrUpdateVarnishSvc_parts:
  assumes "AddOrUpdateVarnishSvc ADM ord k addrs secr load vc = (e, vc')" and "map_order_ok ord"
  obtains vc3 svc svc3 where
    "gm_get (vc_svcs (add_svc k addrs vc)) k = Some svc"
    "gm_get (vc_svcs vc3) k = Some svc3" "vs_spec svc3 = vs_spec svc"
    "vs_cfgLoaded svc3 = vs_cfgLoaded svc"
    "\<And>j. j \<noteq> k \<Longrightarrow> gm_get (vc_svcs vc3) j = gm_get (vc_svcs vc) j"
    "set (svc_addrs k vc3) = adm_addr ` set addrs" "distinct (svc_addrs k vc3)"
    "\<And>a. a \<notin> set (svc_addrs k vc) - adm_addr ` set addrs \<Longrightarrow>
       vcls a (vc_world vc3) = vcls a (vc_world vc)"
    "if load then \<exists>e. updateVarnishSvc ADM k vc3 = (e, vc') else vc' = vc3"
proof -
  let ?vc1 = "add_svc k addrs vc" and ?p = "gm_get (vc_secrets (add_svc k addrs vc)) secr"
  obtain svc where svc: "gm_get (vc_svcs ?vc1) k = Some svc"
    by (cases "gm_get (vc_svcs vc) k") (auto simp: add_svc_def)
  let ?is = "map (set_secret ?p) (vs_instances svc)"
  let ?svc = "svc\<lparr>vs_secrName := secr, vs_instances := ?is\<rparr>"
  let ?new = "new_insts ord ?p ?is addrs"
  let ?insts = "keep_insts ord ?is addrs @ ?new"
  let ?vc2 = "(put_svc k (?svc\<lparr>vs_instances := ?insts\<rparr>) (put_svc k ?svc ?vc1))
      \<lparr>vc_instsGauge := vc_instsGauge ?vc1 + int (length ?new)\<rparr>"
  obtain errs is' vc3 where r: "removeVarnishInstances ADM (rem_insts ord ?is addrs) ?vc2
      = (errs, is', vc3)" by (rule prod_cases3)
  obtain e4 vc4 where u: "updateVarnishSvc ADM k vc3 = (e4, vc4)" by fastforce
  have put3: "vc_svcs vc3 = vc_svcs ?vc2" by (rule removeVarnishInstances_simps(1) [OF r])
  have old: "set (map vi_addr (vs_instances svc)) \<subseteq> set (svc_addrs k vc) \<union> adm_addr ` set addrs"
    using svc by (auto simp: add_svc_def svc_addrs_def new_inst_def split: option.split_asm)
  have new: "mset (svc_addrs k vc3) = mset (gm_keys (update_addrs addrs))"
    using new_addresses [OF assms(2), of ?is addrs ?p] put3 by (simp add: svc_addrs_def)
  show ?thesis
  proof (rule that [OF svc])
    show "gm_get (vc_svcs vc3) k = Some (?svc\<lparr>vs_instances := ?insts\<rparr>)" using put3 by simp
    show "gm_get (vc_svcs vc3) j = gm_get (vc_svcs vc) j" if "j \<noteq> k" for j
      using that put3 by (simp add: add_svc_def split: option.split)
    show "set (svc_addrs k vc3) = adm_addr ` set addrs"
      using new update_addrs_keys by (metis set_mset_mset)
    show "distinct (svc_addrs k vc3)"
      using mset_eq_imp_distinct_iff [OF new] update_addrs_distinct by blast
    show "if load then \<exists>e. updateVarnishSvc ADM k vc3 = (e, vc') else vc' = vc3"
      using assms(1) svc r u
      by (simp add: AddOrUpdateVarnishSvc_def updateVarnishSvcAddrs_def Let_def
          split: if_split_asm option.split_asm vc_error.split_asm)
    fix a assume "a \<notin> set (svc_addrs k vc) - adm_addr ` set addrs"
    moreover have "vi_addr i \<in> set (map vi_addr (vs_instances svc)) - adm_addr ` set addrs"
      if "i \<in> set (rem_insts ord ?is addrs)" for i using rem_insts_addr [OF that] by auto
    ultimately have n: "a \<notin> vi_addr ` set (rem_insts ord ?is addrs)" using old by blast
    obtain w where l: "inst_loop (not_available ADM (vc_heap ?vc2) True) (rem_insts ord ?is addrs)
        (vc_world ?vc2) = (errs, is', w)" and "vc_world vc3 = w"
      using r by (auto simp: removeVarnishInstances_def split: prod.split_asm)
    with not_available_loop_frame [OF l n]
    show "vcls a (vc_world vc3) = vcls a (vc_world vc)"
      by (simp add: add_svc_def split: option.split_asm)
  qed simp_all
qed

lemma AddOrUpdateVarnishSvc_sound:
  assumes "AddOrUpdateVarnishSvc ADM ord k addrs secr True vc = (e, vc')" and "sound vcls vc"
    and "map_order_ok ord"
    and free: "\<And>j. j \<noteq> k \<Longrightarrow> adm_addr ` set addrs \<inter> set (svc_addrs j vc) = {}"
  shows "sound vcls vc'"
proof -
  obtain vc3 svc svc3 e' where svc: "gm_get (vc_svcs (add_svc k addrs vc)) k = Some svc"
    "gm_get (vc_svcs vc3) k = Some svc3" "vs_spec svc3 = vs_spec svc"
    and other: "\<And>j. j \<noteq> k \<Longrightarrow> gm_get (vc_svcs vc3) j = gm_get (vc_svcs vc) j"
    and addrs: "set (svc_addrs k vc3) = adm_addr ` set addrs" "distinct (svc_addrs k vc3)"
    and frame: "\<And>a. a \<notin> set (svc_addrs k vc) - adm_addr ` set addrs \<Longrightarrow>
       vcls a (vc_world vc3) = vcls a (vc_world vc)"
    and u: "updateVarnishSvc ADM k vc3 = (e', vc')"
    by (rule AddOrUpdateVarnishSvc_parts [OF assms(1,3)]) auto
  have "sound_but vcls k vc3"
  proof (rule sound_but_change [OF _ other _ addrs(2)])
    show "sound_but vcls k vc" using assms(2) sound_iff by blast
    have "stored_good (add_svc k addrs vc) k"
      using assms(2) by (auto simp: sound_def stored_good_def add_svc_def new_VarnishSvc_def
          split: option.split)
    with svc show "stored_good vc3 k" by (simp add: stored_good_def)
    fix j assume j: "j \<noteq> k"
    show "set (svc_addrs k vc3) \<inter> set (svc_addrs j vc) = {}" using free [OF j] addrs(1) by simp
    fix a assume "a \<in> set (svc_addrs j vc)"
    then have "a \<notin> set (svc_addrs k vc)" using assms(2) j by (auto simp: sound_def addrs_apart_def)
    then show "vcls a (vc_world vc3) = vcls a (vc_world vc)" using frame by simp
  qed
  from updateVarnishSvc_sound [OF u this] show ?thesis .
qed

text \<open>
  Without loading, instances that join a Service whose configuration counts as loaded are told
  nothing, and the next synchronisation finds the configuration loaded.
\<close>

lemma joined_not_configured:
  assumes "AddOrUpdateVarnishSvc ADM ord k addrs secr False vc = (e, vc')" and "map_order_ok ord"
    and "gm_get (vc_svcs vc) k = Some svc" and "vs_cfgLoaded svc" and "vs_spec svc = Some sp"
    and "a \<in> adm_addr ` set addrs"
  shows "a \<in> set (svc_addrs k vc') \<and> vcls a (vc_world vc') = vcls a (vc_world vc)
     \<and> (\<exists>svc'. gm_get (vc_svcs vc') k = Some svc' \<and> vs_cfgLoaded svc' \<and> vs_spec svc' = Some sp)"
proof -
  from AddOrUpdateVarnishSvc_parts [OF assms(1,2)] obtain svc0 svc3 where
    s: "gm_get (vc_svcs (add_svc k addrs vc)) k = Some svc0" "gm_get (vc_svcs vc') k = Some svc3"
    "vs_spec svc3 = vs_spec svc0" "vs_cfgLoaded svc3 = vs_cfgLoaded svc0"
    "set (svc_addrs k vc') = adm_addr ` set addrs"
    and f: "a \<notin> set (svc_addrs k vc) - adm_addr ` set addrs \<Longrightarrow>
       vcls a (vc_world vc') = vcls a (vc_world vc)" by (metis (full_types))
  from s(1) assms(3) have "svc0 = svc" by (simp add: add_svc_def)
  with s f assms(4-6) show ?thesis by auto
qed

end

lemma SetAdmSecret_sound: "sound vcls vc \<Longrightarrow> sound vcls (SetAdmSecret k s vc)"
  by (erule sound_same) (simp_all add: SetAdmSecret_def split: option.split)

lemma DeleteAdmSecret_sound: "sound vcls vc \<Longrightarrow> sound vcls (DeleteAdmSecret k vc)"
  by (erule sound_same) (simp_all add: DeleteAdmSecret_def)

context varnish_monitor
begin

lemma monitor_svc_sound:
  assumes "monitor_svc ADM k vc = (evs, vc')" and "sound vcls vc"
  shows "sound vcls vc'"
proof (cases "gm_get (vc_svcs vc) k")
  case None
  with assms show ?thesis by (simp add: monitor_svc_def)
next
  case (Some svc)
  obtain good ev insts w e where
    l: "check_loop ADM (vc_heap vc) k (vs_instances svc) (vc_world vc) = (good, ev, insts, w)"
    and u: "updateVarnishSvc ADM k ((put_svc k (svc\<lparr>vs_instances := insts\<rparr>) vc)\<lparr>vc_world := w\<rparr>)
      = (e, vc')" using monitor_svc_cases [OF assms(1) Some] by metis
  let ?vc1 = "(put_svc k (svc\<lparr>vs_instances := insts\<rparr>) vc)\<lparr>vc_world := w\<rparr>"
  have addrs: "map vi_addr insts = map vi_addr (vs_instances svc)" using check_loop_keeps [OF l] by simp
  have "only_svc vcls k vc ?vc1"
  proof (rule only_svc_put [OF Some])
    show "map vi_addr (vs_instances (svc\<lparr>vs_instances := insts\<rparr>)) = map vi_addr (vs_instances svc)"
      using addrs by simp
    show "vcls a (vc_world ?vc1) = vcls a (vc_world vc)" if "a \<notin> set (svc_addrs k vc)" for a
      using check_loop_kept [OF l, of a] that Some by (simp add: svc_addrs_def)
  qed simp
  moreover have "stored_good ?vc1 k" using assms(2) Some by (simp add: sound_def stored_good_def)
  moreover have "sound_but vcls k vc" using assms(2) sound_iff by blast
  ultimately have "sound_but vcls k ?vc1" using sound_but_only by blast
  from updateVarnishSvc_sound [OF u this] show ?thesis .
qed

end

text \<open>
  The calls that keep the records reliable: all but \<open>SetNotReady\<close> and \<open>DeleteVarnishSvc\<close>, which relabel instances and
  leave \<open>cfgLoaded\<close> as it is, and \<open>AddOrUpdateVarnishSvc\<close> without loading, which adds instances and
  leaves \<open>cfgLoaded\<close> as it is.  Addresses that a Service gets are of no other Service.
\<close>

inductive good_step :: "'w admin \<Rightarrow> 'w Controller \<Rightarrow> 'w Controller \<Rightarrow> bool" for ADM where
  good_AddOrUpdate: "map_order_ok ord \<Longrightarrow>
     (\<And>j. j \<noteq> k \<Longrightarrow> adm_addr ` set addrs \<inter> set (svc_addrs j vc) = {}) \<Longrightarrow>
     AddOrUpdateVarnishSvc ADM ord k addrs secr True vc = (e, vc') \<Longrightarrow> good_step ADM vc vc'"
| good_Update: "spec_ports_agree spec \<Longrightarrow> gm_ok im \<Longrightarrow> gm_ok bm \<Longrightarrow>
     Update ADM k spec im vm bm vc = (e, vc') \<Longrightarrow> good_step ADM vc vc'"
| good_HasConfig: "HasConfig k spec im vm bm vc = Ok (b, s', vc') \<Longrightarrow> good_step ADM vc vc'"
| good_SetAdmSecret: "good_step ADM vc (SetAdmSecret k secret vc)"
| good_UpdateSvcForSecret: "UpdateSvcForSecret ADM k sk vc = (e, vc') \<Longrightarrow> good_step ADM vc vc'"
| good_DeleteAdmSecret: "good_step ADM vc (DeleteAdmSecret k vc)"
| good_monitor: "monitor_svc ADM k vc = (evs, vc') \<Longrightarrow> good_step ADM vc vc'"

inductive good_reach :: "'w admin \<Rightarrow> 'w Controller \<Rightarrow> bool" for ADM where
  good_init: "good_reach ADM (NewVarnishController w)"
| good_next: "good_reach ADM vc \<Longrightarrow> good_step ADM vc vc' \<Longrightarrow> good_reach ADM vc'"

inductive_cases good_stepE: "good_step ADM vc vc'"

lemma good_step_step: "good_step ADM vc vc' \<Longrightarrow> vc_step ADM vc vc'"
  by (erule good_stepE) (auto intro: vc_step.intros)

lemma good_reach_reach: "good_reach ADM vc \<Longrightarrow> vc_reach ADM vc"
  by (induction rule: good_reach.induct) (auto intro: vc_reach.intros good_step_step)

context varnish_monitor
begin

lemma good_step_sound:
  assumes "good_step ADM vc vc'" and "sound vcls vc"
  shows "sound vcls vc'"
  using assms(1)
proof (cases rule: good_step.cases)
  case (good_AddOrUpdate ord k addrs secr e)
  show ?thesis
    by (rule AddOrUpdateVarnishSvc_sound [OF good_AddOrUpdate(3) assms(2) good_AddOrUpdate(1,2)])
next
  case (good_Update spec im bm k vm e)
  show ?thesis by (rule Update_sound [OF good_Update(4) assms(2) good_Update(1-3)])
next
  case good_HasConfig
  show ?thesis by (rule HasConfig_sound [OF good_HasConfig assms(2)])
next
  case good_UpdateSvcForSecret
  show ?thesis by (rule UpdateSvcForSecret_sound [OF good_UpdateSvcForSecret assms(2)])
next
  case good_monitor
  show ?thesis by (rule monitor_svc_sound [OF good_monitor assms(2)])
qed (simp_all add: SetAdmSecret_sound [OF assms(2)] DeleteAdmSecret_sound [OF assms(2)])

lemma good_reach_sound: "good_reach ADM vc \<Longrightarrow> sound vcls vc"
  by (induction rule: good_reach.induct) (auto intro: sound_New good_step_sound)

end

section \<open>Installing a configuration\<close>

text \<open>The Service \<open>k\<close> has the configuration \<open>cfg\<close>.\<close>

definition serves ::
    "(string \<Rightarrow> 'w \<Rightarrow> VCLData list) \<Rightarrow> string \<Rightarrow> IngConfig \<Rightarrow> 'w Controller \<Rightarrow> bool" where
  "serves vcls k cfg vc \<longleftrightarrow>
     (\<exists>svc sp. gm_get (vc_svcs vc) k = Some svc \<and> vs_cfgLoaded svc \<and> in_place vcls (vc_world vc) svc sp
        \<and> Canonical (vm_spec sp) = Canonical (ic_spec cfg) \<and> vm_ings sp = ic_ings cfg
        \<and> vm_vcfg sp = ic_vcfg cfg \<and> vm_bcfg sp = ic_bcfg cfg)"

text \<open>An operation on another Service leaves a Service as it is.\<close>

lemma serves_other:
  assumes "serves vcls k' cfg vc" and "only_svc vcls k vc vc'" and "addrs_apart vc" and "k' \<noteq> k"
  shows "serves vcls k' cfg vc'"
proof -
  from assms(1) obtain svc sp where s: "gm_get (vc_svcs vc) k' = Some svc" "vs_cfgLoaded svc"
    "in_place vcls (vc_world vc) svc sp" "Canonical (vm_spec sp) = Canonical (ic_spec cfg)"
    "vm_ings sp = ic_ings cfg" "vm_vcfg sp = ic_vcfg cfg" "vm_bcfg sp = ic_bcfg cfg"
    by (auto simp: serves_def)
  have "vcls (vi_addr i) (vc_world vc') = vcls (vi_addr i) (vc_world vc)"
    if "i \<in> set (vs_instances svc)" for i
  proof -
    from that s(1) have "vi_addr i \<in> set (svc_addrs k' vc)" by (simp add: svc_addrs_def)
    with assms(3,4) have "vi_addr i \<notin> set (svc_addrs k vc)" by (auto simp: addrs_apart_def)
    with assms(2) show ?thesis by (simp add: only_svc_def)
  qed
  with s(3) have "in_place vcls (vc_world vc') svc sp" by (simp add: in_place_def)
  moreover have "gm_get (vc_svcs vc') k' = Some svc" using s(1) assms(2,4) by (simp add: only_svc_def)
  ultimately show ?thesis using s unfolding serves_def by blast
qed

text \<open>When \<open>HasConfig\<close> answers true, the instances have the configuration.\<close>

lemma HasConfig_in_place:
  assumes "HasConfig k spec im vm bm vc = Ok (True, s, vc')" and "sound vcls vc"
    and "gm_ok im" and "gm_ok bm"
  shows "\<exists>svc sp. gm_get (vc_svcs vc') k = Some svc \<and> vs_cfgLoaded svc
     \<and> in_place vcls (vc_world vc') svc sp \<and> Canonical (vm_spec sp) = Canonical spec
     \<and> vm_ings sp = im \<and> vm_vcfg sp = vm \<and> vm_bcfg sp = bm"
proof -
  obtain svc sp where g: "gm_get (vc_svcs vc) k = Some svc" "vs_cfgLoaded svc" "vs_spec svc = Some sp"
    and vc': "vc' = put_svc k (svc\<lparr>vs_spec := Some (set_spec Canonical_effect sp)\<rparr>) vc"
    using assms(1) by (auto simp: HasConfig_def split: option.split_asm if_split_asm)
  have m: "good_meta sp" using assms(2) g by (auto simp: sound_def stored_good_def)
  have p: "in_place vcls (vc_world vc) svc sp"
    using assms(2) g by (force simp: sound_def svc_true_def in_place_def)
  have "im = vm_ings sp \<and> bm = vm_bcfg sp \<and> vm = vm_vcfg sp \<and> Canonical (vm_spec sp) = Canonical spec"
    using HasConfig_iff [OF g(1,3) assms(3,4), of spec vm] m assms(1)
    by (auto simp: good_meta_def)
  with in_place_effect [OF p m] m g(2) show ?thesis
    by (auto simp: vc' set_spec_def Canonical_of_effect good_meta_def)
qed

lemma HasConfig_serves:
  assumes "HasConfig k (Canonical_effect (ic_spec cfg)) (ic_ings cfg) (ic_vcfg cfg) (ic_bcfg cfg) vc
      = Ok (True, s, vc')"
    and "sound vcls vc" and "config_good cfg"
  shows "serves vcls k cfg vc'"
  using HasConfig_in_place [OF assms(1,2)] assms(3)
  by (auto simp: serves_def config_good_def Canonical_of_effect)

lemma Update_stored:
  assumes "Update ADM k spec im vm bm vc = (None, vc')"
  shows "\<exists>svc. gm_get (vc_svcs vc') k = Some svc \<and> vs_cfgLoaded svc
     \<and> vs_spec svc = Some \<lparr>vm_spec = Canonical_effect spec, vm_ings = im, vm_vcfg = vm, vm_bcfg = bm\<rparr>"
proof -
  obtain svc where svc: "gm_get (vc_svcs (ensure_svc k vc)) k = Some svc" using ensure_svc_get by blast
  let ?svc = "svc\<lparr>vs_cfgLoaded := False,
      vs_spec := Some \<lparr>vm_spec = spec, vm_ings = im, vm_vcfg = vm, vm_bcfg = bm\<rparr>\<rparr>"
  have "updateVarnishSvc ADM k (updateBeGauges (put_svc k ?svc (ensure_svc k vc))) = (None, vc')"
    using assms svc by (auto simp: Update_def Let_def split: if_split_asm)
  then show ?thesis
  proof (cases rule: updateVarnishSvc_cases)
    case (5 svc1 sp src errs insts w)
    then show ?thesis by (auto simp: updateBeGauges_def set_spec_def errs_result_def split: if_split_asm)
  qed (auto simp: updateBeGauges_def)
qed

context varnish_admin
begin

lemma install_config_sound:
  assumes "install_config W k cfg st = (r, st')" and "wk_admin W = ADM"
    and "sound vcls (ws_vc st)" and "config_good cfg"
  shows "sound vcls (ws_vc st')" and "r = Ok () \<Longrightarrow> serves vcls k cfg (ws_vc st')" and "r \<noteq> Panic"
proof -
  have g: "spec_ports_agree (ic_spec cfg)" "gm_ok (ic_ings cfg)" "gm_ok (ic_bcfg cfg)"
    using assms(4) by (simp_all add: config_good_def)
  show np: "r \<noteq> Panic"
    using install_config_Panic_iff [of W k cfg st] assms(1) sound_has_spec [OF assms(3)] by auto
  obtain b s vc1 where h: "HasConfig k (Canonical_effect (ic_spec cfg)) (ic_ings cfg)
      (ic_vcfg cfg) (ic_bcfg cfg) (ws_vc st) = Ok (b, s, vc1)"
    using np assms(1)
    by (cases "HasConfig k (Canonical_effect (ic_spec cfg)) (ic_ings cfg)
      (ic_vcfg cfg) (ic_bcfg cfg) (ws_vc st)") (auto simp: install_config_def)
  obtain e vc2 where u: "Update ADM k s (ic_ings cfg) (ic_vcfg cfg) (ic_bcfg cfg) vc1 = (e, vc2)"
    by fastforce
  have s: "Canonical s = Canonical (ic_spec cfg)" "spec_ports_agree s"
    using HasConfig_spec [OF h] g(1) by (simp_all add: Canonical_of_effect)
  note sound2 = Update_sound [OF u HasConfig_sound [OF h assms(3)] s(2) g(2,3)]
  show snd: "sound vcls (ws_vc st')"
    using sound2 HasConfig_sound [OF h assms(3)] assms(1,2) h u
    by (cases b) (auto simp: install_config_def vc_call_def)
  show "serves vcls k cfg (ws_vc st')" if "r = Ok ()"
  proof (cases b)
    case True
    then have "HasConfig k (Canonical_effect (ic_spec cfg)) (ic_ings cfg) (ic_vcfg cfg) (ic_bcfg cfg)
        (ws_vc st) = Ok (True, s, vc1)" using h by simp
    from HasConfig_serves [OF this assms(3,4)] assms(1) h True show ?thesis
      by (auto simp: install_config_def)
  next
    case False
    with assms(1,2) h u that have "e = None" and st': "ws_vc st' = vc2"
      by (auto simp: install_config_def vc_call_def split: option.split_asm)
    from Update_stored [OF u [unfolded this(1)]] obtain svc where
      f: "gm_get (vc_svcs vc2) k = Some svc" "vs_cfgLoaded svc"
      "vs_spec svc = Some \<lparr>vm_spec = Canonical_effect s, vm_ings = ic_ings cfg, vm_vcfg = ic_vcfg cfg,
         vm_bcfg = ic_bcfg cfg\<rparr>" by blast
    with sound2 obtain sp where "in_place vcls (vc_world vc2) svc sp"
      unfolding sound_def svc_true_def by blast
    with f s st' show ?thesis by (auto simp: serves_def in_place_def Canonical_of_effect)
  qed
qed

text \<open>A configuration that is recorded as loaded is found, and nothing is sent.\<close>

lemma HasConfig_found:
  assumes "gm_get (vc_svcs vc) k = Some svc" and "vs_cfgLoaded svc" and "vs_spec svc = Some sp"
    and "Canonical (vm_spec sp) = Canonical (ic_spec cfg)" and "vm_ings sp = ic_ings cfg"
    and "vm_vcfg sp = ic_vcfg cfg" and "vm_bcfg sp = ic_bcfg cfg" and "config_good cfg"
  shows "\<exists>t vc'. HasConfig k (Canonical_effect (ic_spec cfg)) (ic_ings cfg) (ic_vcfg cfg) (ic_bcfg cfg)
       vc = Ok (True, t, vc') \<and> vc_world vc' = vc_world vc"
proof -
  have "vs_spec svc = Some \<lparr>vm_spec = vm_spec sp, vm_ings = ic_ings cfg, vm_vcfg = ic_vcfg cfg,
      vm_bcfg = ic_bcfg cfg\<rparr>" using assms(3,5-7) by simp
  moreover have "gm_ok (ic_ings cfg)" "gm_ok (ic_bcfg cfg)" "spec_ports_agree (ic_spec cfg)"
    using assms(8) by (simp_all add: config_good_def)
  ultimately show ?thesis
    using HasConfig_after [OF assms(1,2), of "vm_spec sp" "ic_ings cfg" "ic_vcfg cfg" "ic_bcfg cfg"
        "Canonical_effect (ic_spec cfg)"] assms(4)
    by (simp add: Canonical_of_effect)
qed

lemma install_config_found:
  assumes "gm_get (vc_svcs (ws_vc st)) k = Some svc" and "vs_cfgLoaded svc" and "vs_spec svc = Some sp"
    and "Canonical (vm_spec sp) = Canonical (ic_spec cfg)" and "vm_ings sp = ic_ings cfg"
    and "vm_vcfg sp = ic_vcfg cfg" and "vm_bcfg sp = ic_bcfg cfg" and "config_good cfg"
  shows "\<exists>st'. install_config W k cfg st = (Ok (), st')
     \<and> vc_world (ws_vc st') = vc_world (ws_vc st)"
  using HasConfig_found [OF assms] by (auto simp: install_config_def)

lemma install_config_stays:
  assumes "install_config W k cfg st = (r, st')" and "sound vcls (ws_vc st)" and "config_good cfg"
    and "serves vcls k cfg (ws_vc st)"
  shows "r = Ok () \<and> vc_world (ws_vc st') = vc_world (ws_vc st)"
  using assms(1,4) install_config_found [OF _ _ _ _ _ _ _ assms(3), of st k _ _ W]
  by (fastforce simp: serves_def in_place_def)

end

section \<open>Sequences of synchronisations\<close>

text \<open>The Varnish Service and the configuration that an Ingress asks for.\<close>

definition asked :: "'w Worker \<Rightarrow> Ingress \<Rightarrow> (string \<times> IngConfig) option" where
  "asked W ing =
     (case getVarnishSvcForIng (wk_listers W) (wk_namespace W) ing of
        Ok (Some svc) \<Rightarrow>
          (case getIngsForVarnishSvc (wk_listers W) (wk_namespace W) (wk_ingClass W) svc of
             Ok ings \<Rightarrow>
               (case build_config W svc ings of
                  Ok cfg \<Rightarrow> if ings = [] then None else Some (svc_key svc, cfg)
                | _ \<Rightarrow> None)
           | _ \<Rightarrow> None)
      | _ \<Rightarrow> None)"

text \<open>A Varnish Service that an Ingress names has Ingresses, with validated sources.\<close>

definition ing_ready :: "'w Worker \<Rightarrow> Ingress \<Rightarrow> bool" where
  "ing_ready W ing \<longleftrightarrow>
     (\<forall>svc ings. getVarnishSvcForIng (wk_listers W) (wk_namespace W) ing = Ok (Some svc) \<longrightarrow>
        getIngsForVarnishSvc (wk_listers W) (wk_namespace W) (wk_ingClass W) svc = Ok ings \<longrightarrow>
        ings \<noteq> [] \<and> sources_ok W ings)"

text \<open>The lister has one Service for a key.\<close>

definition svc_keys_unique :: "Listers \<Rightarrow> string \<Rightarrow> bool" where
  "svc_keys_unique L ns \<longleftrightarrow>
     (\<forall>svcs nsSvcs. l_svc_List L = Inr svcs \<longrightarrow>
        inj_on svc_key (set svcs)
        \<and> (l_svc_ns_List L ns = Inr nsSvcs \<longrightarrow> set nsSvcs \<subseteq> set svcs))"

text \<open>One Ingress after the other; an error does not end the sequence.\<close>

fun sync_all ::
    "'w Worker \<Rightarrow> Ingress list \<Rightarrow> 'w WState \<Rightarrow> (worker_error, unit) outcome list \<times> 'w WState" where
  "sync_all W [] st = ([], st)"
| "sync_all W (ing # ings) st =
     (case addOrUpdateIng W ing st of
        (r, st1) \<Rightarrow> (case sync_all W ings st1 of (rs, st2) \<Rightarrow> (r # rs, st2)))"

lemma getVarnishSvcForIng_in:
  assumes "getVarnishSvcForIng L ns ing = Ok (Some svc)" and "svc_keys_unique L ns"
  shows "\<exists>svcs. l_svc_List L = Inr svcs \<and> svc \<in> set svcs"
proof -
  from assms(1) obtain svcs where l: "l_svc_List L = Inr svcs"
    by (auto simp: getVarnishSvcForIng_def obind_Ok_iff)
  have one: "xs = [svc] \<or> y = Ok (Some svc)" if "(case xs of [x] \<Rightarrow> Ok (Some x) | _ \<Rightarrow> y) = Ok (Some svc)"
    for xs and y :: "(ctl_error, KService option) outcome"
    using that by (auto split: list.split_asm)
  have "svc \<in> set svcs \<or> (\<exists>nsSvcs. l_svc_ns_List L ns = Inr nsSvcs \<and> svc \<in> set nsSvcs)"
  proof (cases "gm_get (om_Annotations (ing_Meta ing)) varnishSvcKey")
    case None
    with assms(1) l show ?thesis
      by (auto simp: getVarnishSvcForIng_def obind_Ok_iff dest!: one)
  next
    case (Some v)
    with assms(1) l show ?thesis
      by (auto simp: getVarnishSvcForIng_def obind_Ok_iff find_Some_iff)
  qed
  with assms(2) l show ?thesis by (auto simp: svc_keys_unique_def)
qed

lemma asked_Some:
  assumes "asked W ing = Some (k, cfg)"
  obtains svc ings where "getVarnishSvcForIng (wk_listers W) (wk_namespace W) ing = Ok (Some svc)"
    "getIngsForVarnishSvc (wk_listers W) (wk_namespace W) (wk_ingClass W) svc = Ok ings"
    "ings \<noteq> []" "build_config W svc ings = Ok cfg" "k = svc_key svc"
  using assms that
  by (auto simp: asked_def split: outcome.split_asm option.split_asm if_split_asm)

lemma asked_unique:
  assumes "asked W ing = Some (k, cfg)" and "asked W ing' = Some (k, cfg')"
    and "svc_keys_unique (wk_listers W) (wk_namespace W)"
  shows "cfg' = cfg"
proof -
  from assms(1) obtain svc ings where 1:
    "getVarnishSvcForIng (wk_listers W) (wk_namespace W) ing = Ok (Some svc)"
    "getIngsForVarnishSvc (wk_listers W) (wk_namespace W) (wk_ingClass W) svc = Ok ings"
    "build_config W svc ings = Ok cfg" "k = svc_key svc" by (rule asked_Some)
  from assms(2) obtain svc' ings' where 2:
    "getVarnishSvcForIng (wk_listers W) (wk_namespace W) ing' = Ok (Some svc')"
    "getIngsForVarnishSvc (wk_listers W) (wk_namespace W) (wk_ingClass W) svc' = Ok ings'"
    "build_config W svc' ings' = Ok cfg'" "k = svc_key svc'" by (rule asked_Some)
  have "svc' = svc"
    using getVarnishSvcForIng_in [OF 1(1) assms(3)] getVarnishSvcForIng_in [OF 2(1) assms(3)]
      1(4) 2(4) assms(3) by (auto simp: svc_keys_unique_def inj_on_def)
  with 1 2 show ?thesis by simp
qed

text \<open>What \<open>addOrUpdateIng\<close> does for an Ingress whose Varnish Service has Ingresses.\<close>

lemma addOrUpdateIng_asked:
  assumes "addOrUpdateIng W ing st = (r, st')" and "ing_ready W ing"
  shows "asked W ing = None \<and> st' = st \<or>
     (\<exists>k cfg. asked W ing = Some (k, cfg) \<and> config_good cfg \<and> install_config W k cfg st = (r, st'))"
proof (cases "asked W ing")
  case None
  with assms show ?thesis
    by (auto simp: asked_def addOrUpdateIng_def with_ok_def ing_ready_def
        split: outcome.split_asm option.split_asm if_split_asm)
next
  case (Some x)
  then obtain k cfg where x: "asked W ing = Some (k, cfg)" by (cases x) auto
  then obtain svc ings where s:
    "getVarnishSvcForIng (wk_listers W) (wk_namespace W) ing = Ok (Some svc)"
    "getIngsForVarnishSvc (wk_listers W) (wk_namespace W) (wk_ingClass W) svc = Ok ings"
    "ings \<noteq> []" "build_config W svc ings = Ok cfg" "k = svc_key svc" by (rule asked_Some)
  with assms(2) have "sources_ok W ings" by (auto simp: ing_ready_def)
  from build_config_good [OF s(4) this] x s assms(1) show ?thesis
    by (simp add: addOrUpdateIng_def)
qed

context varnish_admin
begin

lemma sync_ing_step:
  assumes "addOrUpdateIng W ing st = (r, st')" and "wk_admin W = ADM" and "ing_ready W ing"
    and "sound vcls (ws_vc st)"
  shows "sound vcls (ws_vc st')"
    and "asked W ing = Some (k, cfg) \<Longrightarrow> r = Ok () \<Longrightarrow> serves vcls k cfg (ws_vc st')"
    and "asked W ing' = Some (k, cfg) \<Longrightarrow> svc_keys_unique (wk_listers W) (wk_namespace W) \<Longrightarrow>
           serves vcls k cfg (ws_vc st) \<Longrightarrow> serves vcls k cfg (ws_vc st')"
proof -
  have *: "sound vcls (ws_vc st')
     \<and> (asked W ing = Some (k, cfg) \<longrightarrow> r = Ok () \<longrightarrow> serves vcls k cfg (ws_vc st'))
     \<and> (asked W ing' = Some (k, cfg) \<longrightarrow> svc_keys_unique (wk_listers W) (wk_namespace W) \<longrightarrow>
           serves vcls k cfg (ws_vc st) \<longrightarrow> serves vcls k cfg (ws_vc st'))"
    using addOrUpdateIng_asked [OF assms(1,3)]
  proof (elim disjE exE conjE)
    fix k' cfg'
    assume a: "asked W ing = Some (k', cfg')" and g: "config_good cfg'"
      and i: "install_config W k' cfg' st = (r, st')"
    note s = install_config_sound [OF i assms(2,4) g]
    have "serves vcls k cfg (ws_vc st')"
      if "asked W ing' = Some (k, cfg)" "svc_keys_unique (wk_listers W) (wk_namespace W)"
        "serves vcls k cfg (ws_vc st)"
    proof (cases "k = k'")
      case True
      with asked_unique [OF _ a that(2)] that(1) have "cfg' = cfg" by auto
      with install_config_stays [OF i assms(4) g] that(3) s(2) True show ?thesis by simp
    next
      case False
      with serves_other [OF that(3) install_config_only [OF i assms(2)]] assms(4)
      show ?thesis by (simp add: sound_def)
    qed
    with s a show ?thesis by auto
  qed (use assms(4) in auto)
  then show "sound vcls (ws_vc st')"
    and "asked W ing = Some (k, cfg) \<Longrightarrow> r = Ok () \<Longrightarrow> serves vcls k cfg (ws_vc st')"
    and "asked W ing' = Some (k, cfg) \<Longrightarrow> svc_keys_unique (wk_listers W) (wk_namespace W) \<Longrightarrow>
           serves vcls k cfg (ws_vc st) \<Longrightarrow> serves vcls k cfg (ws_vc st')" by blast+
qed

lemma sync_all_serves:
  assumes "wk_admin W = ADM" and "svc_keys_unique (wk_listers W) (wk_namespace W)"
    and "sync_all W ings st = (rs, st')" and "sound vcls (ws_vc st)"
    and "\<And>ing. ing \<in> set ings \<Longrightarrow> ing_ready W ing"
  shows "sound vcls (ws_vc st')"
    and "serves vcls k cfg (ws_vc st) \<Longrightarrow> asked W ing' = Some (k, cfg) \<Longrightarrow>
           serves vcls k cfg (ws_vc st')"
    and "(ing, Ok ()) \<in> set (zip ings rs) \<Longrightarrow> asked W ing = Some (k, cfg) \<Longrightarrow>
           serves vcls k cfg (ws_vc st')"
  using assms(3-5)
proof (induction ings arbitrary: st rs ing')
  case (Cons i ings)
  case 1
  obtain r st1 where a: "addOrUpdateIng W i st = (r, st1)" by fastforce
  with 1(1) obtain rs1 where b: "sync_all W ings st1 = (rs1, st')" "rs = r # rs1"
    by (auto split: prod.split_asm)
  from 1 have e: "sound vcls (ws_vc st)" "ing_ready W i" by auto
  from Cons.IH(1) [OF b(1) sync_ing_step(1) [OF a assms(1) e(2,1)]] 1 show ?case by simp
next
  case (Cons i ings)
  case 2
  obtain r st1 where a: "addOrUpdateIng W i st = (r, st1)" by fastforce
  with 2(3) obtain rs1 where b: "sync_all W ings st1 = (rs1, st')" "rs = r # rs1"
    by (auto split: prod.split_asm)
  from 2 have e: "sound vcls (ws_vc st)" "ing_ready W i" by auto
  from Cons.IH(2) [OF _ _ b(1) sync_ing_step(1) [OF a assms(1) e(2,1)]]
    sync_ing_step(3) [OF a assms(1) e(2,1)] assms(2) 2 show ?case by auto
next
  case (Cons i ings)
  case 3
  obtain r st1 where a: "addOrUpdateIng W i st = (r, st1)" by fastforce
  with 3(3) obtain rs1 where b: "sync_all W ings st1 = (rs1, st')" "rs = r # rs1"
    by (auto split: prod.split_asm)
  from 3 have e: "sound vcls (ws_vc st)" "ing_ready W i" by auto
  note IH = Cons.IH(2,3) [OF _ _ b(1) sync_ing_step(1) [OF a assms(1) e(2,1)]]
  from IH sync_ing_step(2) [OF a assms(1) e(2,1)] b(2) 3 show ?case by auto
qed auto

end

section \<open>Instances that join\<close>

text \<open>No instance is told to leave when no address goes.\<close>

lemma AddOrUpdateVarnishSvc_grow:
  assumes "AddOrUpdateVarnishSvc ADM ord k addrs secr False vc = (e, vc')"
    and "gm_get (vc_svcs vc) k = Some svc" and "set (svc_addrs k vc) \<subseteq> adm_addr ` set addrs"
  shows "e = None"
proof -
  let ?is = "map (set_secret (gm_get (vc_secrets vc) secr)) (vs_instances svc)"
  have "vi_addr i \<in> adm_addr ` set addrs" if "i \<in> set ?is" for i
    using that assms(2,3) by (auto simp: svc_addrs_def)
  then have "i \<notin> set (rem_insts ord ?is addrs)" for i
    using rem_insts_addr [of i ord ?is addrs] by blast
  then have "rem_insts ord ?is addrs = []" by (meson last_in_set)
  with assms(1,2) show ?thesis
    by (simp add: AddOrUpdateVarnishSvc_def add_svc_def updateVarnishSvcAddrs_def Let_def
        removeVarnishInstances_def errs_result_def)
qed

text \<open>
  The synchronisation of a Varnish Service leaves the loading to the Ingresses that it puts into the
  queue, if some VarnishConfig of the namespace has self-sharding.  When it is that of another
  Service, the configuration is the same as before and counts as loaded: the Ingress finds it, and
  the instances that have joined are told nothing.
\<close>

lemma serves_same:
  "serves vcls k cfg vc \<Longrightarrow> vc_svcs vc' = vc_svcs vc \<Longrightarrow> vc_world vc' = vc_world vc \<Longrightarrow>
     serves vcls k cfg vc'"
  by (simp add: serves_def)

lemma register_secret_same:
  "vc_svcs (ws_vc (snd (register_secret W n st))) = vc_svcs (ws_vc st)
   \<and> vc_world (ws_vc (snd (register_secret W n st))) = vc_world (ws_vc st)"
  by (simp add: register_secret_def setSecret_def SetAdmSecret_def split: sum.split option.split)

context varnish_admin
begin

lemma joined_instances_overlooked:
  assumes "syncVarnishSvc W svc st = (Ok (), st')" and "wk_admin W = ADM"
    and "map_order_ok (wk_addr_order W)" and "isVarnishInVCLSpec W"
    and "getVarnishSvcForIng (wk_listers W) (wk_namespace W) ing = Ok (Some svc)"
    and "ing_Namespace ing = ks_Namespace svc"
    and "l_ing_ns_List (wk_listers W) (wk_namespace W) = Inr ings" and "ing \<in> set ings"
    and "serves vcls (svc_key svc) cfg (ws_vc st)" and "config_good cfg"
    and "getServiceEndpoints (wk_listers W) svc = Ok endps"
    and "s \<in> set (endp_Subsets endps)" and "ip \<in> set (es_Addresses s)"
    and a: "a = adm_addr \<lparr>addr_IP = ip, addr_Port = adm_port (es_Ports s)\<rparr>"
  shows "a \<in> set (svc_addrs (svc_key svc) (ws_vc st'))
     \<and> (\<exists>st''. install_config W (svc_key svc) cfg st' = (Ok (), st'')
          \<and> vcls a (vc_world (ws_vc st'')) = vcls a (vc_world (ws_vc st)))"
proof -
  obtain ings' b st1 endps' pod st2 addrs where
    l: "l_ing_ns_List (wk_listers W) (wk_namespace W) = Inr ings'"
    and r: "requeue_loop W svc False ings' st = (Ok b, st1)"
    and e: "getServiceEndpoints (wk_listers W) svc = Ok endps'"
    and rs: "register_secret W (pod_secret pod) st1 = (Ok (), st2)"
    and ad: "admin_addrs (svc_key svc) (endp_Subsets endps') = Ok addrs"
    and c: "AddOrUpdateVarnishSvc (wk_admin W) (wk_addr_order W) (svc_key svc) addrs
       (wk_namespace W @ ''/'' @ pod_secret pod) (\<not> b) (ws_vc st2) = (None, ws_vc st')"
    by (rule syncVarnishSvc_call [OF assms(1)])
  have "ing \<in> set ings'" using l assms(7,8) by simp
  then have b: "b" using requeue_loop_Ok [OF r] assms(4-6) by blast
  have in_addrs: "a \<in> adm_addr ` set addrs"
    using ad e assms(11-13) unfolding admin_addrs_iff a by force
  have same: "vc_svcs (ws_vc st2) = vc_svcs (ws_vc st)" "vc_world (ws_vc st2) = vc_world (ws_vc st)"
    using requeue_loop_vc [of W svc False ings' st] r register_secret_same [of W "pod_secret pod" st1] rs
    by simp_all
  from serves_same [OF assms(9) same] obtain vsvc sp where v: "gm_get (vc_svcs (ws_vc st2)) (svc_key svc) = Some vsvc"
    "vs_cfgLoaded vsvc" "vs_spec vsvc = Some sp" "Canonical (vm_spec sp) = Canonical (ic_spec cfg)"
    "vm_ings sp = ic_ings cfg" "vm_vcfg sp = ic_vcfg cfg" "vm_bcfg sp = ic_bcfg cfg"
    by (auto simp: serves_def in_place_def)
  from c b assms(2) have "AddOrUpdateVarnishSvc ADM (wk_addr_order W) (svc_key svc) addrs
      (wk_namespace W @ ''/'' @ pod_secret pod) False (ws_vc st2) = (None, ws_vc st')" by simp
  from joined_not_configured [OF this assms(3) v(1-3) in_addrs] obtain vsvc' where
    j: "a \<in> set (svc_addrs (svc_key svc) (ws_vc st'))"
    "vcls a (vc_world (ws_vc st')) = vcls a (vc_world (ws_vc st2))"
    "gm_get (vc_svcs (ws_vc st')) (svc_key svc) = Some vsvc'" "vs_cfgLoaded vsvc'"
    "vs_spec vsvc' = Some sp" by blast
  from install_config_found [OF j(3-5) v(4-7) assms(10), of W] obtain st'' where
    "install_config W (svc_key svc) cfg st' = (Ok (), st'')"
    "vc_world (ws_vc st'') = vc_world (ws_vc st')" by blast
  with j(1,2) same(2) show ?thesis by auto
qed

end

end
