(* ===== verification/CrdFake.thy ===== *)
theory CrdFake
  imports CrdClient
begin

text \<open>
  The generated fake clients (\<open>fake_varnishconfig.go\<close>, \<open>fake_backendconfig.go\<close>, \<open>fake_varnishingress_client.go\<close>,
  \<open>fake/clientset_generated.go\<close>), which tests use in place of the clients: each operation hands an action to
  the chain of reactors of the package \<open>testing\<close> of \<open>client-go\<close>, which records it, and makes its result of
  the answer.  The lemmas compare what is recorded with the requests of the clients.
\<close>

section \<open>Actions\<close>

text \<open>An action is the constructor of the package \<open>testing\<close> that makes it, with its arguments.\<close>

datatype action =
    NewGetAction GroupVersionResource string string
  | NewListAction GroupVersionResource GroupVersionKind string ListOptions
  | NewWatchAction GroupVersionResource string ListOptions
  | NewCreateAction GroupVersionResource string robject
  | NewUpdateAction GroupVersionResource string robject
  | NewDeleteAction GroupVersionResource string string
  | NewDeleteCollectionAction GroupVersionResource string ListOptions
  | NewPatchSubresourceAction GroupVersionResource string string string bytes "string list"

text \<open>
  \<open>testing.Fake\<close> over a state \<open>'w\<close>: \<open>Invokes\<close> with an action and a default object gives an object, or nil,
  and an error, or nil.  \<open>ExtractFromListOptions\<close> gives the label selector, as the test that it makes of
  labels, or nil.
\<close>

record ('e, 'a, 'w) Fake =
  fk_Invokes :: "action \<Rightarrow> robject \<Rightarrow> 'w \<Rightarrow> (robject option \<times> 'e option) \<times> 'w"
  fk_InvokesWatch :: "action \<Rightarrow> 'w \<Rightarrow> ('a option \<times> 'e option) \<times> 'w"
  fk_ExtractFromListOptions :: "ListOptions \<Rightarrow> (string gomap \<Rightarrow> bool) option"

text \<open>The zero values of the literals \<open>&VarnishConfig{}\<close> and \<open>&BackendConfig{}\<close>.\<close>

definition empty_ObjectMeta :: ObjectMeta where
  "empty_ObjectMeta = \<lparr>om_Namespace = [], om_Name = [], om_UID = [], om_ResourceVersion = [],
     om_Labels = [], om_Annotations = []\<rparr>"

definition empty_VarnishConfig :: VarnishConfig where
  "empty_VarnishConfig = \<lparr>vcfg_Kind = [], vcfg_Meta = empty_ObjectMeta,
     vcfg_Spec = \<lparr>vcs_Services = [], vcs_SelfSharding = None, vcs_VCL = [], vcs_Auth = [], vcs_ACLs = [],
       vcs_Rewrites = [], vcs_ReqDispositions = []\<rparr>\<rparr>"

definition empty_BackendConfig :: BackendConfig where
  "empty_BackendConfig = \<lparr>bcfg_Meta = empty_ObjectMeta,
     bcfg_Spec = \<lparr>bcs_Services = [], bcs_Probe = None, bcs_Director = None, bcs_HostHeader = [],
       bcs_ConnectTimeout = [], bcs_FirstByteTimeout = [], bcs_BetweenBytesTimeout = [],
       bcs_MaxConnections = None, bcs_ProxyHeader = None\<rparr>\<rparr>"

section \<open>The fake client of VarnishConfigs\<close>

definition varnishconfigsResource :: GroupVersionResource where
  "varnishconfigsResource = \<lparr>gvr_Group = ''ingress.varnish-cache.org'', gvr_Version = ''v1alpha1'',
     gvr_Resource = ''varnishconfigs''\<rparr>"

definition varnishconfigsKind :: GroupVersionKind where
  "varnishconfigsKind = \<lparr>gvk_Group = ''ingress.varnish-cache.org'', gvk_Version = ''v1alpha1'',
     gvk_Kind = ''VarnishConfig''\<rparr>"

text \<open>The result of an answer: nil for none, and a type assertion that panics for an object of another
  type.\<close>

definition as_VarnishConfig :: "robject option \<Rightarrow> 'e option \<Rightarrow> (unit, VarnishConfig option \<times> 'e option) outcome" where
  "as_VarnishConfig obj err =
     (case obj of
        None \<Rightarrow> Ok (None, err)
      | Some (RVarnishConfig x) \<Rightarrow> Ok (Some x, err)
      | Some _ \<Rightarrow> Panic)"

definition FakeVarnishConfigs_Get ::
    "('e, 'a, 'w) Fake \<Rightarrow> string \<Rightarrow> string \<Rightarrow> GetOptions \<Rightarrow> 'w \<Rightarrow>
       (unit, VarnishConfig option \<times> 'e option) outcome \<times> 'w" where
  "FakeVarnishConfigs_Get F ns name options w =
     (case fk_Invokes F (NewGetAction varnishconfigsResource ns name) (RVarnishConfig empty_VarnishConfig) w of
        ((obj, err), w') \<Rightarrow> (as_VarnishConfig obj err, w'))"

definition FakeVarnishConfigs_List ::
    "('e, 'a, 'w) Fake \<Rightarrow> string \<Rightarrow> ListOptions \<Rightarrow> 'w \<Rightarrow>
       (unit, VarnishConfigList option \<times> 'e option) outcome \<times> 'w" where
  "FakeVarnishConfigs_List F ns opts w =
     (case fk_Invokes F (NewListAction varnishconfigsResource varnishconfigsKind ns opts)
             (RVarnishConfigList \<lparr>vcl_ListMeta = [], vcl_Items = []\<rparr>) w of
        ((obj, err), w') \<Rightarrow>
          ((case obj of
              None \<Rightarrow> Ok (None, err)
            | Some (RVarnishConfigList l) \<Rightarrow>
                let label = (case fk_ExtractFromListOptions F opts of None \<Rightarrow> (\<lambda>_. True) | Some m \<Rightarrow> m)
                in Ok (Some \<lparr>vcl_ListMeta = vcl_ListMeta l,
                             vcl_Items = filter (\<lambda>item. label (om_Labels (vcfg_Meta item))) (vcl_Items l)\<rparr>,
                       err)
            | Some _ \<Rightarrow> Panic), w'))"

definition FakeVarnishConfigs_Watch ::
    "('e, 'a, 'w) Fake \<Rightarrow> string \<Rightarrow> ListOptions \<Rightarrow> 'w \<Rightarrow> ('a option \<times> 'e option) \<times> 'w" where
  "FakeVarnishConfigs_Watch F ns opts w = fk_InvokesWatch F (NewWatchAction varnishconfigsResource ns opts) w"

definition FakeVarnishConfigs_Create ::
    "('e, 'a, 'w) Fake \<Rightarrow> string \<Rightarrow> VarnishConfig \<Rightarrow> 'w \<Rightarrow>
       (unit, VarnishConfig option \<times> 'e option) outcome \<times> 'w" where
  "FakeVarnishConfigs_Create F ns x w =
     (case fk_Invokes F (NewCreateAction varnishconfigsResource ns (RVarnishConfig x)) (RVarnishConfig empty_VarnishConfig) w of
        ((obj, err), w') \<Rightarrow> (as_VarnishConfig obj err, w'))"

definition FakeVarnishConfigs_Update ::
    "('e, 'a, 'w) Fake \<Rightarrow> string \<Rightarrow> VarnishConfig \<Rightarrow> 'w \<Rightarrow>
       (unit, VarnishConfig option \<times> 'e option) outcome \<times> 'w" where
  "FakeVarnishConfigs_Update F ns x w =
     (case fk_Invokes F (NewUpdateAction varnishconfigsResource ns (RVarnishConfig x)) (RVarnishConfig empty_VarnishConfig) w of
        ((obj, err), w') \<Rightarrow> (as_VarnishConfig obj err, w'))"

definition FakeVarnishConfigs_Delete ::
    "('e, 'a, 'w) Fake \<Rightarrow> string \<Rightarrow> string \<Rightarrow> DeleteOptions option \<Rightarrow> 'w \<Rightarrow> 'e option \<times> 'w" where
  "FakeVarnishConfigs_Delete F ns name options w =
     (case fk_Invokes F (NewDeleteAction varnishconfigsResource ns name) (RVarnishConfig empty_VarnishConfig) w of
        ((_, err), w') \<Rightarrow> (err, w'))"

definition FakeVarnishConfigs_DeleteCollection ::
    "('e, 'a, 'w) Fake \<Rightarrow> string \<Rightarrow> DeleteOptions option \<Rightarrow> ListOptions \<Rightarrow> 'w \<Rightarrow> 'e option \<times> 'w" where
  "FakeVarnishConfigs_DeleteCollection F ns options listOptions w =
     (case fk_Invokes F (NewDeleteCollectionAction varnishconfigsResource ns listOptions)
             (RVarnishConfigList \<lparr>vcl_ListMeta = [], vcl_Items = []\<rparr>) w of
        ((_, err), w') \<Rightarrow> (err, w'))"

definition FakeVarnishConfigs_Patch ::
    "('e, 'a, 'w) Fake \<Rightarrow> string \<Rightarrow> string \<Rightarrow> string \<Rightarrow> bytes \<Rightarrow> string list \<Rightarrow> 'w \<Rightarrow>
       (unit, VarnishConfig option \<times> 'e option) outcome \<times> 'w" where
  "FakeVarnishConfigs_Patch F ns name pt data subresources w =
     (case fk_Invokes F (NewPatchSubresourceAction varnishconfigsResource ns name pt data subresources)
             (RVarnishConfig empty_VarnishConfig) w of
        ((obj, err), w') \<Rightarrow> (as_VarnishConfig obj err, w'))"

section \<open>The fake client of BackendConfigs\<close>

definition backendconfigsResource :: GroupVersionResource where
  "backendconfigsResource = \<lparr>gvr_Group = ''ingress.varnish-cache.org'', gvr_Version = ''v1alpha1'',
     gvr_Resource = ''backendconfigs''\<rparr>"

definition backendconfigsKind :: GroupVersionKind where
  "backendconfigsKind = \<lparr>gvk_Group = ''ingress.varnish-cache.org'', gvk_Version = ''v1alpha1'',
     gvk_Kind = ''BackendConfig''\<rparr>"

text \<open>The result of an answer: nil for none, and a type assertion that panics for an object of another
  type.\<close>

definition as_BackendConfig :: "robject option \<Rightarrow> 'e option \<Rightarrow> (unit, BackendConfig option \<times> 'e option) outcome" where
  "as_BackendConfig obj err =
     (case obj of
        None \<Rightarrow> Ok (None, err)
      | Some (RBackendConfig x) \<Rightarrow> Ok (Some x, err)
      | Some _ \<Rightarrow> Panic)"

definition FakeBackendConfigs_Get ::
    "('e, 'a, 'w) Fake \<Rightarrow> string \<Rightarrow> string \<Rightarrow> GetOptions \<Rightarrow> 'w \<Rightarrow>
       (unit, BackendConfig option \<times> 'e option) outcome \<times> 'w" where
  "FakeBackendConfigs_Get F ns name options w =
     (case fk_Invokes F (NewGetAction backendconfigsResource ns name) (RBackendConfig empty_BackendConfig) w of
        ((obj, err), w') \<Rightarrow> (as_BackendConfig obj err, w'))"

definition FakeBackendConfigs_List ::
    "('e, 'a, 'w) Fake \<Rightarrow> string \<Rightarrow> ListOptions \<Rightarrow> 'w \<Rightarrow>
       (unit, BackendConfigList option \<times> 'e option) outcome \<times> 'w" where
  "FakeBackendConfigs_List F ns opts w =
     (case fk_Invokes F (NewListAction backendconfigsResource backendconfigsKind ns opts)
             (RBackendConfigList \<lparr>bcl_ListMeta = [], bcl_Items = []\<rparr>) w of
        ((obj, err), w') \<Rightarrow>
          ((case obj of
              None \<Rightarrow> Ok (None, err)
            | Some (RBackendConfigList l) \<Rightarrow>
                let label = (case fk_ExtractFromListOptions F opts of None \<Rightarrow> (\<lambda>_. True) | Some m \<Rightarrow> m)
                in Ok (Some \<lparr>bcl_ListMeta = bcl_ListMeta l,
                             bcl_Items = filter (\<lambda>item. label (om_Labels (bcfg_Meta item))) (bcl_Items l)\<rparr>,
                       err)
            | Some _ \<Rightarrow> Panic), w'))"

definition FakeBackendConfigs_Watch ::
    "('e, 'a, 'w) Fake \<Rightarrow> string \<Rightarrow> ListOptions \<Rightarrow> 'w \<Rightarrow> ('a option \<times> 'e option) \<times> 'w" where
  "FakeBackendConfigs_Watch F ns opts w = fk_InvokesWatch F (NewWatchAction backendconfigsResource ns opts) w"

definition FakeBackendConfigs_Create ::
    "('e, 'a, 'w) Fake \<Rightarrow> string \<Rightarrow> BackendConfig \<Rightarrow> 'w \<Rightarrow>
       (unit, BackendConfig option \<times> 'e option) outcome \<times> 'w" where
  "FakeBackendConfigs_Create F ns x w =
     (case fk_Invokes F (NewCreateAction backendconfigsResource ns (RBackendConfig x)) (RBackendConfig empty_BackendConfig) w of
        ((obj, err), w') \<Rightarrow> (as_BackendConfig obj err, w'))"

definition FakeBackendConfigs_Update ::
    "('e, 'a, 'w) Fake \<Rightarrow> string \<Rightarrow> BackendConfig \<Rightarrow> 'w \<Rightarrow>
       (unit, BackendConfig option \<times> 'e option) outcome \<times> 'w" where
  "FakeBackendConfigs_Update F ns x w =
     (case fk_Invokes F (NewUpdateAction backendconfigsResource ns (RBackendConfig x)) (RBackendConfig empty_BackendConfig) w of
        ((obj, err), w') \<Rightarrow> (as_BackendConfig obj err, w'))"

definition FakeBackendConfigs_Delete ::
    "('e, 'a, 'w) Fake \<Rightarrow> string \<Rightarrow> string \<Rightarrow> DeleteOptions option \<Rightarrow> 'w \<Rightarrow> 'e option \<times> 'w" where
  "FakeBackendConfigs_Delete F ns name options w =
     (case fk_Invokes F (NewDeleteAction backendconfigsResource ns name) (RBackendConfig empty_BackendConfig) w of
        ((_, err), w') \<Rightarrow> (err, w'))"

definition FakeBackendConfigs_DeleteCollection ::
    "('e, 'a, 'w) Fake \<Rightarrow> string \<Rightarrow> DeleteOptions option \<Rightarrow> ListOptions \<Rightarrow> 'w \<Rightarrow> 'e option \<times> 'w" where
  "FakeBackendConfigs_DeleteCollection F ns options listOptions w =
     (case fk_Invokes F (NewDeleteCollectionAction backendconfigsResource ns listOptions)
             (RBackendConfigList \<lparr>bcl_ListMeta = [], bcl_Items = []\<rparr>) w of
        ((_, err), w') \<Rightarrow> (err, w'))"

definition FakeBackendConfigs_Patch ::
    "('e, 'a, 'w) Fake \<Rightarrow> string \<Rightarrow> string \<Rightarrow> string \<Rightarrow> bytes \<Rightarrow> string list \<Rightarrow> 'w \<Rightarrow>
       (unit, BackendConfig option \<times> 'e option) outcome \<times> 'w" where
  "FakeBackendConfigs_Patch F ns name pt data subresources w =
     (case fk_Invokes F (NewPatchSubresourceAction backendconfigsResource ns name pt data subresources)
             (RBackendConfig empty_BackendConfig) w of
        ((obj, err), w') \<Rightarrow> (as_BackendConfig obj err, w'))"

section \<open>The fake clientset\<close>

text \<open>
  \<open>NewSimpleClientset\<close>: an object tracker that takes the given objects, and the two reactors that answer
  from it.  \<open>add\<close> and \<open>watch\<close> are the methods of the tracker.
\<close>

datatype reactor = ObjectReaction | WatchReaction

record 't FakeClientset =
  fc_tracker :: 't
  fc_ReactionChain :: "(string \<times> string \<times> reactor) list"
  fc_WatchReactionChain :: "(string \<times> reactor) list"

fun add_objects :: "(robject \<Rightarrow> 't \<Rightarrow> 'e option \<times> 't) \<Rightarrow> robject list \<Rightarrow> 't \<Rightarrow> (unit, 't) outcome" where
  "add_objects add [] o' = Ok o'"
| "add_objects add (obj # objects) o' =
     (case add obj o' of
        (Some _, _) \<Rightarrow> Panic
      | (None, o'') \<Rightarrow> add_objects add objects o'')"

definition NewSimpleClientset ::
    "(robject \<Rightarrow> 't \<Rightarrow> 'e option \<times> 't) \<Rightarrow> 't \<Rightarrow> robject list \<Rightarrow> (unit, 't FakeClientset) outcome" where
  "NewSimpleClientset add NewObjectTracker objects =
     obind (add_objects add objects NewObjectTracker) (\<lambda>o'.
       Ok \<lparr>fc_tracker = o', fc_ReactionChain = [(''*'', ''*'', ObjectReaction)],
           fc_WatchReactionChain = [(''*'', WatchReaction)]\<rparr>)"

definition watch_reaction ::
    "(GroupVersionResource \<Rightarrow> string \<Rightarrow> 't \<Rightarrow> 'e + 'a) \<Rightarrow> 't \<Rightarrow> GroupVersionResource \<Rightarrow> string \<Rightarrow>
       bool \<times> 'a option \<times> 'e option" where
  "watch_reaction watch o' gvr ns =
     (case watch gvr ns o' of
        Inl err \<Rightarrow> (False, None, Some err)
      | Inr w \<Rightarrow> (True, Some w, None))"

section \<open>What requests and actions say\<close>

text \<open>
  A call of the API: its verb, group, version, resource, namespace, name and subresource, as the API server
  reads them off a request (a \<open>GET\<close> without a name lists, a \<open>DELETE\<close> without a name deletes a collection).
\<close>

datatype api_verb = AGet | AList | AWatch | ACreate | AUpdate | ADelete | ADeleteCollection | APatch

record api_call =
  ac_verb :: api_verb
  ac_resource :: GroupVersionResource
  ac_namespace :: string
  ac_name :: "string option"
  ac_subresource :: "string list"
  ac_object :: "robject option"

fun verb_of :: "rest_verb \<Rightarrow> bool \<Rightarrow> rest_end \<Rightarrow> api_verb" where
  "verb_of VGet named DoWatch = AWatch"
| "verb_of VGet named e = (if named then AGet else AList)"
| "verb_of VPost named e = ACreate"
| "verb_of VPut named e = AUpdate"
| "verb_of VDelete named e = (if named then ADelete else ADeleteCollection)"
| "verb_of VPatch named e = APatch"

fun body_object :: "body \<Rightarrow> robject option" where
  "body_object (ObjBody x) = Some x"
| "body_object _ = None"

text \<open>A request of a client with a configuration.\<close>

definition request_call :: "('q, 'l) Config \<Rightarrow> Request \<Rightarrow> api_call option" where
  "request_call c r =
     map_option (\<lambda>gv.
       \<lparr>ac_verb = verb_of (rq_verb r) (rq_Name r \<noteq> None) (rq_end r),
        ac_resource = \<lparr>gvr_Group = gv_Group gv, gvr_Version = gv_Version gv, gvr_Resource = rq_Resource r\<rparr>,
        ac_namespace = rq_Namespace r, ac_name = rq_Name r, ac_subresource = rq_SubResource r,
        ac_object = body_object (rq_Body r)\<rparr>) (cf_GroupVersion c)"

fun object_name :: "robject \<Rightarrow> string option" where
  "object_name (RVarnishConfig x) = Some (om_Name (vcfg_Meta x))"
| "object_name (RBackendConfig x) = Some (om_Name (bcfg_Meta x))"
| "object_name _ = None"

fun action_call :: "action \<Rightarrow> api_call" where
  "action_call (NewGetAction gvr ns name) =
     \<lparr>ac_verb = AGet, ac_resource = gvr, ac_namespace = ns, ac_name = Some name, ac_subresource = [],
      ac_object = None\<rparr>"
| "action_call (NewListAction gvr gvk ns opts) =
     \<lparr>ac_verb = AList, ac_resource = gvr, ac_namespace = ns, ac_name = None, ac_subresource = [],
      ac_object = None\<rparr>"
| "action_call (NewWatchAction gvr ns opts) =
     \<lparr>ac_verb = AWatch, ac_resource = gvr, ac_namespace = ns, ac_name = None, ac_subresource = [],
      ac_object = None\<rparr>"
| "action_call (NewCreateAction gvr ns x) =
     \<lparr>ac_verb = ACreate, ac_resource = gvr, ac_namespace = ns, ac_name = None, ac_subresource = [],
      ac_object = Some x\<rparr>"
| "action_call (NewUpdateAction gvr ns x) =
     \<lparr>ac_verb = AUpdate, ac_resource = gvr, ac_namespace = ns, ac_name = object_name x,
      ac_subresource = [], ac_object = Some x\<rparr>"
| "action_call (NewDeleteAction gvr ns name) =
     \<lparr>ac_verb = ADelete, ac_resource = gvr, ac_namespace = ns, ac_name = Some name, ac_subresource = [],
      ac_object = None\<rparr>"
| "action_call (NewDeleteCollectionAction gvr ns opts) =
     \<lparr>ac_verb = ADeleteCollection, ac_resource = gvr, ac_namespace = ns, ac_name = None,
      ac_subresource = [], ac_object = None\<rparr>"
| "action_call (NewPatchSubresourceAction gvr ns name pt data subresources) =
     \<lparr>ac_verb = APatch, ac_resource = gvr, ac_namespace = ns, ac_name = Some name,
      ac_subresource = subresources, ac_object = None\<rparr>"

section \<open>Clients and fakes\<close>

text \<open>The operations of the interfaces \<open>VarnishConfigInterface\<close> and \<open>BackendConfigInterface\<close>.\<close>

datatype 'o crd_op =
    OpGet string GetOptions
  | OpList ListOptions
  | OpWatch ListOptions
  | OpCreate 'o
  | OpUpdate 'o
  | OpDelete string "DeleteOptions option"
  | OpDeleteCollection "DeleteOptions option" ListOptions
  | OpPatch string string bytes "string list"

fun varnishConfigs_op :: "string \<Rightarrow> VarnishConfig crd_op \<Rightarrow> Request" where
  "varnishConfigs_op ns (OpGet name options) = varnishConfigs_Get ns name options"
| "varnishConfigs_op ns (OpList opts) = varnishConfigs_List ns opts"
| "varnishConfigs_op ns (OpWatch opts) = varnishConfigs_Watch ns opts"
| "varnishConfigs_op ns (OpCreate x) = varnishConfigs_Create ns x"
| "varnishConfigs_op ns (OpUpdate x) = varnishConfigs_Update ns x"
| "varnishConfigs_op ns (OpDelete name options) = varnishConfigs_Delete ns name options"
| "varnishConfigs_op ns (OpDeleteCollection options l) = varnishConfigs_DeleteCollection ns options l"
| "varnishConfigs_op ns (OpPatch name pt data subs) = varnishConfigs_Patch ns name pt data subs"

fun backendConfigs_op :: "string \<Rightarrow> BackendConfig crd_op \<Rightarrow> Request" where
  "backendConfigs_op ns (OpGet name options) = backendConfigs_Get ns name options"
| "backendConfigs_op ns (OpList opts) = backendConfigs_List ns opts"
| "backendConfigs_op ns (OpWatch opts) = backendConfigs_Watch ns opts"
| "backendConfigs_op ns (OpCreate x) = backendConfigs_Create ns x"
| "backendConfigs_op ns (OpUpdate x) = backendConfigs_Update ns x"
| "backendConfigs_op ns (OpDelete name options) = backendConfigs_Delete ns name options"
| "backendConfigs_op ns (OpDeleteCollection options l) = backendConfigs_DeleteCollection ns options l"
| "backendConfigs_op ns (OpPatch name pt data subs) = backendConfigs_Patch ns name pt data subs"

text \<open>The state of the fake after an operation.\<close>

fun FakeVarnishConfigs_op ::
    "('e, 'a, 'w) Fake \<Rightarrow> string \<Rightarrow> VarnishConfig crd_op \<Rightarrow> 'w \<Rightarrow> 'w" where
  "FakeVarnishConfigs_op F ns (OpGet name options) w = snd (FakeVarnishConfigs_Get F ns name options w)"
| "FakeVarnishConfigs_op F ns (OpList opts) w = snd (FakeVarnishConfigs_List F ns opts w)"
| "FakeVarnishConfigs_op F ns (OpWatch opts) w = snd (FakeVarnishConfigs_Watch F ns opts w)"
| "FakeVarnishConfigs_op F ns (OpCreate x) w = snd (FakeVarnishConfigs_Create F ns x w)"
| "FakeVarnishConfigs_op F ns (OpUpdate x) w = snd (FakeVarnishConfigs_Update F ns x w)"
| "FakeVarnishConfigs_op F ns (OpDelete name options) w = snd (FakeVarnishConfigs_Delete F ns name options w)"
| "FakeVarnishConfigs_op F ns (OpDeleteCollection options l) w =
     snd (FakeVarnishConfigs_DeleteCollection F ns options l w)"
| "FakeVarnishConfigs_op F ns (OpPatch name pt data subs) w =
     snd (FakeVarnishConfigs_Patch F ns name pt data subs w)"

fun FakeBackendConfigs_op ::
    "('e, 'a, 'w) Fake \<Rightarrow> string \<Rightarrow> BackendConfig crd_op \<Rightarrow> 'w \<Rightarrow> 'w" where
  "FakeBackendConfigs_op F ns (OpGet name options) w = snd (FakeBackendConfigs_Get F ns name options w)"
| "FakeBackendConfigs_op F ns (OpList opts) w = snd (FakeBackendConfigs_List F ns opts w)"
| "FakeBackendConfigs_op F ns (OpWatch opts) w = snd (FakeBackendConfigs_Watch F ns opts w)"
| "FakeBackendConfigs_op F ns (OpCreate x) w = snd (FakeBackendConfigs_Create F ns x w)"
| "FakeBackendConfigs_op F ns (OpUpdate x) w = snd (FakeBackendConfigs_Update F ns x w)"
| "FakeBackendConfigs_op F ns (OpDelete name options) w = snd (FakeBackendConfigs_Delete F ns name options w)"
| "FakeBackendConfigs_op F ns (OpDeleteCollection options l) w =
     snd (FakeBackendConfigs_DeleteCollection F ns options l w)"
| "FakeBackendConfigs_op F ns (OpPatch name pt data subs) w =
     snd (FakeBackendConfigs_Patch F ns name pt data subs w)"

text \<open>
  The contract of \<open>testing.Fake\<close>: every action it is handed is recorded.  A fake without reactors satisfies
  it, which answers with the default object.
\<close>

locale action_recorder =
  fixes F :: "('e, 'a, 'w) Fake" and actions :: "'w \<Rightarrow> action list"
  assumes invokes: "fk_Invokes F a d w = (r, w') \<Longrightarrow> actions w' = actions w @ [a]"
    and watches: "fk_InvokesWatch F a w = (s, w') \<Longrightarrow> actions w' = actions w @ [a]"
begin

lemma invoked [simp]:
  "actions (snd (case fk_Invokes F a d w of ((obj, err), w') \<Rightarrow> (f obj err, w'))) = actions w @ [a]"
  using invokes by (auto split: prod.split)

lemma watched [simp]: "actions (snd (fk_InvokesWatch F a w)) = actions w @ [a]"
  by (metis watches prod.collapse)

text \<open>One action for each operation, with the call of the client's request.\<close>

lemma varnishConfigs_recorded:
  "\<exists>a. actions (FakeVarnishConfigs_op F ns op w) = actions w @ [a]
     \<and> Some (action_call a) = request_call (setConfigDefaults ua c) (varnishConfigs_op ns op)"
  by (cases op)
    (simp_all add: FakeVarnishConfigs_Get_def FakeVarnishConfigs_List_def FakeVarnishConfigs_Watch_def
      FakeVarnishConfigs_Create_def FakeVarnishConfigs_Update_def FakeVarnishConfigs_Delete_def
      FakeVarnishConfigs_DeleteCollection_def FakeVarnishConfigs_Patch_def varnishconfigsResource_def
      varnishConfigs_Get_def varnishConfigs_List_def varnishConfigs_Watch_def varnishConfigs_Create_def
      varnishConfigs_Update_def varnishConfigs_Delete_def varnishConfigs_DeleteCollection_def
      varnishConfigs_Patch_def request_def request_call_def setConfigDefaults_def SchemeGroupVersion_def)

lemma backendConfigs_recorded:
  "\<exists>a. actions (FakeBackendConfigs_op F ns op w) = actions w @ [a]
     \<and> Some (action_call a) = request_call (setConfigDefaults ua c) (backendConfigs_op ns op)"
  by (cases op)
    (simp_all add: FakeBackendConfigs_Get_def FakeBackendConfigs_List_def FakeBackendConfigs_Watch_def
      FakeBackendConfigs_Create_def FakeBackendConfigs_Update_def FakeBackendConfigs_Delete_def
      FakeBackendConfigs_DeleteCollection_def FakeBackendConfigs_Patch_def backendconfigsResource_def
      backendConfigs_Get_def backendConfigs_List_def backendConfigs_Watch_def backendConfigs_Create_def
      backendConfigs_Update_def backendConfigs_Delete_def backendConfigs_DeleteCollection_def
      backendConfigs_Patch_def request_def request_call_def setConfigDefaults_def SchemeGroupVersion_def)

end

definition bare_fake :: "(unit, unit, action list) Fake" where
  "bare_fake = \<lparr>fk_Invokes = (\<lambda>a d w. ((Some d, None), w @ [a])),
     fk_InvokesWatch = (\<lambda>a w. ((None, Some ()), w @ [a])), fk_ExtractFromListOptions = (\<lambda>_. None)\<rparr>"

interpretation bare: action_recorder bare_fake "\<lambda>w. w"
  by unfold_locales (auto simp: bare_fake_def)

end
