(* ===== verification/ControllerInit.thy ===== *)
theory ControllerInit
  imports InformerFactory Worker
begin

text \<open>
  The registration of the custom resources (\<open>register.go\<close>), what \<open>NewIngressController\<close> (\<open>controller.go\<close>) makes
  of it, of the factories and of the queues, and the Events that the workers hand to its recorder.  A
  \<open>runtime.Scheme\<close>, the registration of the Kubernetes types and the recorder are outside the repository: a
  record of functions with the laws of the locale \<open>type_scheme\<close>.
\<close>

section \<open>Registration\<close>

text \<open>The Go types that are registered, or that an object of a worker has.\<close>

datatype go_type =
    TyIngress | TyService | TyEndpoints | TySecret
  | TyVarnishConfig | TyVarnishConfigList | TyBackendConfig | TyBackendConfigList

record ('s, 'e) scheme_lib =
  sl_NewScheme :: 's
  sl_AddKnownTypes :: "GroupVersion \<Rightarrow> go_type list \<Rightarrow> 's \<Rightarrow> 's"
  sl_AddToGroupVersion :: "GroupVersion \<Rightarrow> 's \<Rightarrow> 's"
  sl_core_AddToScheme :: "'s \<Rightarrow> 'e + 's"
  sl_extensions_AddToScheme :: "'s \<Rightarrow> 'e + 's"

definition addKnownTypes :: "('s, 'e) scheme_lib \<Rightarrow> 's \<Rightarrow> 'e + 's" where
  "addKnownTypes L scheme =
     Inr (sl_AddToGroupVersion L SchemeGroupVersion
       (sl_AddKnownTypes L SchemeGroupVersion
          [TyVarnishConfig, TyVarnishConfigList, TyBackendConfig, TyBackendConfigList] scheme))"

text \<open>A \<open>SchemeBuilder\<close> runs its functions in order, up to the first error.\<close>

fun SchemeBuilder_AddToScheme :: "('s \<Rightarrow> 'e + 's) list \<Rightarrow> 's \<Rightarrow> 'e + 's" where
  "SchemeBuilder_AddToScheme [] scheme = Inr scheme"
| "SchemeBuilder_AddToScheme (f # fs) scheme =
     (case f scheme of Inl e \<Rightarrow> Inl e | Inr s \<Rightarrow> SchemeBuilder_AddToScheme fs s)"

definition AddToScheme :: "('s, 'e) scheme_lib \<Rightarrow> 's \<Rightarrow> 'e + 's" where
  "AddToScheme L = SchemeBuilder_AddToScheme [addKnownTypes L]"

text \<open>
  The schemes of the clientset and of its fake, which the packages make when they are initialised:
  \<open>utilruntime.Must\<close> panics on an error.
\<close>

definition clientset_AddToScheme :: "('s, 'e) scheme_lib \<Rightarrow> 's \<Rightarrow> 'e + 's" where
  "clientset_AddToScheme L = SchemeBuilder_AddToScheme [AddToScheme L]"

definition Must :: "'e + 's \<Rightarrow> ('e, 's) outcome" where
  "Must r = (case r of Inl _ \<Rightarrow> Panic | Inr s \<Rightarrow> Ok s)"

definition clientset_init :: "('s, 'e) scheme_lib \<Rightarrow> ('e, 's) outcome" where
  "clientset_init L =
     Must (clientset_AddToScheme L
       (sl_AddToGroupVersion L \<lparr>gv_Group = [], gv_Version = ''v1''\<rparr> (sl_NewScheme L)))"

definition fake_AddToScheme :: "('s, 'e) scheme_lib \<Rightarrow> 's \<Rightarrow> 'e + 's" where
  "fake_AddToScheme L = SchemeBuilder_AddToScheme [AddToScheme L]"

definition fake_init :: "('s, 'e) scheme_lib \<Rightarrow> ('e, 's) outcome" where
  "fake_init L =
     Must (fake_AddToScheme L
       (sl_AddToGroupVersion L \<lparr>gv_Group = [], gv_Version = ''v1''\<rparr> (sl_NewScheme L)))"

section \<open>NewIngressController\<close>

definition NewNamespaceQueues :: "'q queue_ops \<Rightarrow> 'q NamespaceQueues" where
  "NewNamespaceQueues Q = \<lparr>nq_Queue = q_New Q ''_ALL_'', nq_workers = []\<rparr>"

text \<open>
  The controller: the scheme of its recorder, its informers, the informers with its callbacks in the order
  in which these are attached, its listers and its queues.
\<close>

record ('s, 'q) IngressController =
  ic_evtScheme :: 's
  ic_informers :: infrmrs
  ic_handlers :: "nat list"
  ic_listers :: infrmrs
  ic_nsQs :: "'q NamespaceQueues"

definition evtScheme :: "('s, 'e) scheme_lib \<Rightarrow> 'e + 's" where
  "evtScheme L =
     (case sl_core_AddToScheme L (sl_NewScheme L) of
        Inl e \<Rightarrow> Inl e
      | Inr s1 \<Rightarrow>
          (case sl_extensions_AddToScheme L s1 of
             Inl e \<Rightarrow> Inl e
           | Inr s2 \<Rightarrow> AddToScheme L s2))"

definition AddEventHandlers :: "infrmrs \<Rightarrow> nat list" where
  "AddEventHandlers I = [in_ing I, in_svc I, in_endp I, in_secr I, in_vcfg I, in_bcfg I]"

text \<open>The factories with their states: that of \<open>client-go\<close> (\<open>kf\<close>, \<open>K\<close>) and the generated one.\<close>

definition NewIngressController ::
    "('s, 'e) scheme_lib \<Rightarrow> 'q queue_ops \<Rightarrow> (k8s_type \<Rightarrow> 'k \<Rightarrow> nat \<times> 'k) \<Rightarrow> 'k \<Rightarrow> factory_state \<Rightarrow>
       ('e + ('s, 'q) IngressController) \<times> 'k \<times> factory_state" where
  "NewIngressController L Q kf K S =
     (case evtScheme L of
        Inl e \<Rightarrow> (Inl e, K, S)
      | Inr scheme \<Rightarrow>
          (case make_informers kf K S of
             (informers, K1, S1) \<Rightarrow>
               (case make_listers kf K1 S1 of
                  (listers, K2, S2) \<Rightarrow>
                    (Inr \<lparr>ic_evtScheme = scheme, ic_informers = informers,
                          ic_handlers = AddEventHandlers informers, ic_listers = listers,
                          ic_nsQs = NewNamespaceQueues Q\<rparr>, K2, S2))))"

section \<open>The scheme of the recorder\<close>

text \<open>
  What is documented: a registered type stays registered, \<open>AddKnownTypes\<close> registers what it is given, and the
  functions of the Kubernetes packages register the types of theirs.
\<close>

locale type_scheme =
  fixes L :: "('s, 'e) scheme_lib" and knows :: "'s \<Rightarrow> go_type \<Rightarrow> bool"
  assumes known: "t \<in> set ts \<Longrightarrow> knows (sl_AddKnownTypes L gv ts s) t"
    and known_keeps: "knows s t \<Longrightarrow> knows (sl_AddKnownTypes L gv ts s) t"
    and group_keeps: "knows s t \<Longrightarrow> knows (sl_AddToGroupVersion L gv s) t"
    and core: "sl_core_AddToScheme L s = Inr s' \<Longrightarrow>
           knows s' TyService \<and> knows s' TyEndpoints \<and> knows s' TySecret"
    and extensions: "sl_extensions_AddToScheme L s = Inr s' \<Longrightarrow> knows s' TyIngress"
    and extensions_keeps: "sl_extensions_AddToScheme L s = Inr s' \<Longrightarrow> knows s t \<Longrightarrow> knows s' t"
begin

lemma AddToScheme_knows:
  assumes "AddToScheme L s = Inr s'"
  shows "knows s' TyVarnishConfig \<and> knows s' TyBackendConfig \<and> (knows s t \<longrightarrow> knows s' t)"
  using assms by (auto simp: AddToScheme_def addKnownTypes_def group_keeps known known_keeps)

lemma init_knows:
  "\<exists>s. clientset_init L = Ok s \<and> fake_init L = Ok s
     \<and> (\<forall>t \<in> {TyVarnishConfig, TyVarnishConfigList, TyBackendConfig, TyBackendConfigList}. knows s t)"
  by (simp add: clientset_init_def fake_init_def clientset_AddToScheme_def fake_AddToScheme_def Must_def
      AddToScheme_def addKnownTypes_def group_keeps known)

lemma evtScheme_knows:
  assumes "evtScheme L = Inr s"
    and "t \<in> {TyIngress, TyService, TyEndpoints, TySecret, TyVarnishConfig, TyBackendConfig}"
  shows "knows s t"
proof -
  from assms(1) obtain s1 s2 where s: "sl_core_AddToScheme L (sl_NewScheme L) = Inr s1"
    "sl_extensions_AddToScheme L s1 = Inr s2" "AddToScheme L s2 = Inr s"
    by (auto simp: evtScheme_def split: sum.split_asm)
  note k = core [OF s(1)] extensions [OF s(2)] extensions_keeps [OF s(2)] AddToScheme_knows [OF s(3)]
  then show ?thesis using assms(2) by blast
qed

end

text \<open>A controller that is made has the listers of its informers, and its callbacks at each of them.\<close>

lemma NewIngressController_made:
  assumes "informer_factory kf known" and "NewIngressController L Q kf K S = (Inr ic, K', S')"
  shows "evtScheme L = Inr (ic_evtScheme ic)"
    and "make_informers kf K S = (ic_informers ic, K', S')"
    and "ic_listers ic = ic_informers ic"
    and "ic_handlers ic = AddEventHandlers (ic_informers ic)"
    and "ic_nsQs ic = NewNamespaceQueues Q"
proof -
  obtain I K1 S1 where i: "make_informers kf K S = (I, K1, S1)" by (rule prod_cases3)
  from make_listers_again [OF assms(1) i] assms(2) i
  show "evtScheme L = Inr (ic_evtScheme ic)" "make_informers kf K S = (ic_informers ic, K', S')"
    "ic_listers ic = ic_informers ic" "ic_handlers ic = AddEventHandlers (ic_informers ic)"
    "ic_nsQs ic = NewNamespaceQueues Q"
    by (auto simp: NewIngressController_def split: sum.split_asm)
qed

text \<open>It is made unless the registration of the Kubernetes types fails; that of its own never does.\<close>

lemma NewIngressController_error:
  "fst (NewIngressController L Q kf K S) = Inl e \<longleftrightarrow>
     sl_core_AddToScheme L (sl_NewScheme L) = Inl e
     \<or> (\<exists>s. sl_core_AddToScheme L (sl_NewScheme L) = Inr s \<and> sl_extensions_AddToScheme L s = Inl e)"
  by (auto simp: NewIngressController_def evtScheme_def AddToScheme_def addKnownTypes_def
      split: sum.split prod.split)

text \<open>A scheme that is the list of the types registered.\<close>

definition list_scheme :: "((GroupVersion \<times> go_type) list, unit) scheme_lib" where
  "list_scheme =
     \<lparr>sl_NewScheme = [],
      sl_AddKnownTypes = (\<lambda>gv ts s. map (Pair gv) ts @ s),
      sl_AddToGroupVersion = (\<lambda>gv s. s),
      sl_core_AddToScheme = (\<lambda>s. Inr (map (Pair \<lparr>gv_Group = [], gv_Version = ''v1''\<rparr>)
         [TyService, TyEndpoints, TySecret] @ s)),
      sl_extensions_AddToScheme = (\<lambda>s. Inr
         ((\<lparr>gv_Group = ''extensions'', gv_Version = ''v1beta1''\<rparr>, TyIngress) # s))\<rparr>"

interpretation lists: type_scheme list_scheme "\<lambda>s t. t \<in> snd ` set s"
  by unfold_locales (auto simp: list_scheme_def image_Un image_image)

section \<open>The Events of a worker\<close>

fun type_of :: "KObj \<Rightarrow> go_type option" where
  "type_of (OIngress _) = Some TyIngress"
| "type_of (OService _) = Some TyService"
| "type_of (OEndpoints _) = Some TyEndpoints"
| "type_of (OSecret _) = Some TySecret"
| "type_of (OVarnishConfig _) = Some TyVarnishConfig"
| "type_of (OBackendConfig _) = Some TyBackendConfig"
| "type_of _ = None"

lemma type_of_None: "type_of obj = None \<longleftrightarrow> kind_of obj = ''Unknown''"
  by (cases obj) auto

text \<open>The recorder makes a reference to the object, for which the scheme must know its type.\<close>

definition recordable :: "('s \<Rightarrow> go_type \<Rightarrow> bool) \<Rightarrow> 's \<Rightarrow> KObj \<Rightarrow> bool" where
  "recordable knows scheme obj \<longleftrightarrow> (\<exists>t. type_of obj = Some t \<and> knows scheme t)"

text \<open>The handlers record nothing themselves.\<close>

interpretation silent: handler_inv W "\<lambda>st. ws_recorded st = R \<and> ws_events st = E" "\<lambda>_. True" for W R E
  by unfold_locales (auto simp: enqueue_def)

lemma handler_silent:
  assumes "type_of obj \<noteq> None"
  shows "keeps (\<lambda>st. ws_recorded st = R \<and> ws_events st = E) (sync_obj W key obj)"
    and "keeps (\<lambda>st. ws_recorded st = R \<and> ws_events st = E) (delete_obj W obj)"
proof -
  show "keeps (\<lambda>st. ws_recorded st = R \<and> ws_events st = E) (sync_obj W key obj)"
    using assms unfolding sync_obj_def
    by (cases obj)
      (simp_all only: KObj.case silent.syncIng_keeps silent.syncSvc_keeps silent.syncEndp_keeps
        silent.syncSecret_keeps silent.syncVcfg_keeps silent.syncBcfg_keeps type_of.simps simp_thms)
  show "keeps (\<lambda>st. ws_recorded st = R \<and> ws_events st = E) (delete_obj W obj)"
    using assms unfolding delete_obj_def
    by (cases obj)
      (simp_all only: KObj.case silent.deleteIng_keeps silent.deleteSvc_keeps silent.deleteEndp_keeps
        silent.deleteSecret_keeps silent.deleteVcfg_keeps silent.deleteBcfg_keeps type_of.simps simp_thms)
qed

lemma dispatch_silent:
  assumes "dispatch W keyf (ISync obj) st = (r, st')" and "type_of (so_Obj obj) \<noteq> None"
    and "getNameSpace keyf (l_splitKey (wk_listers W)) (so_Obj obj) \<noteq> None"
  shows "ws_recorded st' = ws_recorded st \<and> ws_events st' = ws_events st"
proof -
  obtain ns key where k: "getNameSpace keyf (l_splitKey (wk_listers W)) (so_Obj obj) = Some (ns, key)"
    using assms(3) by auto
  have d: "dispatch W keyf (ISync obj) = sync_obj W key (so_Obj obj)
      \<or> dispatch W keyf (ISync obj) = delete_obj W (so_Obj obj)"
    using k by (cases "so_Type obj") (simp_all add: dispatch_def)
  have "keeps (\<lambda>s. ws_recorded s = ws_recorded st \<and> ws_events s = ws_events st) (dispatch W keyf (ISync obj))"
    using d by (rule disjE) (simp_all only: handler_silent [OF assms(2)])
  then have "ws_recorded (snd (dispatch W keyf (ISync obj) st)) = ws_recorded st
      \<and> ws_events (snd (dispatch W keyf (ISync obj) st)) = ws_events st"
    unfolding keeps_def by blast
  then show ?thesis unfolding assms(1) by (simp only: snd_conv)
qed

text \<open>An iteration records one Event, about the object of its item, which says whether the handler failed.\<close>

lemma worker_next_records:
  assumes "q_Get Q q = Some (ISync obj, q1)"
    and "dispatch W keyf (ISync obj) (st\<lparr>ws_queue := []\<rparr>) = (r, st1)"
    and "worker_next W keyf Q (q, st) = Ok (q', st')" and "type_of (so_Obj obj) \<noteq> None"
    and "getNameSpace keyf (l_splitKey (wk_listers W)) (so_Obj obj) \<noteq> None"
  shows "ws_recorded st' = ws_recorded st @
     [if r = Ok () then (so_Obj obj, EventTypeNormal, syncSuccessReason)
      else (so_Obj obj, EventTypeWarning, syncFailureReason)]"
  using assms(1-3) dispatch_silent [OF assms(2,4,5)] assms(4)
  by (auto simp: worker_next_def Let_def event_defs type_of_None split: outcome.split_asm)

section \<open>The counters of the callbacks\<close>

text \<open>
  The increments of \<open>watchCounters\<close> (kind and callback) and those of \<open>syncCounters\<close> with the reason
  \<open>Ignore\<close> (namespace and kind).
\<close>

record watch_state =
  wc_watch :: "(string \<times> string) list"
  wc_ignored :: "(string \<times> string) list"

definition incWatchCounter :: "KObj \<Rightarrow> string \<Rightarrow> watch_state \<Rightarrow> watch_state" where
  "incWatchCounter obj sync c = c\<lparr>wc_watch := wc_watch c @ [(kind_of obj, sync)]\<rparr>"

definition ignore :: "ObjectMeta option \<Rightarrow> string \<Rightarrow> watch_state \<Rightarrow> watch_state" where
  "ignore m kind c =
     (case m of None \<Rightarrow> c | Some meta \<Rightarrow> c\<lparr>wc_ignored := wc_ignored c @ [(om_Namespace meta, kind)]\<rparr>)"

text \<open>
  The callbacks with their counters.  \<open>tk\<close> gives the kind of \<open>meta.TypeAccessor\<close>, empty when there is none.
\<close>

datatype callback = CbAdd KObj | CbUpdate KObj KObj | CbDelete KObj

fun count_callback :: "(KObj \<Rightarrow> string) \<Rightarrow> callback \<Rightarrow> watch_state \<Rightarrow> watch_state" where
  "count_callback tk (CbAdd obj) c = incWatchCounter obj ''Add'' c"
| "count_callback tk (CbDelete obj) c = incWatchCounter obj ''Delete'' c"
| "count_callback tk (CbUpdate old new) c =
     (let c1 = incWatchCounter new ''Update'' c in
      if same_version (obj_meta old) (obj_meta new) then
        ignore (obj_meta old) (if tk old \<noteq> [] then tk old else kind_of old) c1
      else if both_empty old new then ignore (obj_meta old) ''Endpoints'' c1
      else c1)"

fun queue_callback :: "'q queue_ops \<Rightarrow> callback \<Rightarrow> 'q NamespaceQueues \<Rightarrow> 'q NamespaceQueues" where
  "queue_callback Q (CbAdd obj) qs = addObj Q obj qs"
| "queue_callback Q (CbDelete obj) qs = deleteObj Q obj qs"
| "queue_callback Q (CbUpdate old new) qs = updateObj Q old new qs"

definition run_callbacks ::
    "(KObj \<Rightarrow> string) \<Rightarrow> 'q queue_ops \<Rightarrow> callback list \<Rightarrow> watch_state \<times> 'q NamespaceQueues \<Rightarrow>
       watch_state \<times> 'q NamespaceQueues" where
  "run_callbacks tk Q cbs = fold (\<lambda>cb (c, qs). (count_callback tk cb c, queue_callback Q cb qs)) cbs"

text \<open>What is ignored has metadata, so that it is counted.\<close>

lemma ignored_meta:
  "obj_meta old = None \<Longrightarrow> \<not> same_version (obj_meta old) m" "obj_meta old = None \<Longrightarrow> \<not> both_empty old new"
  by simp (cases old; cases new; simp)

lemma incWatchCounter_simps [simp]:
  "wc_ignored (incWatchCounter obj sync c) = wc_ignored c"
  "length (wc_watch (incWatchCounter obj sync c)) = Suc (length (wc_watch c))"
  by (simp_all add: incWatchCounter_def)

lemma ignore_simps [simp]:
  "wc_watch (ignore m kind c) = wc_watch c"
  "length (wc_ignored (ignore m kind c)) = length (wc_ignored c) + (if m = None then 0 else 1)"
  by (simp_all add: ignore_def split: option.split)

context workqueue
begin

lemma callback_accounted:
  assumes "accepts (nq_Queue qs)"
  shows "size (pend (nq_Queue (queue_callback Q cb qs))) + length (wc_ignored (count_callback tk cb c))
      = Suc (size (pend (nq_Queue qs)) + length (wc_ignored c))
    \<and> length (wc_watch (count_callback tk cb c)) = Suc (length (wc_watch c))
    \<and> accepts (nq_Queue (queue_callback Q cb qs))"
  using assms
  by (cases cb)
    (auto simp: ignored_meta addObj_def deleteObj_def updateObj_def Let_def add)

lemma callbacks_accounted:
  assumes "run_callbacks tk Q cbs (c, qs) = (c', qs')" and "accepts (nq_Queue qs)"
  shows "size (pend (nq_Queue qs')) + length (wc_ignored c')
      = size (pend (nq_Queue qs)) + length (wc_ignored c) + length cbs
    \<and> length (wc_watch c') = length (wc_watch c) + length cbs"
  using assms
proof (induction cbs arbitrary: c qs)
  case (Cons cb cbs)
  then show ?case using callback_accounted [of qs cb tk c] by (simp add: run_callbacks_def)
qed (simp add: run_callbacks_def)

end

end
