(* ===== verification/Startup.thy ===== *)
theory Startup
  imports CommandLine Monitor
begin

text \<open>
  The start of the Varnish controller (\<open>NewVarnishController\<close> and \<open>Start\<close> in \<open>varnish.go\<close>): the templates that
  it reads (\<open>InitTemplates\<close> in \<open>template.go\<close>, with \<open>path.Join\<close> of Go's library), and the loop of the monitor
  (\<open>monitor.go\<close>).  Parsing a template is outside the repository: a function of its name and its path.
\<close>

section \<open>Paths\<close>

text \<open>The elements between the slashes.\<close>

fun path_split :: "string \<Rightarrow> string list" where
  "path_split [] = [[]]"
| "path_split (c # s) =
     (if c = CHR ''/'' then [] # path_split s
      else (case path_split s of [] \<Rightarrow> [[c]] | e # es \<Rightarrow> (c # e) # es))"

fun path_concat :: "string list \<Rightarrow> string" where
  "path_concat [] = []"
| "path_concat [e] = e"
| "path_concat (e # es) = e @ ''/'' @ path_concat es"

text \<open>
  \<open>path.Clean\<close>: empty and dot elements are dropped, a dot-dot element takes away the element before it.
  The elements kept are a stack.
\<close>

definition clean_step :: "bool \<Rightarrow> string \<Rightarrow> string list \<Rightarrow> string list" where
  "clean_step rooted e stack =
     (if e = [] \<or> e = ''.'' then stack
      else if e = ''..'' then
        (case stack of
           [] \<Rightarrow> if rooted then [] else [''..'']
         | e1 # rest \<Rightarrow> if e1 = ''..'' then e # stack else rest)
      else e # stack)"

definition path_rooted :: "string \<Rightarrow> bool" where
  "path_rooted s \<longleftrightarrow> (case s of [] \<Rightarrow> False | c # _ \<Rightarrow> c = CHR ''/'')"

definition clean_elements :: "string \<Rightarrow> string list" where
  "clean_elements s = rev (fold (clean_step (path_rooted s)) (path_split s) [])"

definition path_Clean :: "string \<Rightarrow> string" where
  "path_Clean s =
     (let p = (if path_rooted s then ''/'' else []) @ path_concat (clean_elements s)
      in if p = [] then ''.'' else p)"

text \<open>\<open>path.Join\<close> of two elements.\<close>

definition path_Join :: "string \<Rightarrow> string \<Rightarrow> string" where
  "path_Join dir file =
     (if dir \<noteq> [] then path_Clean (dir @ ''/'' @ file) else if file \<noteq> [] then path_Clean file else [])"

section \<open>InitTemplates\<close>

abbreviation "ingTmplSrc \<equiv> ''vcl.tmpl''"
abbreviation "shardTmplSrc \<equiv> ''self-shard.tmpl''"
abbreviation "authTmplSrc \<equiv> ''auth.tmpl''"
abbreviation "aclTmplSrc \<equiv> ''acl.tmpl''"
abbreviation "rewriteTmplSrc \<equiv> ''rewrite.tmpl''"
abbreviation "reqDispTmplSrc \<equiv> ''recv_disposition.tmpl''"

text \<open>The variables of the package; None is nil, which \<open>ParseFiles\<close> returns with an error.\<close>

record 't Templates =
  ingressTmpl :: "'t option"
  shardTmpl :: "'t option"
  authTmpl :: "'t option"
  aclTmpl :: "'t option"
  rewriteTmpl :: "'t option"
  reqDispTmpl :: "'t option"

text \<open>\<open>parse name path\<close>: \<open>template.New(name).Funcs(fMap).ParseFiles(path)\<close>, and its assignment.\<close>

definition init_tmpl ::
    "(string \<Rightarrow> string \<Rightarrow> 'e + 't) \<Rightarrow> string \<Rightarrow> string \<Rightarrow> ('t option \<Rightarrow> 't Templates \<Rightarrow> 't Templates) \<Rightarrow>
       't Templates \<Rightarrow> 'e option \<times> 't Templates" where
  "init_tmpl parse tmplDir src set_tmpl T =
     (case parse src (path_Join tmplDir src) of
        Inl e \<Rightarrow> (Some e, set_tmpl None T)
      | Inr t \<Rightarrow> (None, set_tmpl (Some t) T))"

fun init_all ::
    "('t Templates \<Rightarrow> 'e option \<times> 't Templates) list \<Rightarrow> 't Templates \<Rightarrow> 'e option \<times> 't Templates" where
  "init_all [] T = (None, T)"
| "init_all (f # fs) T =
     (case f T of (Some e, T1) \<Rightarrow> (Some e, T1) | (None, T1) \<Rightarrow> init_all fs T1)"

definition InitTemplates ::
    "(string \<Rightarrow> string \<Rightarrow> 'e + 't) \<Rightarrow> string \<Rightarrow> 't Templates \<Rightarrow> 'e option \<times> 't Templates" where
  "InitTemplates parse tmplDir =
     init_all
       [init_tmpl parse tmplDir ingTmplSrc (\<lambda>t. ingressTmpl_update (\<lambda>_. t)),
        init_tmpl parse tmplDir shardTmplSrc (\<lambda>t. shardTmpl_update (\<lambda>_. t)),
        init_tmpl parse tmplDir authTmplSrc (\<lambda>t. authTmpl_update (\<lambda>_. t)),
        init_tmpl parse tmplDir aclTmplSrc (\<lambda>t. aclTmpl_update (\<lambda>_. t)),
        init_tmpl parse tmplDir rewriteTmplSrc (\<lambda>t. rewriteTmpl_update (\<lambda>_. t)),
        init_tmpl parse tmplDir reqDispTmplSrc (\<lambda>t. reqDispTmpl_update (\<lambda>_. t))]"

section \<open>The Varnish controller\<close>

text \<open>
  The function \<open>NewVarnishController\<close> with the environment variable \<open>TEMPLATE_DIR\<close>: the controller and
  the interval of its monitor, or the error of the templates.
\<close>

definition start_VarnishController ::
    "(string \<Rightarrow> string \<Rightarrow> 'e + 't) \<Rightarrow> string option \<Rightarrow> string \<Rightarrow> int \<Rightarrow> 'w \<Rightarrow> 't Templates \<Rightarrow>
       ('e + 'w Controller \<times> int) \<times> 't Templates" where
  "start_VarnishController parse tmplEnv tmplDir monIntvl w T =
     (let dir = (if tmplDir = [] then (case tmplEnv of None \<Rightarrow> tmplDir | Some d \<Rightarrow> d) else tmplDir)
      in case InitTemplates parse dir T of
           (Some e, T1) \<Rightarrow> (Inl e, T1)
         | (None, T1) \<Rightarrow> (Inr (NewVarnishController w, monIntvl), T1))"

section \<open>The loop of the monitor\<close>

text \<open>
  Round \<open>n\<close> comes after a sleep in which others work on the controller (\<open>env n\<close>), and visits the Services in
  some order (\<open>ord n\<close>).  None: the loop does not end.
\<close>

partial_function (option) monitor_rounds ::
    "'w admin \<Rightarrow> (nat \<Rightarrow> 'w Controller \<Rightarrow> 'w Controller) \<Rightarrow> (nat \<Rightarrow> string list \<Rightarrow> string list) \<Rightarrow>
       nat \<Rightarrow> 'w Controller \<Rightarrow> 'w Controller option" where
  "monitor_rounds ADM env ord n vc =
     (let vc1 = env n vc in
      monitor_rounds ADM env ord (Suc n) (snd (monitor_round ADM (ord n (gm_keys (vc_svcs vc1))) vc1)))"

definition monitor ::
    "'w admin \<Rightarrow> (nat \<Rightarrow> 'w Controller \<Rightarrow> 'w Controller) \<Rightarrow> (nat \<Rightarrow> string list \<Rightarrow> string list) \<Rightarrow>
       int \<Rightarrow> 'w Controller \<Rightarrow> 'w Controller option" where
  "monitor ADM env ord monitorIntvl vc =
     (if monitorIntvl \<le> 0 then Some vc else monitor_rounds ADM env ord 0 vc)"

text \<open>The monitor does nothing, or runs for ever.\<close>

lemma monitor_rounds_endless: "monitor_rounds ADM env ord n vc = None"
proof -
  have "False" if "monitor_rounds ADM env ord n vc = Some r" for r
    by (rule monitor_rounds.raw_induct [where P = "\<lambda>_ _ _ _ _ _. False", OF _ that]) (simp add: Let_def)
  then show ?thesis by (cases "monitor_rounds ADM env ord n vc") auto
qed

lemma monitor_ends_iff:
  "monitor ADM env ord monitorIntvl vc = (if monitorIntvl \<le> 0 then Some vc else None)"
  by (simp add: monitor_def monitor_rounds_endless)

section \<open>The files of the templates\<close>

lemma path_split_ne [simp]: "path_split s \<noteq> []"
  by (induction s) (auto split: list.split)

lemma path_split_plain: "CHR ''/'' \<notin> set s \<Longrightarrow> path_split s = [s]"
  by (induction s) auto

lemma path_split_append:
  "CHR ''/'' \<notin> set f \<Longrightarrow> path_split (s @ CHR ''/'' # f) = path_split s @ [f]"
  by (induction s) (auto simp: path_split_plain split: list.split)

lemma path_concat_snoc: "es \<noteq> [] \<Longrightarrow> path_concat (es @ [e]) = path_concat es @ ''/'' @ e"
  by (induction es rule: path_concat.induct) auto

text \<open>The name of a file: neither a dot element nor one with a slash.\<close>

definition file_name :: "string \<Rightarrow> bool" where
  "file_name f \<longleftrightarrow> f \<notin> {[], ''.'', ''..''} \<and> CHR ''/'' \<notin> set f"

lemma clean_elements_file:
  assumes "file_name f"
  shows "clean_elements (dir @ ''/'' @ f) =
     (if dir = [] then [f] else clean_elements dir @ [f])"
proof -
  have "path_rooted (dir @ ''/'' @ f) = (dir = [] \<or> path_rooted dir)"
    by (cases dir) (simp_all add: path_rooted_def)
  then show ?thesis
    using assms
    by (simp add: clean_elements_def path_split_append file_name_def clean_step_def)
qed

text \<open>\<open>path.Join\<close> puts the file in the directory, which is the working directory if none is given.\<close>

definition in_dir :: "string \<Rightarrow> string \<Rightarrow> string" where
  "in_dir dir file =
     (if path_Clean dir = ''.'' then file
      else if path_Clean dir = ''/'' then ''/'' @ file
      else path_Clean dir @ ''/'' @ file)"

definition plain_element :: "string \<Rightarrow> bool" where
  "plain_element e \<longleftrightarrow> e \<notin> {[], ''.''} \<and> CHR ''/'' \<notin> set e"

lemma path_split_elements: "e \<in> set (path_split s) \<Longrightarrow> CHR ''/'' \<notin> set e"
  by (induction s arbitrary: e) (auto split: if_split_asm list.split_asm)

lemma clean_step_plain:
  "list_all plain_element stack \<Longrightarrow> CHR ''/'' \<notin> set e \<Longrightarrow> list_all plain_element (clean_step r e stack)"
  by (auto simp: clean_step_def plain_element_def split: list.split)

lemma fold_clean_plain:
  "list_all plain_element stack \<Longrightarrow> (\<And>e. e \<in> set es \<Longrightarrow> CHR ''/'' \<notin> set e) \<Longrightarrow>
     list_all plain_element (fold (clean_step r) es stack)"
  by (induction es arbitrary: stack) (simp_all add: clean_step_plain)

lemma clean_elements_plain: "list_all plain_element (clean_elements s)"
  using fold_clean_plain [of "[]" "path_split s" "path_rooted s"] path_split_elements [of _ s]
  by (simp add: clean_elements_def list_all_iff)

lemma path_concat_plain:
  "list_all plain_element es \<Longrightarrow> es \<noteq> [] \<Longrightarrow> path_concat es \<notin> {[], ''.'', ''/''}"
  by (induction es rule: path_concat.induct)
    (auto simp: plain_element_def append_eq_Cons_conv)

lemma path_Clean_cases:
  "path_Clean dir = ''.'' \<longleftrightarrow> clean_elements dir = [] \<and> \<not> path_rooted dir"
  "path_Clean dir = ''/'' \<longleftrightarrow> clean_elements dir = [] \<and> path_rooted dir"
  "clean_elements dir \<noteq> [] \<Longrightarrow>
     path_Clean dir = (if path_rooted dir then ''/'' else []) @ path_concat (clean_elements dir)"
  using path_concat_plain [OF clean_elements_plain [of dir]]
  by (cases "clean_elements dir = []"; auto simp: path_Clean_def Let_def)+

lemma path_Join_file:
  assumes "file_name f"
  shows "path_Join dir f = in_dir dir f"
proof (cases "dir = []")
  case True
  have "path_split f = [f]" "f \<noteq> []" "\<not> path_rooted f"
    using assms by (auto simp: file_name_def path_split_plain path_rooted_def split: list.split)
  with assms True show ?thesis
    by (simp add: path_Join_def in_dir_def path_Clean_def clean_elements_def clean_step_def file_name_def
        path_rooted_def Let_def)
next
  case False
  have f: "f \<noteq> []" using assms by (simp add: file_name_def)
  have r: "path_rooted (dir @ ''/'' @ f) = path_rooted dir"
    using False by (cases dir) (simp_all add: path_rooted_def)
  have j: "path_Join dir f = (if path_rooted dir then ''/'' else []) @ path_concat (clean_elements dir @ [f])"
    using False f clean_elements_file [OF assms, of dir] r
    by (cases "clean_elements dir = []") (simp_all add: path_Join_def path_Clean_def Let_def path_concat_snoc)
  show ?thesis
  proof (cases "clean_elements dir = []")
    case True
    with j show ?thesis by (simp add: in_dir_def path_Clean_cases(1,2))
  next
    case False
    with j show ?thesis
      by (simp add: in_dir_def path_Clean_cases(1,2)) (simp add: path_Clean_cases(3) path_concat_snoc)
  qed
qed

text \<open>The initialisation succeeds exactly when the six files of the directory can be parsed.\<close>

definition tmpl_files :: "string list" where
  "tmpl_files = [ingTmplSrc, shardTmplSrc, authTmplSrc, aclTmplSrc, rewriteTmplSrc, reqDispTmplSrc]"

lemma tmpl_path: "f \<in> set tmpl_files \<Longrightarrow> path_Join dir f = in_dir dir f"
  by (rule path_Join_file) (auto simp: tmpl_files_def file_name_def)

lemma init_tmpl_ok: "fst (init_tmpl parse dir f upd T) = None \<longleftrightarrow> (\<exists>t. parse f (path_Join dir f) = Inr t)"
  by (simp add: init_tmpl_def split: sum.split)

lemma init_all_ok: "fst (init_all (f # fs) T) = None \<longleftrightarrow> fst (f T) = None \<and> fst (init_all fs (snd (f T))) = None"
  by (simp split: prod.split option.split)

lemma InitTemplates_ok:
  "fst (InitTemplates parse dir T) = None \<longleftrightarrow>
     (\<forall>f \<in> set tmpl_files. \<exists>t. parse f (in_dir dir f) = Inr t)"
  using tmpl_path [of _ dir]
  by (simp add: InitTemplates_def init_all_ok init_tmpl_ok tmpl_files_def del: init_all.simps(2))

text \<open>Then each variable has the template of its file.\<close>

lemma init_all_None:
  "init_all (f # fs) T = (None, T') \<longleftrightarrow> fst (f T) = None \<and> init_all fs (snd (f T)) = (None, T')"
  by (auto split: prod.split option.split)

lemma init_tmpl_None:
  "parse f (path_Join dir f) = Inr t \<Longrightarrow> init_tmpl parse dir f upd T = (None, upd (Some t) T)"
  by (simp add: init_tmpl_def)

lemma InitTemplates_sets:
  assumes "InitTemplates parse dir T = (None, T')"
  shows "list_all2 (\<lambda>f t. \<exists>x. t = Some x \<and> parse f (in_dir dir f) = Inr x) tmpl_files
     [ingressTmpl T', shardTmpl T', authTmpl T', aclTmpl T', rewriteTmpl T', reqDispTmpl T']"
proof -
  have "fst (InitTemplates parse dir T) = None" using assms by simp
  then obtain t where t: "\<And>f. f \<in> set tmpl_files \<Longrightarrow> parse f (path_Join dir f) = Inr (t f)"
    using tmpl_path [of _ dir] by (metis InitTemplates_ok)
  have "init_tmpl parse dir f upd S = (None, upd (Some (t f)) S)" if "f \<in> set tmpl_files" for f upd S
    using t [OF that] by (simp add: init_tmpl_None)
  then have "T' = T\<lparr>ingressTmpl := Some (t ingTmplSrc), shardTmpl := Some (t shardTmplSrc),
      authTmpl := Some (t authTmplSrc), aclTmpl := Some (t aclTmplSrc),
      rewriteTmpl := Some (t rewriteTmplSrc), reqDispTmpl := Some (t reqDispTmplSrc)\<rparr>"
    using assms by (simp add: InitTemplates_def tmpl_files_def)
  then show ?thesis using t tmpl_path [of _ dir] by (simp add: tmpl_files_def)
qed

text \<open>The check for the templates in \<open>main\<close>.\<close>

lemma start_VarnishController_ok:
  assumes "se_templates E = (\<lambda>dir. \<forall>f \<in> set tmpl_files. \<exists>t. parse f (in_dir dir f) = Inr t)"
  shows "(\<exists>e. fst (start_VarnishController parse (se_TEMPLATE_DIR E) tmplDir intvl w T) = Inl e)
     \<longleftrightarrow> template_dir E tmplDir = None"
proof -
  have i: "fst (InitTemplates parse dir T) = None \<longleftrightarrow> se_templates E dir" for dir
    using InitTemplates_ok [of parse dir T] by (simp add: assms)
  let ?dir = "if tmplDir = [] then (case se_TEMPLATE_DIR E of None \<Rightarrow> tmplDir | Some d \<Rightarrow> d) else tmplDir"
  have "(\<exists>e. fst (start_VarnishController parse (se_TEMPLATE_DIR E) tmplDir intvl w T) = Inl e)
      \<longleftrightarrow> fst (InitTemplates parse ?dir T) \<noteq> None"
    unfolding start_VarnishController_def Let_def by (simp split: prod.split option.split)
  then show ?thesis unfolding i template_dir_def Let_def by simp
qed

end
