(* ===== verification/Example.thy ===== *)
theory Example
  imports WorkerLoops MonitorSync VarnishAbs SvcEvents CrdListers Routes VclMeaning VclText Lifecycle
    CommandLine InformerFactory Metrics DeepCopy Convergence CrdFake ControllerInit Startup
begin

text \<open>
  A cluster small enough to evaluate: one Varnish Service with one Pod, its admin secret, one backend
  Service, and one Ingress that routes a path to it.  The witnesses of the properties run on it.
\<close>

definition ex_meta :: "string \<Rightarrow> ObjectMeta" where
  "ex_meta name = \<lparr>om_Namespace = ''ns'', om_Name = name, om_UID = name, om_ResourceVersion = ''1'',
     om_Labels = [], om_Annotations = []\<rparr>"

definition ex_svc :: KService where
  "ex_svc = \<lparr>ks_Ptr = 1, ks_Meta = (ex_meta ''varnish'')\<lparr>om_Labels := [(''app'', ''varnish-ingress'')]\<rparr>,
     ks_Ports = []\<rparr>"

definition ex_port :: ServicePort where
  "ex_port = \<lparr>kp_Name = ''http'', kp_Protocol = ''TCP'', kp_Port = 80,
     kp_TargetPort = \<lparr>ios_Type = TInt, ios_IntVal = 8080, ios_StrVal = []\<rparr>\<rparr>"

definition ex_coffee :: KService where
  "ex_coffee = \<lparr>ks_Ptr = 2, ks_Meta = ex_meta ''coffee'', ks_Ports = [ex_port]\<rparr>"

definition ex_ing :: Ingress where
  "ex_ing = \<lparr>ing_Meta = (ex_meta ''cafe'')\<lparr>om_Annotations := [(''kubernetes.io/ingress.class'', ''varnish'')]\<rparr>,
     ing_Backend = None,
     ing_Rules = [\<lparr>ir_Host = ''cafe.example.com'', ir_HTTP = Some
       [\<lparr>ip_Path = ''/coffee'', ip_Backend = \<lparr>ib_ServiceName = ''coffee'',
          ib_ServicePort = \<lparr>ios_Type = TInt, ios_IntVal = 80, ios_StrVal = []\<rparr>\<rparr>\<rparr>]\<rparr>]\<rparr>"

definition ex_endps :: "Endpoints list" where
  "ex_endps =
     [\<lparr>endp_Meta = ex_meta ''varnish'', endp_Subsets = [\<lparr>es_Addresses = [''10.0.0.1''],
        es_NotReadyAddresses = [], es_Ports = [\<lparr>ep_Name = ''varnishadm'', ep_Port = 6081\<rparr>]\<rparr>]\<rparr>,
      \<lparr>endp_Meta = ex_meta ''coffee'', endp_Subsets = [\<lparr>es_Addresses = [''10.3.7.8'', ''10.3.7.9''],
        es_NotReadyAddresses = [], es_Ports = [\<lparr>ep_Name = ''http'', ep_Port = 8080\<rparr>]\<rparr>]\<rparr>]"

definition ex_secret :: Secret where
  "ex_secret = \<lparr>secr_Meta = (ex_meta ''adm'')\<lparr>om_Labels := [(''app'', ''varnish-ingress'')]\<rparr>,
     secr_Data = [(''admin'', ''s3cr3t'')]\<rparr>"

definition ex_pod :: Pod where
  "ex_pod = \<lparr>pod_Meta = ex_meta ''varnish-0'', pod_Hostname = [], pod_PodIP = ''10.0.0.1'',
     pod_Containers = [], pod_Volumes = [None, Some ''adm'']\<rparr>"

definition ex_get :: "string \<Rightarrow> (string \<times> 'a) list \<Rightarrow> api_error + 'a" where
  "ex_get key xs = (case map_of xs key of None \<Rightarrow> Inl (NotFound key) | Some x \<Rightarrow> Inr x)"

definition ex_in_ns :: "string \<Rightarrow> 'a list \<Rightarrow> api_error + 'a list" where
  "ex_in_ns ns xs = Inr (if ns = ''ns'' then xs else [])"

definition ex_listers :: Listers where
  "ex_listers =
     \<lparr>l_ing_List = Inr [ex_ing],
      l_ing_ns_List = (\<lambda>ns. ex_in_ns ns [ex_ing]),
      l_ing_Get = (\<lambda>ns key. ex_get key [(''cafe'', ex_ing)]),
      l_svc_List = Inr [ex_svc],
      l_svc_ns_List = (\<lambda>ns. ex_in_ns ns [ex_svc]),
      l_svc_Get = (\<lambda>ns key. ex_get key [(''varnish'', ex_svc), (''coffee'', ex_coffee)]),
      l_endp_List = (\<lambda>ns. ex_in_ns ns ex_endps),
      l_secr_Get = (\<lambda>ns key. ex_get key [(''adm'', ex_secret)]),
      l_vcfg_List = (\<lambda>ns. Inr []),
      l_vcfg_Get = (\<lambda>ns key. Inl (NotFound key)),
      l_bcfg_List = (\<lambda>ns. Inr []),
      l_bcfg_Get = (\<lambda>ns key. Inl (NotFound key)),
      l_pods = (\<lambda>svc. Inr (if ks_Name svc = ''varnish'' then [ex_pod] else [])),
      l_splitKey = (\<lambda>key. Some (''ns'', drop 3 key))\<rparr>"

definition ex_worker :: "sim Worker" where
  "ex_worker = \<lparr>wk_namespace = ''ns'', wk_ingClass = ''varnish'', wk_listers = ex_listers,
     wk_admin = sim_admin, wk_auth_order = (\<lambda>_ xs. xs), wk_addr_order = (\<lambda>_ xs. xs)\<rparr>"

definition ex_world :: sim where
  "ex_world = [\<lparr>si_addr = ''10.0.0.1:6081'', si_secret = ''s3cr3t'', si_vcls = [], si_src = [],
     si_fault = None\<rparr>]"

definition ex_state :: "sim WState" where
  "ex_state = \<lparr>ws_vc = NewVarnishController ex_world, ws_queue = [], ws_events = [], ws_recorded = []\<rparr>"

text \<open>The fields of the objects.\<close>

lemma ex_worker_simps [simp]:
  "wk_namespace ex_worker = ''ns''" "wk_ingClass ex_worker = ''varnish''"
  "wk_listers ex_worker = ex_listers" "wk_admin ex_worker = sim_admin"
  "wk_auth_order ex_worker = (\<lambda>_ xs. xs)" "wk_addr_order ex_worker = (\<lambda>_ xs. xs)"
  by (simp_all add: ex_worker_def)

lemma ex_listers_simps [simp]:
  "l_ing_List ex_listers = Inr [ex_ing]" "l_ing_ns_List ex_listers ''ns'' = Inr [ex_ing]"
  "l_ing_Get ex_listers ns ''cafe'' = Inr ex_ing"
  "l_svc_List ex_listers = Inr [ex_svc]" "l_svc_ns_List ex_listers ''ns'' = Inr [ex_svc]"
  "l_svc_Get ex_listers ns ''varnish'' = Inr ex_svc"
  "l_svc_Get ex_listers ns ''coffee'' = Inr ex_coffee"
  "l_endp_List ex_listers ''ns'' = Inr ex_endps"
  "l_secr_Get ex_listers ns ''adm'' = Inr ex_secret"
  "l_vcfg_List ex_listers ns = Inr []" "l_bcfg_List ex_listers ns = Inr []"
  "l_pods ex_listers ex_svc = Inr [ex_pod]"
  "l_splitKey ex_listers key = Some (''ns'', drop 3 key)"
  by (simp_all add: ex_listers_def ex_get_def ex_in_ns_def ex_svc_def ex_meta_def)

lemma ex_objects_simps [simp]:
  "ks_Ptr ex_svc = 1" "ks_Namespace ex_svc = ''ns''" "ks_Name ex_svc = ''varnish''"
  "om_Labels (ks_Meta ex_svc) = [(''app'', ''varnish-ingress'')]"
  "ks_Namespace ex_coffee = ''ns''" "ks_Name ex_coffee = ''coffee''" "om_Labels (ks_Meta ex_coffee) = []"
  "ks_Ports ex_coffee = [ex_port]"
  "ing_Namespace ex_ing = ''ns''" "ing_Name ex_ing = ''cafe''" "ing_Backend ex_ing = None"
  "om_Annotations (ing_Meta ex_ing) = [(''kubernetes.io/ingress.class'', ''varnish'')]"
  "secr_Data ex_secret = [(''admin'', ''s3cr3t'')]" "meta_key (secr_Meta ex_secret) = ''ns/adm''"
  "pod_Volumes ex_pod = [None, Some ''adm'']"
  by (simp_all add: ex_svc_def ex_coffee_def ex_ing_def ex_secret_def ex_pod_def ex_meta_def
      meta_key_def)

lemma ex_varnish_svc: "getVarnishSvcForIng ex_listers ''ns'' ex_ing = Ok (Some ex_svc)"
  by (simp add: getVarnishSvcForIng_def)

lemma ex_class [simp]: "isVarnishIngress ''varnish'' ex_ing"
  by (simp add: isVarnishIngress_def)

lemma ex_ings: "getIngsForVarnishSvc ex_listers ''ns'' ''varnish'' ex_svc = Ok [ex_ing]"
  by (simp add: getIngsForVarnishSvc_def ing_for_svc_def)

lemma ex_endpoints: "getServiceEndpoints ex_listers ex_svc = Ok (hd ex_endps)"
  "getServiceEndpoints ex_listers ex_coffee = Ok (hd (tl ex_endps))"
  by (simp_all add: getServiceEndpoints_def ex_endps_def ex_meta_def)

lemma ex_addrs: "admin_addrs key (endp_Subsets (hd ex_endps))
    = Ok [\<lparr>addr_IP = ''10.0.0.1'', addr_Port = 6081\<rparr>]"
  by (simp add: ex_endps_def adm_port_def)

text \<open>The controller that knows the secret and the one instance.\<close>

definition ex_vc :: "sim Controller" where
  "ex_vc = (NewVarnishController ex_world)
     \<lparr>vc_svcs := [(''ns/varnish'', new_VarnishSvc
        \<lparr>vs_instances := [\<lparr>vi_addr = ''10.0.0.1:6081'', vi_admSecret = Some 0, vi_Banner = []\<rparr>],
         vs_secrName := ''ns/adm''\<rparr>)],
      vc_secrets := [(''ns/adm'', 0)], vc_heap := [''s3cr3t''],
      vc_svcsGauge := 1, vc_instsGauge := 1, vc_secretsGauge := 1\<rparr>"

lemma ex_adm_addr: "adm_addr \<lparr>addr_IP = ''10.0.0.1'', addr_Port = 6081\<rparr> = ''10.0.0.1:6081''"
  by (simp add: adm_addr_def itoa32_def itoa_def text_base_def digits.simps digit_char_def
      digit_chars_def)

lemma ex_add: "AddOrUpdateVarnishSvc sim_admin (\<lambda>_ xs. xs) ''ns/varnish''
      [\<lparr>addr_IP = ''10.0.0.1'', addr_Port = 6081\<rparr>] ''ns/adm'' True
      (SetAdmSecret ''ns/adm'' ''s3cr3t'' (NewVarnishController ex_world)) = (None, ex_vc)"
  by (simp add: AddOrUpdateVarnishSvc_def SetAdmSecret_def NewVarnishController_def add_svc_def
      put_svc_def new_inst_def ex_adm_addr copy_into_def set_secret_def updateVarnishSvcAddrs_def
      keep_insts_def new_insts_def rem_insts_def update_addrs_def prev_addrs_def gm_of_list_def
      removeVarnishInstances_def updateVarnishSvc_def new_VarnishSvc_def ex_vc_def)

lemma ex_sync: "syncSvc ex_worker ''varnish'' ex_state = (Ok (), ex_state\<lparr>ws_vc := ex_vc\<rparr>)"
  by (simp add: syncSvc_def isVarnishIngSvc_def syncVarnishSvc_def sbind_def ex_varnish_svc
      isVarnishInVCLSpec_def ex_endpoints first_pod_def pod_secret_def register_secret_def
      setSecret_def ex_addrs svc_key_def vc_call_def ex_state_def ex_add)

section \<open>The configuration of the example\<close>

definition ex_backend :: Service where
  "ex_backend = zero_Service\<lparr>svc_Name := ''ns/coffee'',
     svc_Addresses := [\<lparr>addr_IP = ''10.3.7.8'', addr_Port = 8080\<rparr>, \<lparr>addr_IP = ''10.3.7.9'', addr_Port = 8080\<rparr>]\<rparr>"

definition ex_spec :: Spec where
  "ex_spec = zero_Spec
     \<lparr>sp_Rules := [\<lparr>rule_Host = ''cafe.example.com'', rule_PathMap = [(''/coffee'', ex_backend)]\<rparr>],
      sp_AllServices := [(''ns/coffee'', ex_backend)]\<rparr>"

definition ex_cfg :: IngConfig where
  "ex_cfg = \<lparr>ic_spec = ex_spec, ic_ings = ings_meta [ex_ing], ic_vcfg = zero_Meta, ic_bcfg = []\<rparr>"

lemma ex_rules: "ing_Rules ex_ing = [\<lparr>ir_Host = ''cafe.example.com'', ir_HTTP = Some
    [\<lparr>ip_Path = ''/coffee'', ip_Backend = \<lparr>ib_ServiceName = ''coffee'',
       ib_ServicePort = \<lparr>ios_Type = TInt, ios_IntVal = 80, ios_StrVal = []\<rparr>\<rparr>\<rparr>]\<rparr>]"
  by (simp add: ex_ing_def)

lemma ex_target: "getTargetPort ex_listers ex_port ex_coffee = Ok 8080"
  by (simp add: getTargetPort_def ex_port_def zero_IntOrString_def)

lemma ex_backend_svc: "backendSvc ex_listers ''ns'' \<lparr>ib_ServiceName = ''coffee'',
    ib_ServicePort = \<lparr>ios_Type = TInt, ios_IntVal = 80, ios_StrVal = []\<rparr>\<rparr> = Ok (ex_backend, None)"
proof -
  have "port_matches \<lparr>ios_Type = TInt, ios_IntVal = 80, ios_StrVal = []\<rparr> ex_port"
    by (simp add: port_matches_def ex_port_def)
  moreover have "endpsTargetPort2Addrs ex_coffee (hd (tl ex_endps)) 8080 = Ok (svc_Addresses ex_backend)"
    by (simp add: endpsTargetPort2Addrs_def ex_endps_def ex_backend_def)
  ultimately have "ingBackend2Addrs ex_listers ''ns'' \<lparr>ib_ServiceName = ''coffee'',
      ib_ServicePort = \<lparr>ios_Type = TInt, ios_IntVal = 80, ios_StrVal = []\<rparr>\<rparr> = Ok (svc_Addresses ex_backend)"
    by (simp add: ingBackend2Addrs_def ex_endpoints ex_target)
  then show ?thesis
    by (simp add: backendSvc_def getVCLSvc_def find_bcfg_def ex_backend_def)
qed

lemma ex_build: "build_config ex_worker ex_svc [ex_ing] = Ok ex_cfg"
  by (simp add: build_config_def ings2VCLSpec_def ing_step_def ing_ns_def ex_rules rule_step_def
      path_step_def ex_backend_svc put_service_def add_rule_def select_vcfg_def ex_cfg_def ex_spec_def
      zero_Spec_def gm_map_def)

lemma ex_sources: "sources_ok ex_worker [ex_ing]"
  by (simp add: sources_ok_def bcfgs_safe_def has_default_def)

lemma ex_good: "config_good ex_cfg"
  using build_config_good [OF ex_build ex_sources] .

text \<open>A Varnish instance without faults takes any configuration.\<close>

lemma ex_update_instance:
  "fst (updateVarnishInstance sim_admin [''s3cr3t'']
     \<lparr>vi_addr = ''10.0.0.1:6081'', vi_admSecret = Some 0, vi_Banner = []\<rparr> n src ex_world) = None"
  by (simp add: updateVarnishInstance_def sim_admin_def sim_Dial_def ex_world_def update_cmds_def
      sim_query_def load_cfg_def label_cfg_def has_vcl_def has_label_def sim_cmd_def sim_load_def
      sim_label_def)

lemma ex_has: "HasConfig ''ns/varnish'' spec im vm bm ex_vc = Ok (False, spec, ex_vc)"
  by (simp add: HasConfig_def ex_vc_def NewVarnishController_def new_VarnishSvc_def)

lemma ex_update:
  assumes "GetSrc spec = Ok src"
  shows "fst (Update sim_admin ''ns/varnish'' spec im vm bm ex_vc) = None"
proof -
  obtain e i w where u: "updateVarnishInstance sim_admin [''s3cr3t'']
     \<lparr>vi_addr = ''10.0.0.1:6081'', vi_admSecret = Some 0, vi_Banner = []\<rparr> (configName spec) src ex_world
     = (e, i, w)" by (rule prod_cases3)
  then have "e = None" using ex_update_instance [of "configName spec" src] by simp
  with u assms show ?thesis
    by (simp add: Update_def ensure_svc_def ex_vc_def NewVarnishController_def new_VarnishSvc_def
        put_svc_def updateBeGauges_def updateVarnishSvc_def Let_def)
qed

definition ex_ready :: "sim WState" where
  "ex_ready = ex_state\<lparr>ws_vc := ex_vc\<rparr>"

definition ex_installed :: "sim WState" where
  "ex_installed = snd (install_config ex_worker ''ns/varnish'' ex_cfg ex_ready)"

lemma ex_ready_simps [simp]: "ws_vc ex_ready = ex_vc" "ws_queue ex_ready = []"
  by (simp_all add: ex_ready_def ex_state_def)

lemma ex_install: "install_config ex_worker ''ns/varnish'' ex_cfg ex_ready = (Ok (), ex_installed)"
proof -
  have "\<exists>src. GetSrc (Canonical_effect ex_spec) = Ok src"
    using ex_good by (intro GetSrc_total) (simp_all add: config_good_def ex_cfg_def)
  then obtain src where "GetSrc (Canonical_effect ex_spec) = Ok src" by blast
  from ex_update [OF this] have "fst (install_config ex_worker ''ns/varnish'' ex_cfg ex_ready) = Ok ()"
    by (simp add: install_config_def ex_has vc_call_def ex_cfg_def case_prod_unfold)
  then show ?thesis by (simp add: ex_installed_def prod_eq_iff)
qed

lemma ex_distinct: "addrs_distinct ex_vc"
  by (simp add: addrs_distinct_def ex_vc_def NewVarnishController_def)

lemma ex_ing_sync: "addOrUpdateIng ex_worker ex_ing ex_ready = (Ok (), ex_installed)"
  by (simp add: addOrUpdateIng_def ex_varnish_svc ex_ings ex_build svc_key_def ex_install)

lemma ex_order: "map_order_ok (\<lambda>_ xs. xs)"
  by (simp add: map_order_ok_def)

lemma ex_reach: "vc_reach sim_admin ex_vc"
proof -
  have "vc_reach sim_admin (SetAdmSecret ''ns/adm'' ''s3cr3t'' (NewVarnishController ex_world))"
    by (rule reach_step [OF reach_init step_SetAdmSecret])
  then show ?thesis by (rule reach_step) (rule step_AddOrUpdate [OF ex_order ex_add])
qed

lemma ex_run: "vc_run sim_admin [OpSkip, OpAddrs ''ns/varnish'' [\<lparr>addr_IP = ''10.0.0.1'', addr_Port = 6081\<rparr>]]
    ex_vc"
proof -
  have "vc_run sim_admin ([] @ [OpSkip]) (SetAdmSecret ''ns/adm'' ''s3cr3t'' (NewVarnishController ex_world))"
    by (rule run_step [OF run_init exec_SetAdmSecret])
  from run_step [OF this exec_AddOrUpdate [OF ex_order ex_add]] show ?thesis by simp
qed

lemma ex_ok: "vc_ok ex_vc"
  by (rule vc_reach_ok [OF ex_reach])

lemma ex_local: "listers_local ex_worker"
  by (auto simp: listers_local_def ex_listers_def ex_get_def ex_in_ns_def ex_svc_def ex_coffee_def
      ex_meta_def split: option.split_asm if_split_asm)

section \<open>Repeated synchronisations\<close>

lemma ex_asked: "asked ex_worker ex_ing = Some (''ns/varnish'', ex_cfg)"
  by (simp add: asked_def ex_varnish_svc ex_ings ex_build svc_key_def)

lemma ex_ing_ready: "ing_ready ex_worker ex_ing"
  by (simp add: ing_ready_def ex_varnish_svc ex_ings ex_sources)

lemma ex_keys_unique: "svc_keys_unique ex_listers ''ns''"
  by (simp add: svc_keys_unique_def)

lemma ex_sound: "sound sim_vcls ex_vc"
  by (simp add: sound_def addrs_apart_def svc_addrs_def svc_true_def stored_good_def ex_vc_def
      NewVarnishController_def new_VarnishSvc_def)

text \<open>The state after the installation is reached by calls that keep the records reliable.\<close>

lemma ex_good_reach: "good_reach sim_admin ex_vc"
proof -
  have "good_reach sim_admin (SetAdmSecret ''ns/adm'' ''s3cr3t'' (NewVarnishController ex_world))"
    by (rule good_next [OF good_init good_SetAdmSecret])
  then show ?thesis
    by (rule good_next) (rule good_AddOrUpdate [OF ex_order _ ex_add],
      simp add: svc_addrs_def SetAdmSecret_def NewVarnishController_def)
qed

lemma ex_ready_keep: "ex_ready\<lparr>ws_vc := ex_vc\<rparr> = ex_ready"
  by (simp add: ex_ready_def)

lemma ex_installed_good: "good_reach sim_admin (ws_vc ex_installed)"
proof -
  obtain e vc' where u: "Update sim_admin ''ns/varnish'' (Canonical_effect ex_spec) (ic_ings ex_cfg)
      zero_Meta [] ex_vc = (e, vc')" by fastforce
  have "snd (vc_call (Update sim_admin ''ns/varnish'' (Canonical_effect ex_spec) (ic_ings ex_cfg)
      zero_Meta []) ex_ready) = ex_installed"
    using ex_install ex_ready_keep by (simp add: install_config_def ex_has ex_cfg_def)
  with u have "ex_installed = ex_ready\<lparr>ws_vc := vc'\<rparr>" by (simp add: vc_call_def)
  from arg_cong [OF this, of ws_vc] u have "Update sim_admin ''ns/varnish'' (Canonical_effect ex_spec)
      (ic_ings ex_cfg) zero_Meta [] ex_vc = (e, ws_vc ex_installed)" by simp
  moreover have "spec_ports_agree ex_spec" "gm_ok (ic_ings ex_cfg)"
    using ex_good by (simp_all add: config_good_def) (simp add: ex_cfg_def)
  ultimately show ?thesis
    by (intro good_next [OF ex_good_reach] good_Update) simp_all
qed

lemma ex_serves: "serves sim_vcls ''ns/varnish'' ex_cfg (ws_vc ex_installed)"
  using sim.install_config_sound(2) [OF ex_install _ _ ex_good] by (simp add: ex_sound)

lemma ex_has_again:
  "\<exists>t vc'. HasConfig ''ns/varnish'' (Canonical_effect ex_spec) (ic_ings ex_cfg) zero_Meta []
     (ws_vc ex_installed) = Ok (True, t, vc')"
  using ex_serves sim.HasConfig_found [OF _ _ _ _ _ _ _ ex_good, of "ws_vc ex_installed" "''ns/varnish''"]
  by (fastforce simp: serves_def in_place_def ex_cfg_def)

lemma ex_installed_svc:
  "\<exists>svc. gm_get (vc_svcs (ws_vc ex_installed)) ''ns/varnish'' = Some svc"
  using ex_serves by (auto simp: serves_def)

lemma ex_installed_addrs: "svc_addrs ''ns/varnish'' (ws_vc ex_installed) = [''10.0.0.1:6081'']"
  using sim.install_config_only [OF ex_install]
  by (simp add: only_svc_def svc_addrs_def ex_vc_def NewVarnishController_def new_VarnishSvc_def)

section \<open>A run of the system\<close>

text \<open>The informer announces the Varnish Service; its key is routed, and the worker synchronises it.\<close>

definition ex_keyf :: "KObj \<Rightarrow> string option" where
  "ex_keyf obj =
     (if obj_ns obj = ''ns'' then map_option (\<lambda>m. ''ns/'' @ om_Name m) (obj_meta obj) else None)"

definition ex_item :: item where
  "ex_item = ISync \<lparr>so_Type = SyncAdd, so_Obj = OService ex_svc\<rparr>"

definition ex_queue :: "item list \<Rightarrow> Fifo" where
  "ex_queue items = \<lparr>ff_waiting = items, ff_processing = [], ff_down = False\<rparr>"

definition ex_added :: "Fifo NamespaceQueues" where
  "ex_added = \<lparr>nq_Queue = ex_queue [ex_item], nq_workers = []\<rparr>"

definition ex_routed :: "Fifo NamespaceQueues" where
  "ex_routed = \<lparr>nq_Queue = ex_queue [], nq_workers = [(''ns'', ex_queue [ex_item])]\<rparr>"

definition ex_system :: "(sim, Fifo) System" where
  "ex_system = \<lparr>sys_queues = \<lparr>nq_Queue = ex_queue [], nq_workers = [(''ns'', ex_queue [])]\<rparr>,
     sys_vc = ex_vc\<rparr>"

abbreviation "ex_split \<equiv> l_splitKey ex_listers"

lemma ex_keys: "keys_local ex_keyf ex_split"
  by (auto simp: keys_local_def getNameSpace_def ex_keyf_def bind_eq_Some_conv split: if_split_asm)

lemma ex_name: "getNameSpace ex_keyf ex_split (OService ex_svc) = Some (''ns'', ''varnish'')"
  by (simp add: getNameSpace_def ex_keyf_def)

lemma ex_get_item: "q_Get fifo (ex_queue [ex_item])
    = Some (ex_item, \<lparr>ff_waiting = [], ff_processing = [ex_item], ff_down = False\<rparr>)"
  by (simp add: ex_queue_def fifo_def fifo_get_def)

lemma ex_dispatch: "dispatch ex_worker ex_keyf ex_item ex_state = (Ok (), ex_state\<lparr>ws_vc := ex_vc\<rparr>)"
  using ex_name by (simp add: dispatch_def ex_item_def sync_obj_def ex_sync)

lemma ex_work: "worker_next ex_worker ex_keyf fifo (ex_queue [ex_item], ex_state)
    = Ok (ex_queue [], syncSuccess (OService ex_svc) (ex_state\<lparr>ws_vc := ex_vc\<rparr>))"
proof -
  have q: "ex_state\<lparr>ws_queue := []\<rparr> = ex_state" by (simp add: ex_state_def)
  show ?thesis
    by (simp add: worker_next_def ex_get_item q ex_dispatch Let_def)
      (simp add: fifo_def ex_queue_def ex_item_def event_defs ex_state_def)
qed

lemma ex_route: "ns_next ex_keyf ex_split fifo ex_added = ex_routed"
  by (simp add: ns_next_def ex_added_def ex_get_item)
    (simp add: ex_item_def ex_name fifo_def fifo_add_def ex_routed_def ex_queue_def)

lemma ex_sys_reach: "sys_reach sim_admin ex_keyf ex_split fifo ex_system"
proof -
  let ?S = "\<lambda>qs. \<lparr>sys_queues = qs, sys_vc = NewVarnishController ex_world\<rparr>"
  have "sys_reach sim_admin ex_keyf ex_split fifo (?S \<lparr>nq_Queue = q_New fifo [], nq_workers = []\<rparr>)"
    by (rule sys_init)
  from sys_next [OF this sys_add, of "OService ex_svc"]
  have "sys_reach sim_admin ex_keyf ex_split fifo (?S ex_added)"
    by (simp add: addObj_def fifo_def fifo_add_def ex_added_def ex_queue_def ex_item_def)
  from sys_next [OF this sys_route]
  have r: "sys_reach sim_admin ex_keyf ex_split fifo (?S ex_routed)" by (simp add: ex_route)
  have ok: "worker_ok sim_admin ex_split ''ns'' ex_worker"
    by (simp add: worker_ok_def ex_order ex_local)
  have w: "gm_get (nq_workers (sys_queues (?S ex_routed))) ''ns'' = Some (ex_queue [ex_item])"
    by (simp add: ex_routed_def)
  have "\<lparr>ws_vc = sys_vc (?S ex_routed), ws_queue = [], ws_events = [], ws_recorded = []\<rparr> = ex_state"
    by (simp add: ex_state_def)
  from sys_next [OF r sys_work [OF ok w]] this ex_work show ?thesis
    by (simp add: ex_system_def ex_routed_def event_defs)
qed

section \<open>A configuration that is still to be loaded\<close>

text \<open>
  The Service has the configuration of the example and the given instances; only the one at
  \<open>10.0.0.1:6081\<close> runs.
\<close>

definition ex_inst :: VarnishInst where
  "ex_inst = \<lparr>vi_addr = ''10.0.0.1:6081'', vi_admSecret = Some 0, vi_Banner = []\<rparr>"

definition ex_no_secret :: VarnishInst where
  "ex_no_secret = \<lparr>vi_addr = ''10.0.0.2:6081'', vi_admSecret = None, vi_Banner = []\<rparr>"

definition ex_meta_spec :: VclSpecMeta where
  "ex_meta_spec = \<lparr>vm_spec = ex_spec, vm_ings = [], vm_vcfg = zero_Meta, vm_bcfg = []\<rparr>"

definition ex_pending_svc :: "VarnishInst list \<Rightarrow> VarnishSvc" where
  "ex_pending_svc insts = \<lparr>vs_instances = insts, vs_spec = Some ex_meta_spec, vs_secrName = ''ns/adm'',
     vs_cfgLoaded = False\<rparr>"

definition ex_pending :: "VarnishInst list \<Rightarrow> sim Controller" where
  "ex_pending insts = ex_vc\<lparr>vc_svcs := [(''ns/varnish'', ex_pending_svc insts)]\<rparr>"

lemma ex_pending_simps [simp]:
  "gm_get (vc_svcs (ex_pending insts)) ''ns/varnish'' = Some (ex_pending_svc insts)"
  "vs_instances (ex_pending_svc insts) = insts" "vs_spec (ex_pending_svc insts) = Some ex_meta_spec"
  "vs_secrName (ex_pending_svc insts) = ''ns/adm''" "vm_spec ex_meta_spec = ex_spec"
  "vc_world (ex_pending insts) = ex_world" "vc_heap (ex_pending insts) = [''s3cr3t'']"
  "gm_ok (vc_svcs (ex_pending insts))"
  "vi_addr ex_inst = ''10.0.0.1:6081''" "vi_addr ex_no_secret = ''10.0.0.2:6081''"
  "vi_admSecret ex_inst = Some 0" "vi_admSecret ex_no_secret = None"
  by (simp_all add: ex_pending_def ex_pending_svc_def ex_meta_spec_def ex_inst_def ex_no_secret_def
      ex_vc_def NewVarnishController_def gm_ok_def)

lemma ex_pending_ok: "vc_ok (ex_pending [ex_inst])"
  by (simp add: vc_ok_def secrets_valid_def ex_pending_def ex_vc_def NewVarnishController_def gm_ok_def)

lemma ex_src: "\<exists>src. GetSrc ex_spec = Ok src"
  using ex_good by (intro GetSrc_total) (simp_all add: config_good_def ex_cfg_def)

lemma ex_load:
  assumes "vi_addr i = ''10.0.0.1:6081''" and "vi_admSecret i = Some 0"
  shows "fst (updateVarnishInstance sim_admin [''s3cr3t''] i n src ex_world) = None"
  using assms ex_update_instance [of n src] by (simp add: updateVarnishInstance_def split: sum.splits prod.splits)

lemma ex_load_none: "updateVarnishInstance sim_admin heap ex_no_secret n src w
    = (Some NoSecret, ex_no_secret, w)"
  by (simp add: updateVarnishInstance_def)

lemma ex_pending_update:
  assumes "vi_addr inst = ''10.0.0.1:6081''" and "vi_admSecret inst = Some 0"
  shows "fst (updateVarnishSvc sim_admin ''ns/varnish'' (ex_pending [inst])) = None"
proof -
  obtain src where src: "GetSrc ex_spec = Ok src" using ex_src by blast
  obtain e i w where u: "updateVarnishInstance sim_admin [''s3cr3t''] inst (configName ex_spec) src
      ex_world = (e, i, w)" by (rule prod_cases3)
  then have "e = None" using ex_load [OF assms, of "configName ex_spec" src] by simp
  with u src show ?thesis by (simp add: updateVarnishSvc_def Let_def)
qed

lemma ex_pending_partial:
  "fst (updateVarnishSvc sim_admin ''ns/varnish'' (ex_pending [ex_inst, ex_no_secret]))
     = Some (AdmErrs [(''10.0.0.2:6081'', NoSecret)])"
proof -
  obtain src where src: "GetSrc ex_spec = Ok src" using ex_src by blast
  obtain e i w where u: "updateVarnishInstance sim_admin [''s3cr3t''] ex_inst (configName ex_spec) src
      ex_world = (e, i, w)" by (rule prod_cases3)
  then have "e = None" using ex_load [of ex_inst "configName ex_spec" src] by simp
  with u src show ?thesis by (simp add: updateVarnishSvc_def Let_def ex_load_none errs_result_def)
qed

text \<open>A check of the instance finds nothing to discard and nothing to report.\<close>

lemma ex_check: "checkInst sim_admin [''s3cr3t''] k ex_inst ex_world
    = (True, [], ex_inst\<lparr>vi_Banner := ''Varnish''\<rparr>, ex_world)"
  by (simp add: checkInst_def sim_admin_def sim_Dial_def ex_world_def check_cmds_def sim_cmd_def
      sim_query_def)

lemma ex_monitor: "(EvtError, ''ns/varnish'', updateErr)
    \<notin> set (fst (monitor_svc sim_admin ''ns/varnish'' (ex_pending [ex_inst])))"
proof -
  let ?i = "ex_inst\<lparr>vi_Banner := ''Varnish''\<rparr>"
  let ?vc = "(put_svc ''ns/varnish'' ((ex_pending_svc [ex_inst])\<lparr>vs_instances := [?i]\<rparr>)
      (ex_pending [ex_inst]))\<lparr>vc_world := ex_world\<rparr>"
  have "?vc = ex_pending [?i]"
    by (simp add: ex_pending_def put_svc_def ex_pending_svc_def ex_vc_def NewVarnishController_def)
  moreover have "fst (updateVarnishSvc sim_admin ''ns/varnish'' (ex_pending [?i])) = None"
    by (rule ex_pending_update) simp_all
  ultimately obtain vc2 where "updateVarnishSvc sim_admin ''ns/varnish'' ?vc = (None, vc2)"
    by (metis prod.collapse)
  then show ?thesis by (simp add: monitor_svc_def ex_check)
qed

text \<open>An instance with a cold configuration of the controller and a cold one of somebody else.\<close>

definition ex_old :: VCLData where
  "ex_old = \<lparr>vd_Name = ''vk8s_ing_old'', vd_LabelVCL = [], vd_State = ColdState\<rparr>"

definition ex_boot :: VCLData where
  "ex_boot = \<lparr>vd_Name = ''boot'', vd_LabelVCL = [], vd_State = ColdState\<rparr>"

definition ex_sim :: "VCLData list \<Rightarrow> sim" where
  "ex_sim vcls = [\<lparr>si_addr = ''10.0.0.1:6081'', si_secret = ''s3cr3t'', si_vcls = vcls, si_src = [],
     si_fault = None\<rparr>]"

lemma ex_sweep: "check_loop sim_admin [''s3cr3t''] ''ns/varnish'' [ex_inst] (ex_sim [ex_old, ex_boot])
    = (True, [], [ex_inst\<lparr>vi_Banner := ''Varnish''\<rparr>], ex_sim [ex_boot])"
  by (simp add: checkInst_def sim_admin_def sim_Dial_def ex_sim_def check_cmds_def sim_cmd_def
      sim_query_def discardable_def HasPrefix_def ex_old_def ex_boot_def sim_discard_def gm_del_def)

section \<open>Two rules\<close>

definition ex_rule1 :: Rule where
  "ex_rule1 = \<lparr>rule_Host = ''a.example.com'', rule_PathMap = []\<rparr>"

definition ex_rule2 :: Rule where
  "ex_rule2 = \<lparr>rule_Host = ''b.example.com'', rule_PathMap = []\<rparr>"

definition ex_two_rules :: "Rule \<Rightarrow> Rule \<Rightarrow> Spec" where
  "ex_two_rules r r' = zero_Spec\<lparr>sp_Rules := [r, r']\<rparr>"

section \<open>Other resources\<close>

definition ex_synth :: "int64 option \<Rightarrow> RequestDispSpec" where
  "ex_synth status =
     \<lparr>rd_Conditions = [\<lparr>rc_Values = [''PUT''], rc_MatchFlags = None, rc_Count = None,
        rc_Comparand = ''req.method'', rc_Compare = ''equal''\<rparr>],
      rd_Disposition = \<lparr>cd_Action = ''synth'', cd_Status = status, cd_Reason = []\<rparr>\<rparr>"

definition ex_vcfg :: "int64 option \<Rightarrow> VarnishConfig" where
  "ex_vcfg status =
     \<lparr>vcfg_Kind = ''VarnishConfig'', vcfg_Meta = ex_meta ''cfg'',
      vcfg_Spec = \<lparr>vcs_Services = [''varnish''], vcs_SelfSharding = None, vcs_VCL = [],
        vcs_Auth = [\<lparr>as_Realm = ''foo'', as_SecretName = ''adm'', as_Type = [], as_UTF8 = False,
          as_Conditions = []\<rparr>],
        vcs_ACLs = [], vcs_Rewrites = [], vcs_ReqDispositions = [ex_synth status]\<rparr>\<rparr>"

definition ex_default :: Ingress where
  "ex_default = \<lparr>ing_Meta = ex_meta ''dflt'',
     ing_Backend = Some \<lparr>ib_ServiceName = ''coffee'',
       ib_ServicePort = \<lparr>ios_Type = TInt, ios_IntVal = 80, ios_StrVal = []\<rparr>\<rparr>,
     ing_Rules = []\<rparr>"

lemma ex_default_simps:
  "ing_Namespace ex_default = ''ns''" "ing_Rules ex_default = []"
  "ing_Backend ex_default = Some \<lparr>ib_ServiceName = ''coffee'',
     ib_ServicePort = \<lparr>ios_Type = TInt, ios_IntVal = 80, ios_StrVal = []\<rparr>\<rparr>"
  by (simp_all add: ex_default_def ex_meta_def)

section \<open>A Service with two ports\<close>

definition ex_backend_at :: "int32 \<Rightarrow> IngressBackend" where
  "ex_backend_at p = \<lparr>ib_ServiceName = ''coffee'',
     ib_ServicePort = \<lparr>ios_Type = TInt, ios_IntVal = p, ios_StrVal = []\<rparr>\<rparr>"

definition ex_two_ports :: Listers where
  "ex_two_ports = ex_listers
     \<lparr>l_svc_Get := (\<lambda>ns key. Inr (ex_coffee\<lparr>ks_Ports :=
        [ex_port, ex_port\<lparr>kp_Port := 81,
           kp_TargetPort := \<lparr>ios_Type = TInt, ios_IntVal = 8081, ios_StrVal = []\<rparr>\<rparr>]\<rparr>)),
      l_endp_List := (\<lambda>ns. Inr [\<lparr>endp_Meta = ex_meta ''coffee'', endp_Subsets =
        [\<lparr>es_Addresses = [''10.3.7.8''], es_NotReadyAddresses = [],
           es_Ports = [\<lparr>ep_Name = ''http'', ep_Port = 8080\<rparr>]\<rparr>,
         \<lparr>es_Addresses = [''10.3.7.9''], es_NotReadyAddresses = [],
           es_Ports = [\<lparr>ep_Name = ''alt'', ep_Port = 8081\<rparr>]\<rparr>]\<rparr>])\<rparr>"

lemma ex_two_ports_addrs:
  "ingBackend2Addrs ex_two_ports ''ns'' (ex_backend_at 80)
     = Ok [\<lparr>addr_IP = ''10.3.7.8'', addr_Port = 8080\<rparr>]"
  "ingBackend2Addrs ex_two_ports ''ns'' (ex_backend_at 81)
     = Ok [\<lparr>addr_IP = ''10.3.7.9'', addr_Port = 8081\<rparr>]"
  by (simp_all add: ingBackend2Addrs_def ex_two_ports_def ex_backend_at_def port_matches_def
      ex_port_def getServiceEndpoints_def ex_meta_def ex_coffee_def getTargetPort_def
      zero_IntOrString_def endpsTargetPort2Addrs_def)

section \<open>A loaded configuration, a faulty instance, a cluster\<close>

definition ex_loaded :: "sim Controller" where
  "ex_loaded = ex_vc\<lparr>vc_svcs := [(''ns/varnish'', (ex_pending_svc [ex_inst])\<lparr>vs_cfgLoaded := True\<rparr>)]\<rparr>"

lemma ex_loaded_simps:
  "gm_get (vc_svcs ex_loaded) ''ns/varnish'' = Some ((ex_pending_svc [ex_inst])\<lparr>vs_cfgLoaded := True\<rparr>)"
  "vs_spec ((ex_pending_svc [ex_inst])\<lparr>vs_cfgLoaded := True\<rparr>) = Some ex_meta_spec"
  "vs_cfgLoaded ((ex_pending_svc [ex_inst])\<lparr>vs_cfgLoaded := True\<rparr>)"
  by (simp_all add: ex_loaded_def)

definition ex_broken :: sim where
  "ex_broken = [\<lparr>si_addr = ''10.0.0.1:6081'', si_secret = ''s3cr3t'', si_vcls = [], si_src = [],
     si_fault = Some (AdmFailure ''No VCL named vk8s_notavailable'')\<rparr>]"

definition ex_shard_listers :: Listers where
  "ex_shard_listers = ex_listers
     \<lparr>l_endp_List := (\<lambda>ns. Inr [\<lparr>endp_Meta = ex_meta ''varnish'', endp_Subsets =
        [\<lparr>es_Addresses = [''10.0.0.1'', ''10.0.0.2''], es_NotReadyAddresses = [],
           es_Ports = [\<lparr>ep_Name = ''http'', ep_Port = 80\<rparr>]\<rparr>]\<rparr>]),
      l_pods := (\<lambda>svc. Inr [ex_pod, ex_pod\<lparr>pod_Meta := ex_meta ''varnish-1'', pod_PodIP := ''10.0.0.2''\<rparr>])\<rparr>"

definition ex_shard_spec :: SelfShardSpec where
  "ex_shard_spec = \<lparr>ss_Max2ndTTL = ''10s'', ss_Probe = \<lparr>ps_URL = [], ps_Request = [], ps_ExpResponse = None,
     ps_Timeout = [], ps_Interval = [], ps_Initial = None, ps_Window = None, ps_Threshold = None\<rparr>\<rparr>"

definition ex_shard_vcfg :: VarnishConfig where
  "ex_shard_vcfg = (ex_vcfg None)\<lparr>vcfg_Spec := (vcfg_Spec (ex_vcfg None))
     \<lparr>vcs_SelfSharding := Some ex_shard_spec\<rparr>\<rparr>"

text \<open>The Varnish Service gets a second instance, while a VarnishConfig for another Service has
  self-sharding.\<close>

definition ex_other_shard :: VarnishConfig where
  "ex_other_shard = ex_shard_vcfg\<lparr>vcfg_Spec := (vcfg_Spec ex_shard_vcfg)\<lparr>vcs_Services := [''other'']\<rparr>\<rparr>"

definition ex_two_endps :: Endpoints where
  "ex_two_endps = \<lparr>endp_Meta = ex_meta ''varnish'', endp_Subsets = [\<lparr>es_Addresses = [''10.0.0.1'', ''10.0.0.2''],
     es_NotReadyAddresses = [], es_Ports = [\<lparr>ep_Name = ''varnishadm'', ep_Port = 6081\<rparr>]\<rparr>]\<rparr>"

definition ex_scaled :: "sim Worker" where
  "ex_scaled = ex_worker\<lparr>wk_listers := ex_listers
     \<lparr>l_vcfg_List := (\<lambda>ns. Inr [ex_other_shard]), l_endp_List := (\<lambda>ns. Inr [ex_two_endps])\<rparr>\<rparr>"

lemma ex_scaled_simps [simp]:
  "wk_namespace ex_scaled = ''ns''" "wk_admin ex_scaled = sim_admin"
  "wk_addr_order ex_scaled = (\<lambda>_ xs. xs)"
  "l_ing_ns_List (wk_listers ex_scaled) ''ns'' = Inr [ex_ing]"
  "l_secr_Get (wk_listers ex_scaled) ns ''adm'' = Inr ex_secret"
  "first_pod (wk_listers ex_scaled) ex_svc = Ok ex_pod"
  "getServiceEndpoints (wk_listers ex_scaled) ex_svc = Ok ex_two_endps"
  by (simp_all add: ex_scaled_def first_pod_def getServiceEndpoints_def ex_two_endps_def ex_meta_def)

lemma ex_scaled_sharding: "isVarnishInVCLSpec ex_scaled"
  by (simp add: isVarnishInVCLSpec_def ex_scaled_def ex_other_shard_def ex_shard_vcfg_def)

lemma ex_scaled_ing: "getVarnishSvcForIng (wk_listers ex_scaled) ''ns'' ex_ing = Ok (Some ex_svc)"
  using ex_varnish_svc by (simp add: getVarnishSvcForIng_def ex_scaled_def)

lemma ex_scaled_sync: "fst (syncVarnishSvc ex_scaled ex_svc ex_installed) = Ok ()"
proof -
  let ?addrs = "[\<lparr>addr_IP = ''10.0.0.1'', addr_Port = 6081\<rparr>, \<lparr>addr_IP = ''10.0.0.2'', addr_Port = 6081\<rparr>]"
  let ?st1 = "enqueue (update_obj (OIngress ex_ing)) ex_installed"
  obtain st2 where r: "register_secret ex_scaled ''adm'' ?st1 = (Ok (), st2)"
    by (simp add: register_secret_def setSecret_def)
  obtain e vc' where a: "AddOrUpdateVarnishSvc sim_admin (\<lambda>_ xs. xs) ''ns/varnish'' ?addrs ''ns/adm'' False
      (ws_vc st2) = (e, vc')" by fastforce
  have "vc_svcs (ws_vc st2) = vc_svcs (ws_vc ex_installed)"
    using register_secret_same [of ex_scaled "''adm''" ?st1] r by (simp add: enqueue_def)
  then have "e = None"
    using AddOrUpdateVarnishSvc_grow [OF a] ex_installed_svc ex_installed_addrs ex_adm_addr
    by (auto simp: svc_addrs_def)
  moreover have "admin_addrs (svc_key ex_svc) (endp_Subsets ex_two_endps) = Ok ?addrs"
    by (simp add: ex_two_endps_def adm_port_def)
  ultimately show ?thesis
    using a r by (simp add: syncVarnishSvc_def sbind_def ex_scaled_ing ex_scaled_sharding pod_secret_def
        svc_key_def vc_call_def)
qed

lemma ex_shard_config:
  "vcs_SelfSharding (vcfg_Spec ex_shard_vcfg) = Some ex_shard_spec"
  "shardNodes ex_shard_listers ex_svc = Ok (map (shard_node 80)
     [ex_pod, ex_pod\<lparr>pod_Meta := ex_meta ''varnish-1'', pod_PodIP := ''10.0.0.2''\<rparr>])"
  "\<exists>v. getVCLProbe (ss_Probe ex_shard_spec) = Ok v"
  by (simp_all add: ex_shard_vcfg_def shardNodes_def ex_shard_listers_def getServiceEndpoints_def
      ex_svc_def ex_meta_def http_port_def podNodes_def ex_shard_spec_def getVCLProbe_def Let_def)

lemma ex_built: "ings2VCLSpec ex_listers [ex_ing] = Ok (ex_spec, [])"
  by (simp add: ings2VCLSpec_def ing_step_def ing_ns_def ex_rules rule_step_def path_step_def
      ex_backend_svc put_service_def add_rule_def ex_spec_def zero_Spec_def)

section \<open>Two paths, a host in two Ingresses, negated conditions\<close>

definition ex_paths :: Ingress where
  "ex_paths = ex_ing\<lparr>ing_Rules := [\<lparr>ir_Host = ''cafe.example.com'', ir_HTTP = Some
     [\<lparr>ip_Path = ''/coffee/special'', ip_Backend = ex_backend_at 80\<rparr>,
      \<lparr>ip_Path = ''/coffee'', ip_Backend = ex_backend_at 80\<rparr>]\<rparr>]\<rparr>"

definition ex_rule :: IngressRule where
  "ex_rule = hd (ing_Rules ex_paths)"

lemma ex_paths_target: "backend_target ex_listers ''ns'' (ex_backend_at 80) = Some ex_backend"
  by (simp add: backend_target_def ex_backend_at_def ex_backend_svc)

lemma ex_paths_rule:
  "(''ns'', ex_rule) \<in> set (ing_rules [ex_paths])"
  "path_backend (rule_paths ex_rule) ''/coffee'' = Some (ex_backend_at 80)"
  "path_backend (rule_paths ex_rule) ''/coffee/special'' = Some (ex_backend_at 80)"
  "ir_Host ex_rule = ''cafe.example.com''"
  by (simp_all add: ing_rules_def ex_rule_def ex_paths_def ing_ns_def path_backend_def rule_paths_def)

lemma ex_paths_built: "\<exists>spec. ings2VCLSpec ex_listers [ex_paths] = Ok (spec, [])
   \<and> sp_Dispositions spec = [] \<and> shard_Nodes (sp_ShardCluster spec) = []"
  by (simp add: ings2VCLSpec_def ing_step_def ing_ns_def ex_paths_def rule_step_def path_step_def
      ex_backend_at_def ex_backend_svc put_service_def add_rule_def zero_Spec_def zero_ShardCluster_def)

lemma ex_paths_src: "\<exists>spec src. ings2VCLSpec ex_listers [ex_paths] = Ok (spec, []) \<and> GetSrc spec = Ok src"
  using ex_paths_built GetSrc_Ok_iff by fastforce

lemma ex_twice_src: "\<exists>spec src. ings2VCLSpec ex_listers [ex_ing, ex_ing] = Ok (spec, []) \<and> GetSrc spec = Ok src"
proof -
  have "\<exists>spec. ings2VCLSpec ex_listers [ex_ing, ex_ing] = Ok (spec, [])
     \<and> sp_Dispositions spec = [] \<and> shard_Nodes (sp_ShardCluster spec) = []"
    by (simp add: ings2VCLSpec_def ing_step_def ing_ns_def ex_rules rule_step_def path_step_def
      ex_backend_svc put_service_def add_rule_def zero_Spec_def zero_ShardCluster_def)
  then show ?thesis using GetSrc_Ok_iff by fastforce
qed

text \<open>A factory that has an informer of each type from the start.\<close>

fun ex_kube :: "k8s_type \<Rightarrow> unit \<Rightarrow> nat \<times> unit" where
  "ex_kube TIngress s = (0, s)"
| "ex_kube TService s = (1, s)"
| "ex_kube TEndpoints s = (2, s)"
| "ex_kube TSecret s = (3, s)"

lemma ex_kube: "informer_factory ex_kube (\<lambda>s k. Some (fst (ex_kube k s)))"
  by unfold_locales (auto intro: prod_eqI)

text \<open>A request with the method PUT, and the condition on its method.\<close>

definition ex_request :: vcl_env where
  "ex_request = \<lparr>ve_set = (\<lambda>cmp fl vals x. list_ex (\<lambda>v. v = ''PUT'') vals), ve_eq = (\<lambda>x v. v = ''PUT''),
     ve_num = (\<lambda>x. 0), ve_present = (\<lambda>x. True)\<rparr>"

definition ex_rcond :: "string \<Rightarrow> ReqCondition" where
  "ex_rcond compare = \<lparr>rc_Values = [''PUT''], rc_MatchFlags = None, rc_Count = None,
     rc_Comparand = ''req.method'', rc_Compare = compare\<rparr>"

definition ex_cond :: "string \<Rightarrow> Condition" where
  "ex_cond compare = configReqCondition (ex_rcond compare)"

lemma ex_rcond_valid: "compare \<in> {''equal'', ''not-equal''} \<Longrightarrow> condition_valid (ex_rcond compare)"
  by (auto simp: condition_valid_def ex_rcond_def ordering_compare_def numeric_comparand_def)

lemma ex_cond_simps:
  "cond_Values (ex_cond compare) = [''PUT'']" "cond_Count (ex_cond compare) = None"
  "cond_Comparand (ex_cond compare) = ''req.method''"
  "cond_Compare (ex_cond ''equal'') = Equal" "cond_Negate (ex_cond ''equal'') = False"
  "cond_Compare (ex_cond ''not-equal'') = Equal" "cond_Negate (ex_cond ''not-equal'') = True"
  by (simp_all add: ex_cond_def ex_rcond_def configReqCondition_def configComparison_def)

lemma ex_cond_match: "eq_is_match ex_request (ex_cond compare)"
  by (simp add: eq_is_match_def ex_request_def)

lemma ex_cond_equal:
  "\<not> negated_twice (ex_cond ''equal'')" "documented ex_request (ex_cond ''equal'')"
  by (simp_all add: negated_twice_def documented_def ex_cond_simps, simp add: ex_request_def)

lemma ex_cond_not_equal:
  "negated_twice (ex_cond ''not-equal'')" "\<not> documented ex_request (ex_cond ''not-equal'')"
  "operand_text (cond_operand (ex_cond ''not-equal'')) = ''\"PUT\"''"
  by (simp_all add: negated_twice_def documented_def ex_cond_simps reqNeedsMatcher_def cond_operand_def,
      simp add: ex_request_def)

lemma ex_synth_config: "\<exists>d. configReqDisp (ex_synth (Some 405)) = Ok d \<and> disp_Conditions d = [ex_cond ''equal'']"
  by (simp add: configReqDisp_def configDisposition_def ex_synth_def ex_cond_def ex_rcond_def)

end
