(* ===== verification/Further.thy ===== *)
theory Further
  imports Example
begin

text \<open>
  Further theorems on single parts, with their instances on the example: what symbols and listers give
  back, when updates of objects are queued, what the callbacks of informers count, where the router puts
  an object, what is stored as a secret, when \<open>HasConfig\<close> answers true, what an update leaves alone, with
  what options the process starts, what the templates and the clientset need, when directors have
  different names, and where two ports of a Service or two Ingresses for a host collide.
\<close>

text \<open>The canonical form is a fixed point, and the sorting that \<open>Canonical\<close> does on the slices
  of its argument changes neither the canonical form nor the name.\<close>

theorem canonical_stable:
  assumes "spec_ports_agree s"
  shows "Canonical (Canonical s) = Canonical s \<and> Canonical (Canonical_effect s) = Canonical s
     \<and> configName (Canonical_effect s) = configName s \<and> configName (Canonical s) = configName s"
  using assms
  by (simp add: Canonical_idem Canonical_of_effect configName_def)

theorem canonical_stable_witness: "configName (Canonical_effect ex_spec) = configName ex_spec"
proof -
  have "spec_ports_agree ex_spec" using ex_good by (simp add: config_good_def ex_cfg_def)
  from canonical_stable [OF this] show ?thesis by simp
qed

text \<open>The order in which Go visits the map of a Secret does not matter: the canonical form of a
  specification, and so its name, is the same for any two orders.\<close>

theorem auth_map_order_free:
  assumes "\<And>i xs. mset (p i xs) = mset (q i xs)"
    and "configAuth p L ns spec v = Ok s" and "configAuth q L ns spec v = Ok t"
  shows "Canonical s = Canonical t \<and> configName s = configName t"
  using configAuth_order [OF assms] by (simp add: configName_def)

theorem auth_map_order_free_witness:
  "\<exists>s t. configAuth (\<lambda>_ xs. xs) ex_listers ''ns'' ex_spec (ex_vcfg None) = Ok s
     \<and> configAuth (\<lambda>_. rev) ex_listers ''ns'' ex_spec (ex_vcfg None) = Ok t
     \<and> Canonical s = Canonical t"
proof -
  have "\<exists>s. configAuth p ex_listers ''ns'' ex_spec (ex_vcfg None) = Ok s" for p
    by (simp add: configAuth_def ex_vcfg_def)
  then obtain s t where "configAuth (\<lambda>_ xs. xs) ex_listers ''ns'' ex_spec (ex_vcfg None) = Ok s"
    and "configAuth (\<lambda>_. rev) ex_listers ''ns'' ex_spec (ex_vcfg None) = Ok t" by meson
  with auth_map_order_free [OF _ this] show ?thesis by auto
qed

text \<open>Self-sharding is configured only for a cluster: at least two nodes, each with exactly one
  address, and the probe of the VarnishConfig.\<close>

theorem sharding_has_nodes:
  assumes "configSharding L spec vcfg svc = Ok spec'" and "shard_Nodes (sp_ShardCluster spec) = []"
    and "vcs_SelfSharding (vcfg_Spec vcfg) = Some sh"
  shows "2 \<le> length (shard_Nodes (sp_ShardCluster spec'))
     \<and> list_all (\<lambda>n. length (svc_Addresses n) = 1) (shard_Nodes (sp_ShardCluster spec'))
     \<and> getVCLProbe (ss_Probe sh) = Ok (shard_Probe (sp_ShardCluster spec'))"
proof -
  from assms(1,3) obtain nodes probe where n: "shardNodes L svc = Ok nodes"
    and p: "getVCLProbe (ss_Probe sh) = Ok probe"
    and s: "shard_Nodes (sp_ShardCluster spec') = shard_Nodes (sp_ShardCluster spec) @ nodes"
      "shard_Probe (sp_ShardCluster spec') = probe"
    by (auto simp: configSharding_def obind_Ok_iff Let_def)
  from shardNodes_Ok [OF n] p s assms(2) show ?thesis by (simp add: list_all_iff)
qed

theorem sharding_has_nodes_witness:
  "\<exists>spec'. configSharding ex_shard_listers zero_Spec ex_shard_vcfg ex_svc = Ok spec'
     \<and> 2 \<le> length (shard_Nodes (sp_ShardCluster spec'))"
proof -
  have "\<exists>spec'. configSharding ex_shard_listers zero_Spec ex_shard_vcfg ex_svc = Ok spec'"
    using ex_shard_config(3) by (auto simp: configSharding_def ex_shard_config(1,2) Let_def)
  then obtain spec' where s: "configSharding ex_shard_listers zero_Spec ex_shard_vcfg ex_svc = Ok spec'"
    by blast
  have "shard_Nodes (sp_ShardCluster zero_Spec) = []"
    by (simp add: zero_Spec_def zero_ShardCluster_def)
  from sharding_has_nodes [OF s this] ex_shard_config(1) s show ?thesis by auto
qed

text \<open>The router takes one object from the main queue and appends it to the queue of its own
  namespace, which it creates if need be; it changes no other queue.\<close>

theorem object_routed:
  assumes "workqueue Q pend proc accepts" and "q_Get Q (nq_Queue qs) = Some (ISync obj, q1)"
    and "getNameSpace keyf split (so_Obj obj) = Some (ns, key)"
    and "\<And>q. gm_get (nq_workers qs) ns = Some q \<Longrightarrow> accepts q"
  shows "\<exists>q. gm_get (nq_workers (ns_next keyf split Q qs)) ns = Some q
      \<and> pend q = add_mset (ISync obj)
          (case gm_get (nq_workers qs) ns of None \<Rightarrow> {#} | Some p \<Rightarrow> pend p)
    \<and> (\<forall>n. n \<noteq> ns \<longrightarrow>
         gm_get (nq_workers (ns_next keyf split Q qs)) n = gm_get (nq_workers qs) n)
    \<and> pend (nq_Queue qs) = add_mset (ISync obj) (pend (nq_Queue (ns_next keyf split Q qs)))
    \<and> proc (nq_Queue (ns_next keyf split Q qs)) = proc (nq_Queue qs)"
  by (rule workqueue.ns_next_routes [OF assms])

theorem object_routed_witness:
  "\<exists>q. gm_get (nq_workers (ns_next ex_keyf ex_split fifo ex_added)) ''ns'' = Some q
     \<and> mset (ff_waiting q) = {#ex_item#}"
proof -
  have e: "gm_get (nq_workers ex_added) ns = None" for ns by (simp add: ex_added_def)
  have g: "q_Get fifo (nq_Queue ex_added) = Some (ISync \<lparr>so_Type = SyncAdd, so_Obj = OService ex_svc\<rparr>,
      \<lparr>ff_waiting = [], ff_processing = [ex_item], ff_down = False\<rparr>)"
    using ex_get_item by (simp add: ex_added_def ex_item_def)
  show ?thesis
    using object_routed [OF fifo.workqueue_axioms g, of ex_keyf ex_split "''ns''" "''varnish''"]
    by (auto simp: ex_name e ex_item_def)
qed

text \<open>The controllers start only with options that are sound: a level of logging, a class, templates
  that were read and no stale ready file; and the metrics port is the port of the option, although it is
  converted to 16 bits.  Every other start, but for the one that prints the version, ends with an error
  status.\<close>

theorem started_with_options:
  "(case main E fl of
      Running st \<Rightarrow> unat (st_port st) = unat (fl_metricsPort fl) \<and> st_class st = fl_class fl
        \<and> fl_class fl \<noteq> [] \<and> logLevel (fl_loglvl fl) = Some (st_level st) \<and> se_templates E (st_templates st)
        \<and> (fl_readyfile fl = [] \<or> se_Remove E (fl_readyfile fl) \<noteq> RemoveFails)
    | Exit n \<Rightarrow> fl_version fl \<or> n \<noteq> 0)"
proof (cases "main E fl")
  case (Exit n)
  then show ?thesis using main_exits [of E fl n] by auto
next
  case (Running st)
  then show ?thesis using main_running [of E fl st] by auto
qed

text \<open>The replacement of illegal characters loses nothing: a name without underscore can be read
  back from its symbol.\<close>

theorem illegal_roundtrip:
  assumes "CHR ''_'' \<notin> set s"
  shows "unreplace (replaceIllegal s) = s \<and> list_all vclLegal (replaceIllegal s)"
  using assms by (simp add: unreplace_replaceIllegal replaceIllegal_legal)

theorem illegal_roundtrip_witness:
  "unreplace (replaceIllegal ''ns/tea-svc.1'') = ''ns/tea-svc.1''"
  using illegal_roundtrip [of "''ns/tea-svc.1''"] by simp

text \<open>What the lister of the VarnishConfigs lists for a namespace belongs to the namespace, and the
  same lister finds it by its name.\<close>

theorem listed_config_found:
  assumes "indexer s vcfg_Meta" and "ns \<noteq> []"
    and "varnishConfigNamespaceLister_List s ns = Inr xs" and "x \<in> set xs"
  shows "om_Namespace (vcfg_Meta x) = ns
     \<and> varnishConfigNamespaceLister_Get s ns (om_Name (vcfg_Meta x)) = Inr x"
  using indexer.listed_found [OF assms(1) _ assms(4,2)] assms(3)
  by (simp add: varnishConfigNamespaceLister_List_def varnishConfigNamespaceLister_Get_def)

theorem listed_config_found_witness:
  "varnishConfigNamespaceLister_Get (store_indexer vcfg_Meta [ex_vcfg None]) ''ns'' ''cfg''
     = Inr (ex_vcfg None)"
proof -
  have m: "vcfg_Meta (ex_vcfg None) = ex_meta ''cfg''" by (simp add: ex_vcfg_def)
  have "varnishConfigNamespaceLister_List (store_indexer vcfg_Meta [ex_vcfg None]) ''ns''
      = Inr [ex_vcfg None]"
    by (simp add: varnishConfigNamespaceLister_List_def store_indexer_def store_def m ex_meta_def
        gm_of_list_def)
  from listed_config_found [OF vcfgs.indexer_axioms _ this, of "ex_vcfg None"] show ?thesis
    by (simp add: m ex_meta_def)
qed

text \<open>The callback for updates adds one update of the new object to the main queue, unless the
  object has the resource version of the old one, as in a resync, or both are Endpoints without
  subsets; then it adds nothing.\<close>

theorem update_enqueued:
  assumes "workqueue Q pend proc accepts" and "accepts (nq_Queue qs)"
  shows "pend (nq_Queue (updateObj Q old new qs))
     = (if same_version (obj_meta old) (obj_meta new) \<or> both_empty old new then pend (nq_Queue qs)
        else add_mset (ISync \<lparr>so_Type = SyncUpdate, so_Obj = new\<rparr>) (pend (nq_Queue qs)))
     \<and> nq_workers (updateObj Q old new qs) = nq_workers qs"
  using workqueue.add(1) [OF assms] by (simp add: updateObj_def update_obj_def)

theorem update_enqueued_witness:
  "mset (ff_waiting (nq_Queue (updateObj fifo (OIngress ex_ing) (OIngress ex_ing) ex_added))) = {#ex_item#}"
proof -
  have "\<not> ff_down (nq_Queue ex_added)" by (simp add: ex_added_def ex_queue_def)
  from update_enqueued [OF fifo.workqueue_axioms this, of "OIngress ex_ing" "OIngress ex_ing"]
  show ?thesis by (simp add: ex_added_def ex_queue_def)
qed

text \<open>Request dispositions that pass the validation translate, and the specification that they
  become part of still has a source.\<close>

theorem accepted_dispositions_render:
  assumes "validateReqDisps ds = Ok ()" and "GetSrc spec = Ok src"
  shows "\<exists>spec' src'. configReqDisps spec ds = Ok spec' \<and> GetSrc spec' = Ok src'"
proof -
  have v: "\<forall>d \<in> set ds. reqdisp_valid d" using assms(1) by (simp add: validateReqDisps_Ok_iff)
  have "conds_renderable spec" "nodes_addressed spec"
    using assms(2) GetSrc_Ok_iff [of spec] by (auto simp: conds_renderable_def nodes_addressed_def)
  moreover obtain spec' where s: "configReqDisps spec ds = Ok spec'"
    using configReqDisps_valid [OF v] by blast
  ultimately have "conds_renderable spec'" "nodes_addressed spec'"
    using configReqDisps_renderable [OF s v] configReqDisps_other [OF s]
    by (simp_all add: nodes_addressed_def)
  from GetSrc_total [OF this] s show ?thesis by blast
qed

theorem accepted_dispositions_render_witness:
  "\<exists>spec' src'. configReqDisps ex_spec [ex_synth (Some 405)] = Ok spec' \<and> GetSrc spec' = Ok src'"
proof -
  obtain src where "GetSrc ex_spec = Ok src" using ex_src by blast
  moreover have "validateReqDisps [ex_synth (Some 405)] = Ok ()"
    by (simp add: validateReqDisps_Ok_iff reqdisp_valid_def condition_valid_def ex_synth_def
        ordering_compare_def numeric_comparand_def)
  ultimately show ?thesis using accepted_dispositions_render by blast
qed

text \<open>Setting a known secret writes through the pointer that the instances share, and no other
  secret changes; but the new value is stored in full only if it has the length of the old one, and
  is otherwise cut off or followed by the rest of the old one.\<close>

theorem secret_set:
  assumes "vc_ok vc" and "secret_at vc key = Some old" and "other \<noteq> key"
  shows "secret_at (SetAdmSecret key secret vc) key
       = Some (take (length old) secret @ drop (length secret) old)
     \<and> (secret_at (SetAdmSecret key secret vc) key = Some secret \<longleftrightarrow> length old = length secret)
     \<and> secret_at (SetAdmSecret key secret vc) other = secret_at vc other"
  using SetAdmSecret_known [OF assms(1,2)] SetAdmSecret_other [OF assms(1,3)] copy_into_eq_iff [of old]
  by (simp add: copy_into_def)

theorem secret_set_witness:
  "secret_at (SetAdmSecret ''ns/adm'' ''longer-secret'' ex_vc) ''ns/adm'' = Some ''longer''"
  using secret_set [OF ex_ok, of "''ns/adm''" "''s3cr3t''" "''ns/other''" "''longer-secret''"]
  by (simp add: secret_at_def ex_vc_def NewVarnishController_def)

text \<open>Two Services whose names have no underscore have the same director only if they have the
  same name, as long as the names fit without a hash.\<close>

theorem directors_distinct:
  assumes "directorName a = directorName b"
    and "CHR ''_'' \<notin> set (svc_Name a)" and "CHR ''_'' \<notin> set (svc_Name b)"
    and "length (replaceIllegal (svc_Name a @ ''_director'')) + 5 \<le> maxSymLen"
    and "length (replaceIllegal (svc_Name b @ ''_director'')) + 5 \<le> maxSymLen"
  shows "svc_Name a = svc_Name b"
proof -
  have "vclLegal CHR ''_''" by code_simp
  then show ?thesis using mangle_suffix_inject [OF assms(2,3) _ assms(4,5)] assms(1)
    by (simp add: directorName_def)
qed

theorem directors_distinct_witness:
  "directorName (zero_Service\<lparr>svc_Name := ''ns/tea''\<rparr>)
     \<noteq> directorName (zero_Service\<lparr>svc_Name := ''ns/coffee''\<rparr>)"
proof
  assume "directorName (zero_Service\<lparr>svc_Name := ''ns/tea''\<rparr>)
    = directorName (zero_Service\<lparr>svc_Name := ''ns/coffee''\<rparr>)"
  moreover have "length (replaceIllegal ''ns/tea_director'') + 5 \<le> maxSymLen" by code_simp
  moreover have "length (replaceIllegal ''ns/coffee_director'') + 5 \<le> maxSymLen" by code_simp
  ultimately show False
    using directors_distinct [of "zero_Service\<lparr>svc_Name := ''ns/tea''\<rparr>"
        "zero_Service\<lparr>svc_Name := ''ns/coffee''\<rparr>"] by simp
qed

text \<open>A second Ingress with a default backend is not refused but makes the construction panic,
  as the merge check is not called before it.\<close>

theorem second_default_panics:
  assumes "ings2VCLSpec L pre = Ok st" and "list_ex has_default pre" and "has_default ing"
  shows "ings2VCLSpec L (pre @ ing # post) = Panic \<and> ingMergeError (pre @ ing # post) \<noteq> Ok ()"
proof
  show "ings2VCLSpec L (pre @ ing # post) = Panic"
    using ings2VCLSpec_second_default [OF assms(1) _ assms(3)] assms(2) by (simp add: list_ex_iff)
  have "filter (\<lambda>i. ing_Backend i \<noteq> None) pre \<noteq> []"
    using assms(2) by (auto simp: list_ex_iff has_default_def filter_empty_conv)
  then have "1 < length (filter (\<lambda>i. ing_Backend i \<noteq> None) (pre @ ing # post))"
    using assms(3) by (simp add: has_default_def)
  then show "ingMergeError (pre @ ing # post) \<noteq> Ok ()"
    by (simp only: ingMergeError_Ok_iff ings_mergeable_def) simp
qed

theorem second_default_panics_witness:
  "ings2VCLSpec ex_listers ([ex_default] @ ex_default # []) = Panic"
proof -
  have "\<exists>st. ings2VCLSpec ex_listers [ex_default] = Ok st"
    by (simp add: ings2VCLSpec_def ing_step_def ing_ns_def ex_default_simps default_step_def
        ex_backend_svc put_service_def zero_Spec_def zero_Service_def)
  then obtain st where "ings2VCLSpec ex_listers [ex_default] = Ok st" by blast
  from second_default_panics [OF this, of ex_default "[]"] show ?thesis
    by (simp add: has_default_def ex_default_simps)
qed

text \<open>A configuration counts as present exactly when it is loaded, the metadata of its Ingresses,
  its VarnishConfig and its BackendConfigs are the same, and the canonical forms agree.\<close>

theorem has_config_iff:
  assumes "gm_get (vc_svcs vc) k = Some svc" and "vs_spec svc = Some sp"
    and "gm_ok im" and "gm_ok bm" and "gm_ok (vm_ings sp)" and "gm_ok (vm_bcfg sp)"
  shows "(\<exists>s' vc'. HasConfig k spec im vm bm vc = Ok (True, s', vc')) \<longleftrightarrow>
     vs_cfgLoaded svc \<and> im = vm_ings sp \<and> bm = vm_bcfg sp \<and> vm = vm_vcfg sp
     \<and> Canonical (vm_spec sp) = Canonical spec"
  by (rule HasConfig_iff [OF assms])

theorem has_config_iff_witness:
  "\<exists>s' vc'. HasConfig ''ns/varnish'' ex_spec [] zero_Meta [] ex_loaded = Ok (True, s', vc')"
  using has_config_iff [of ex_loaded "''ns/varnish''" _ ex_meta_spec "[]" "[]" ex_spec zero_Meta]
  by (simp add: ex_loaded_simps ex_meta_spec_def gm_ok_def)

text \<open>An update of one Service leaves the state of every other Service as it is, and the VCL
  lists of all instances that are not its own.\<close>

theorem update_frame:
  assumes "varnish_admin ADM vcls at" and "updateVarnishSvc ADM k vc = (e, vc')"
    and "gm_get (vc_svcs vc) k = Some svc" and "x \<notin> vi_addr ` set (vs_instances svc)" and "j \<noteq> k"
  shows "vcls x (vc_world vc') = vcls x (vc_world vc)
     \<and> gm_get (vc_svcs vc') j = gm_get (vc_svcs vc) j \<and> vc_secrets vc' = vc_secrets vc
     \<and> vc_heap vc' = vc_heap vc"
  using assms(2)
proof (cases rule: updateVarnishSvc_cases)
  case (5 svc0 sp src errs insts w)
  then have "svc0 = svc" using assms(3) by simp
  note l = 5(5) [unfolded this]
  show ?thesis using varnish_admin.inst_loop_frame [OF assms(1) l assms(4)] 5 assms(5) by simp
qed (use assms in simp_all)

theorem update_frame_witness:
  "sim_vcls ''10.0.0.9:6081'' (vc_world (snd (updateVarnishSvc sim_admin ''ns/varnish''
      (ex_pending [ex_inst])))) = sim_vcls ''10.0.0.9:6081'' ex_world"
  using update_frame [OF sim.varnish_admin_axioms surjective_pairing ex_pending_simps(1),
      of "''10.0.0.9:6081''" "[ex_inst]" "[]"]
  by simp

text \<open>However the informers call back, every callback is counted once, and has either put one object on the
  main queue or is counted as ignored.\<close>

theorem every_callback_accounted:
  assumes "workqueue Q pend proc accepts" and "accepts (nq_Queue qs)"
    and "run_callbacks tk Q cbs (c, qs) = (c', qs')"
  shows "size (pend (nq_Queue qs')) + length (wc_ignored c')
       = size (pend (nq_Queue qs)) + length (wc_ignored c) + length cbs
     \<and> length (wc_watch c') = length (wc_watch c) + length cbs"
  by (rule workqueue.callbacks_accounted [OF assms(1,3,2)])

theorem every_callback_accounted_witness:
  "\<exists>c qs. run_callbacks (\<lambda>_. []) fifo
       [CbAdd (OIngress ex_ing), CbUpdate (OIngress ex_ing) (OIngress ex_ing)]
       (\<lparr>wc_watch = [], wc_ignored = []\<rparr>, NewNamespaceQueues fifo) = (c, qs)
     \<and> length (ff_waiting (nq_Queue qs)) + length (wc_ignored c) = 2 \<and> length (wc_watch c) = 2"
proof -
  obtain c qs where r: "run_callbacks (\<lambda>_. []) fifo
       [CbAdd (OIngress ex_ing), CbUpdate (OIngress ex_ing) (OIngress ex_ing)]
       (\<lparr>wc_watch = [], wc_ignored = []\<rparr>, NewNamespaceQueues fifo) = (c, qs)" by fastforce
  have "\<not> ff_down (nq_Queue (NewNamespaceQueues fifo))"
    by (simp add: NewNamespaceQueues_def fifo_def)
  from every_callback_accounted [OF fifo.workqueue_axioms this r] r show ?thesis
    by (simp add: NewNamespaceQueues_def fifo_def)
qed

text \<open>The clientset is refused for its rate limit exactly when a limiter has to be made and there is no
  burst; otherwise both clients get the same limiter.\<close>

theorem burst_required_iff:
  "NewForConfig C c = Inl BurstRequired \<longleftrightarrow>
     cf_RateLimiter c = None \<and> cl_positive C (cf_QPS c) \<and> cf_Burst c <=s 0"
  by (auto simp: NewForConfig_def configShallowCopy_def split: sum.split_asm)

text \<open>The initialisation of the templates succeeds exactly when the six files in the directory can be parsed,
  and sets each variable to the template of its file.\<close>

theorem templates_read:
  "(fst (InitTemplates parse dir T) = None \<longleftrightarrow> (\<forall>f \<in> set tmpl_files. \<exists>t. parse f (in_dir dir f) = Inr t))
   \<and> (InitTemplates parse dir T \<noteq> (None, T')
     \<or> list_all2 (\<lambda>f t. \<exists>x. t = Some x \<and> parse f (in_dir dir f) = Inr x) tmpl_files
         [ingressTmpl T', shardTmpl T', authTmpl T', aclTmpl T', rewriteTmpl T', reqDispTmpl T'])"
  using InitTemplates_ok InitTemplates_sets by blast

text \<open>The monitor returns exactly when its interval is not positive; else its loop does not end.\<close>

theorem monitor_ends:
  "monitor ADM env ord monitorIntvl vc = None \<longleftrightarrow> 0 < monitorIntvl"
  by (simp add: monitor_ends_iff)

text \<open>Two paths that lead to different ports of one Service share an entry of the map of all
  services, from which the backends and directors are generated: the entry has the addresses of the
  second path only, while the rule keeps those of the first.\<close>

theorem ports_of_service_collide:
  assumes "path_step L ns p1 st = Ok st1" and "path_step L ns p2 st1 = Ok st2"
    and "ib_ServiceName (ip_Backend p1) = ib_ServiceName (ip_Backend p2)"
    and "ingBackend2Addrs L ns (ip_Backend p1) = Ok addrs1"
    and "ingBackend2Addrs L ns (ip_Backend p2) = Ok addrs2"
    and "ip_Path p1 \<noteq> ip_Path p2"
  shows "map_option svc_Addresses (gm_get (sp_AllServices (fst (snd st2)))
            (ns @ ''/'' @ ib_ServiceName (ip_Backend p1))) = Some addrs2
     \<and> map_option svc_Addresses (gm_get (rule_PathMap (fst st2)) (ip_Path p1)) = Some addrs1"
proof -
  from assms(1,4) obtain svc1 b1 where v1: "getVCLSvc L ns (ib_ServiceName (ip_Backend p1)) addrs1
      = Ok (svc1, b1)" and s1: "rule_PathMap (fst st1) = gm_put (ip_Path p1) svc1 (rule_PathMap (fst st))"
    by (auto simp: path_step_def backendSvc_def obind_Ok_iff)
  from assms(2,5) obtain svc2 b2 where v2: "getVCLSvc L ns (ib_ServiceName (ip_Backend p2)) addrs2
      = Ok (svc2, b2)" and s2: "rule_PathMap (fst st2) = gm_put (ip_Path p2) svc2 (rule_PathMap (fst st1))"
    "sp_AllServices (fst (snd st2)) = gm_put (ns @ ''/'' @ ib_ServiceName (ip_Backend p2)) svc2
        (sp_AllServices (fst (snd st1)))"
    by (auto simp: path_step_def backendSvc_def obind_Ok_iff)
  have "svc_Addresses svc1 = addrs1" "svc_Addresses svc2 = addrs2"
    using getVCLSvc_Name [OF v1] getVCLSvc_Name [OF v2] by simp_all
  with s1 s2 assms(3,6) show ?thesis by simp
qed

theorem ports_of_service_collide_witness:
  "\<exists>st2. path_step ex_two_ports ''ns'' \<lparr>ip_Path = ''/a'', ip_Backend = ex_backend_at 80\<rparr>
         (ex_rule1, zero_Spec, []) = Ok (fst st2)
     \<and> path_step ex_two_ports ''ns'' \<lparr>ip_Path = ''/b'', ip_Backend = ex_backend_at 81\<rparr> (fst st2)
         = Ok (snd st2)
     \<and> map_option svc_Addresses (gm_get (sp_AllServices (fst (snd (snd st2)))) ''ns/coffee'')
       = Some [\<lparr>addr_IP = ''10.3.7.9'', addr_Port = 8081\<rparr>]
     \<and> map_option svc_Addresses (gm_get (rule_PathMap (fst (snd st2))) ''/a'')
       = Some [\<lparr>addr_IP = ''10.3.7.8'', addr_Port = 8080\<rparr>]"
proof -
  let ?p1 = "\<lparr>ip_Path = ''/a'', ip_Backend = ex_backend_at 80\<rparr>"
  let ?p2 = "\<lparr>ip_Path = ''/b'', ip_Backend = ex_backend_at 81\<rparr>"
  have n: "ib_ServiceName (ex_backend_at p) = ''coffee''" for p by (simp add: ex_backend_at_def)
  have f: "ingBackend2Addrs ex_two_ports ''ns'' (ip_Backend ?p1)
        = Ok [\<lparr>addr_IP = ''10.3.7.8'', addr_Port = 8080\<rparr>]"
      "ingBackend2Addrs ex_two_ports ''ns'' (ip_Backend ?p2)
        = Ok [\<lparr>addr_IP = ''10.3.7.9'', addr_Port = 8081\<rparr>]"
    by (simp_all add: ex_two_ports_addrs)
  have step: "\<exists>st'. path_step ex_two_ports ''ns'' p st = Ok st'"
    if "p = ?p1 \<or> p = ?p2" for p st
    using that ex_two_ports_addrs
    by (auto simp: path_step_def backendSvc_def getVCLSvc_def find_bcfg_def ex_two_ports_def n)
  obtain st1 where 1: "path_step ex_two_ports ''ns'' ?p1 (ex_rule1, zero_Spec, []) = Ok st1"
    using step by blast
  obtain st2 where 2: "path_step ex_two_ports ''ns'' ?p2 st1 = Ok st2" using step by blast
  have "map_option svc_Addresses (gm_get (sp_AllServices (fst (snd st2))) ''ns/coffee'')
      = Some [\<lparr>addr_IP = ''10.3.7.9'', addr_Port = 8081\<rparr>]
    \<and> map_option svc_Addresses (gm_get (rule_PathMap (fst st2)) ''/a'')
      = Some [\<lparr>addr_IP = ''10.3.7.8'', addr_Port = 8080\<rparr>]"
    using ports_of_service_collide [OF 1 2 _ f] by (simp add: n)
  with 1 2 show ?thesis by (intro exI [of _ "(st1, st2)"]) simp
qed

text \<open>A host in two Ingresses of a Varnish Service is not rejected: both rules become part of the
  specification, and the text declares the matcher of the host twice, which no VCL compiler accepts.\<close>

theorem same_host_twice:
  assumes "ings2VCLSpec L ings = Ok (spec, bcfgs)" and "GetSrc spec = Ok src"
    and "\<not> distinct (concat (map ing_hosts ings))"
  shows "list_ex (\<lambda>r. in_order (matcher_decl (urlMatcher r)) (matcher_decl (urlMatcher r)) src)
     (sp_Rules spec)"
  using duplicate_matcher [OF _ assms(2)] assms(3) built_hosts [OF assms(1)] by (simp add: list_ex_iff)

theorem same_host_twice_witness:
  "\<exists>spec src. ings2VCLSpec ex_listers [ex_ing, ex_ing] = Ok (spec, []) \<and> GetSrc spec = Ok src
     \<and> list_ex (\<lambda>r. in_order (matcher_decl (urlMatcher r)) (matcher_decl (urlMatcher r)) src) (sp_Rules spec)"
proof -
  have "\<not> distinct (concat (map ing_hosts [ex_ing, ex_ing]))"
    by (simp add: ing_hosts_def ex_rules)
  with ex_twice_src same_host_twice show ?thesis by blast
qed

end
