(* ===== verification/Spec2Isabelle.thy ===== *)
theory Spec2Isabelle
  imports Further
begin

text \<open>
  The Varnish Ingress controller for Kubernetes (\<open>uplex-varnish-k8s-ingress\<close>): it watches Ingresses,
  Services, Endpoints, Secrets, VarnishConfigs and BackendConfigs, translates what applies to a Varnish
  Service into VCL, and loads the VCL at the Varnish instances of that Service.  This library models
  the Go code of \<open>pkg/controller\<close> and \<open>pkg/varnish\<close> that decides what is done, and proves what it
  achieves.

  \<^bold>\<open>How the parts interact.\<close>  Informers call \<open>addObj\<close>, \<open>updateObj\<close> and \<open>deleteObj\<close>, which add to a main
  queue (\<open>controller.go\<close>).  \<open>NamespaceQueues.next\<close> moves an object to the queue of its namespace.  A
  worker per namespace takes objects and dispatches them to handlers (\<open>worker.go\<close>), which read the
  listers, call the Varnish controller, or add updates of objects to the queue of their worker
  (modelled as \<open>ws_queue\<close>, which an iteration of the worker hands to its queue).  The handler for an Ingress
  (\<open>ingress.go\<close>) translates all Ingresses of its Varnish Service and the VarnishConfig and
  BackendConfigs that apply into a \<open>vcl.Spec\<close> (\<open>spec.go\<close>), and asks the Varnish controller
  (\<open>varnish.go\<close>) whether it has that configuration and else to update.  The Varnish controller renders
  the specification (\<open>template.go\<close> and the templates), names it by the hash of its canonical form, and
  loads and labels it at each instance by the administration protocol.  The monitor (\<open>monitor.go\<close>)
  checks the instances at intervals and updates them again.

  \<^bold>\<open>Theories.\<close>
  \<^item> \<open>Prelude\<close>: outcomes of Go calls (a value, an error, or a panic) with their combinators, maps of Go
    as sorted association lists (\<open>gomap\<close>: equality, \<open>len\<close> and \<open>DeepEqual\<close> are then equality of lists;
    code that ranges over a map takes the order as an argument), the locale \<open>codec\<close> of a round trip.
  \<^item> \<open>GoLib\<close>, \<open>GoBase64\<close>, \<open>GoSha\<close>, \<open>GoSort\<close>: what the code uses of Go's standard library: texts of
    integers, string functions, FNV, base64, SHA-512/224, the stable sort, with the locale \<open>weak_order\<close>
    of the comparison functions under which sorting is idempotent and blind to the order of its input.
  \<^item> \<open>VclSpec\<close>, \<open>VclCanon\<close> (\<open>pkg/varnish/vcl/spec.go\<close>): the data model, the hash of each type, the
    comparison functions, \<open>DeepHash\<close>, and \<open>Canonical\<close> with the effect that its sorting has on the slices
    of its argument (\<open>Canonical_effect\<close>).  Lemmas: the comparison functions are weak orders on the
    values that occur (\<open>byIPPort\<close> only on addresses with one port), the canonical form is stable and
    blind to order, and what the hash does not see.
  \<^item> \<open>VclTemplate\<close>, \<open>VclRender\<close> (\<open>template.go\<close> and the six templates): the template functions, the
    mangling of names, the text that each template produces, \<open>GetSrc\<close>.  The rendered text was compared
    with all files of \<open>pkg/varnish/vcl/testdata\<close>.  Lemmas: symbols are legal and bounded, round trips,
    when a source is produced.  \<open>VclMeaning\<close>: the generated conditions as expressions with a meaning,
    against the documented meaning of a request disposition.  \<open>VclText\<close>: what the text contains and in
    what order: backends, matchers of hosts, paths.
  \<^item> \<open>CrdTypes\<close> (\<open>types.go\<close>), \<open>CfgValidate\<close> (validation in \<open>varnishconfig.go\<close> and \<open>utils.go\<close>),
    \<open>K8sObjects\<close> (the fields that the code reads of Kubernetes objects, listers, Endpoints and ports of
    \<open>utils.go\<close>), \<open>CfgTranslate\<close> and \<open>SpecBuild\<close> (\<open>ingress.go\<close>, from resources to \<open>vcl.Spec\<close>),
    \<open>Routes\<close> (the routes that the Ingresses ask for).  Lemmas:
    validation accepts exactly the declared conditions, what is well formed after translation, when a
    nil pointer is dereferenced.
  \<^item> \<open>VarnishAdmin\<close>: the interface of the administration protocol, its contract as the locale
    \<open>varnish_admin\<close>, and a small Varnish that satisfies it.  \<open>VarnishCtl\<close> (\<open>varnish.go\<close>): state and
    operations of the Varnish controller, with a heap for the secrets that are shared by pointer.
    \<open>VarnishInv\<close>, \<open>VarnishAddrs\<close>, \<open>VarnishReach\<close>: the invariant, the addresses of instances, the steps of
    the controller and what holds in every reachable state.  \<open>VarnishSync\<close>: after an update without error
    the instances have the configuration.  \<open>VarnishAbs\<close>: the controller refines a map from Services to
    addresses and configurations.
  \<^item> \<open>Monitor\<close>, \<open>MonitorSync\<close> (\<open>monitor.go\<close>): a round of the monitor; with the locale
    \<open>varnish_monitor\<close>, what it discards and that it repairs.
  \<^item> \<open>SvcEvents\<close> (\<open>svc_event.go\<close>): the Kubernetes Events that the monitor's events become.
    \<open>CrdListers\<close> (\<open>pkg/client/listers\<close>): the generated listers of the custom resources, over the cache
    of the informer with the locale \<open>indexer\<close>.
  \<^item> \<open>CrdClient\<close> (\<open>pkg/client/clientset\<close>, the registered names of \<open>pkg/apis\<close>): every call of the generated
    clients as the request that it sends, and the making of a clientset from a configuration.
    \<open>CrdFake\<close> (\<open>clientset/versioned/fake\<close> and the fake clients): every call of the fakes as the action that
    it records, with the locale \<open>action_recorder\<close> for the chain of reactors, against the requests of the
    real clients.  \<open>InformerFactory\<close> (\<open>pkg/client/informers\<close>, the informers of \<open>NewIngressController\<close>): the
    generated factory, with the locale \<open>informer_factory\<close> of one informer per type, which the factory of
    \<open>client-go\<close> shares.
  \<^item> \<open>IngressSync\<close> (\<open>addOrUpdateIng\<close> and what it calls, on the state \<open>WState\<close> of a worker: the Varnish
    controller, the objects put into the queue, the Events and what is counted), \<open>Handlers\<close> (\<open>service.go\<close>, \<open>endpoints.go\<close>,
    \<open>secret.go\<close>, \<open>varnishconfig.go\<close>, \<open>backendconfig.go\<close>): the handlers as functions on the state of a
    worker.  The locales \<open>handler_calls\<close>, \<open>handler_ings\<close> and \<open>handler_inv\<close> state what a predicate must satisfy to be kept
    by the handlers that queue nothing, only Ingresses, or also other objects; they are interpreted for the
    states that the Varnish controller can reach, the namespace and the rank of queued objects.
  \<^item> \<open>Convergence\<close>: the states in which what the Varnish controller records can be relied upon (\<open>sound\<close>), the
    calls that keep them so (\<open>good_step\<close>), that a configuration stays in place through sequences of
    synchronisations, and how instances are overlooked that join a Service.
  \<^item> \<open>Worker\<close> (\<open>worker.go\<close> and the callbacks of \<open>controller.go\<close>): queues by the locale \<open>workqueue\<close>, the
    dispatch, the Events and counters of a worker, the workers, the router, and the step relation of the
    whole system.  \<open>WorkerLoops\<close>: the loops
    of worker and router, that they end when their queue is shut down, and that the ranks of the objects in
    a queue decrease in the multiset ordering with every handler that succeeds.
  \<^item> \<open>Lifecycle\<close> (\<open>Run\<close> and \<open>Stop\<close> of \<open>controller.go\<close>, \<open>NamespaceQueues.Stop\<close> and the loops of
    \<open>worker.go\<close>, \<open>handleTermination\<close> of \<open>cmd/main.go\<close>): a step relation for each goroutine over the channels
    and the wait group, its invariant, and when the process can end.  \<open>CommandLine\<close> (\<open>cmd/main.go\<close>): the
    checks of the options up to \<open>Run\<close>.  \<open>ControllerInit\<close> (\<open>NewIngressController\<close>, \<open>NewNamespaceQueues\<close>,
    the scheme of the recorder): what can fail when the controller is made, with the locale
    \<open>type_scheme\<close>, and what the callbacks and workers count and record.  \<open>Startup\<close> (\<open>InitTemplates\<close>,
    \<open>Start\<close> of \<open>varnish.go\<close>, the loop of \<open>monitor\<close>): paths of template files, and the monitor as a partial
    function.
  \<^item> \<open>Metrics\<close> (\<open>varnish/metrics.go\<close>, \<open>controller/metrics.go\<close>): every metric and its registration, with
    the locale \<open>registry\<close> for what Prometheus accepts.
  \<^item> \<open>DeepCopy\<close> (\<open>zz_generated.deepcopy.go\<close>): the deep copies of the custom resources, over a heap, with the
    relation \<open>reads\<close> from a value in the heap to the tree that it stands for.
  \<^item> \<open>Example\<close>: a cluster of one Varnish Service and variants of it, on which the properties are run.
    \<open>Further\<close>: theorems on single parts, with their instances on the example.
  The properties below span these parts.

  \<^bold>\<open>Parameters.\<close>  Code that is not in the repository is an argument: the listers and the Pods of a
  Service (record \<open>Listers\<close>, with \<open>api_error\<close> for their errors), the administration protocol (record
  \<open>admin\<close> over a world \<open>'w\<close>), the work queue (record \<open>queue_ops\<close>), the function that gives the key of an
  object.  What is needed of them is a locale or a named hypothesis (\<open>listers_local\<close>, \<open>keys_local\<close>,
  \<open>map_order_ok\<close>), each shown to hold for the example.

  \<^bold>\<open>Bounds.\<close>  No definition uses fuel: every loop of the code ranges over a slice or a map and is a
  structural recursion; digits and replacements recurse on decreasing numbers and lists.  The loops
  of the workers, of the router and of the monitor, which run until they are stopped, are partial functions
  into \<open>option\<close>, where None is a loop that does not end; what happens in between is an argument of the loop,
  and all interleavings are in the relation \<open>sys_step\<close>.  Sized integers are words of their width
  (ports and probe values 32 bits, counts 64, statuses 16, mask bits 8), and conversions truncate as in
  Go.  The interleaving is that of whole handlers: the code lets workers and the monitor run in parallel on
  the maps of the Varnish controller without a lock, and what a data race may do is not modelled.

  \<^bold>\<open>Not modelled\<close>: logging and the texts of messages, where the metrics of single instances are
  incremented, the broadcaster of Events and the endpoint of metrics (I/O), the codecs
  of the generated schemes, the parsing of flags and template files, timeouts and mutexes.  In
  \<open>Lifecycle\<close> a handler takes no time, and what Go's runtime does about the unguarded access to the
  map of workers in \<open>Stop\<close> is left out.
\<close>

section \<open>Synchronisation of Ingresses\<close>



text \<open>C2. Once a configuration has been installed, a further synchronisation with it finds it loaded:
  it returns without error, enqueues nothing and sends no command to any instance.\<close>

theorem ingress_installed_once:
  assumes "varnish_admin (wk_admin W) vcls at"
    and "install_config W k cfg st = (Ok (), st')"
    and "vc_reach (wk_admin W) (ws_vc st)" and "config_good cfg"
    and "HasConfig k (Canonical_effect (ic_spec cfg)) (ic_ings cfg) (ic_vcfg cfg) (ic_bcfg cfg)
           (ws_vc st) = Ok (False, s, vc1)"
  shows "\<exists>st''. install_config W k cfg st' = (Ok (), st'')
     \<and> vc_world (ws_vc st'') = vc_world (ws_vc st') \<and> ws_queue st'' = ws_queue st'"
  by (rule varnish_admin.install_config_again
      [OF assms(1,2) refl vc_reach_distinct [OF assms(3)] assms(4,5)])

theorem ingress_installed_once_witness:
  "\<exists>st''. install_config ex_worker ''ns/varnish'' ex_cfg ex_installed = (Ok (), st'')
     \<and> vc_world (ws_vc st'') = vc_world (ws_vc ex_installed) \<and> ws_queue st'' = ws_queue ex_installed"
  using ingress_installed_once [of ex_worker sim_vcls sim_at "''ns/varnish''" ex_cfg ex_ready
      ex_installed]
  by (simp add: sim.varnish_admin_axioms ex_install ex_reach ex_good ex_has)

text \<open>C3. However the Ingresses are ordered and repeated, and whatever fails in between: once the
  synchronisation of an Ingress has succeeded, every instance of its Varnish Service has the
  configuration that the Ingress asks for, and keeps it while the synchronisations of all other
  Ingresses run, also those of the same Varnish Service and those that fail.  The controller starts
  from any state that its calls reach, other than those that relabel instances or add them
  without loading.\<close>

theorem ingresses_converge:
  assumes "varnish_monitor (wk_admin W) vcls at"
    and "svc_keys_unique (wk_listers W) (wk_namespace W)"
    and "sync_all W ings st = (rs, st')" and "good_reach (wk_admin W) (ws_vc st)"
    and "list_all (ing_ready W) ings"
    and "(ing, Ok ()) \<in> set (zip ings rs)" and "asked W ing = Some (k, cfg)"
  shows "serves vcls k cfg (ws_vc st')"
  using varnish_admin.sync_all_serves(3) [OF varnish_monitor.axioms(1) [OF assms(1)] refl assms(2,3)
      varnish_monitor.good_reach_sound [OF assms(1,4)] _ assms(6,7)] assms(5)
  by (simp add: list_all_iff)

theorem ingresses_converge_witness:
  "serves sim_vcls ''ns/varnish'' ex_cfg
     (ws_vc (snd (sync_all ex_worker [ex_ing, ex_ing] ex_ready)))"
proof -
  obtain r st where s: "sync_all ex_worker [ex_ing, ex_ing] ex_ready = ([Ok (), r], st)"
    by (cases "addOrUpdateIng ex_worker ex_ing ex_installed") (simp add: ex_ing_sync)
  then have "serves sim_vcls ''ns/varnish'' ex_cfg (ws_vc st)"
    using ingresses_converge [OF _ _ s _ _ _ ex_asked, of sim_vcls sim_at] ex_good_reach ex_ing_ready
    by (simp add: simm.varnish_monitor_axioms ex_keys_unique)
  with s show ?thesis by (simp only: snd_conv)
qed





section \<open>The system\<close>

text \<open>C6. However informers, workers and the monitor interleave, the Varnish controller keeps its
  invariant: every secret pointer is valid and owned by one key, the gauge counts the Services, and
  no Service has two instances at one address.\<close>

theorem system_invariant:
  assumes "sys_reach ADM keyf split Q S"
  shows "vc_ok (sys_vc S) \<and> addrs_distinct (sys_vc S)"
  using sys_reach_vc [OF assms] by (simp add: vc_reach_ok vc_reach_distinct)

theorem system_invariant_witness: "vc_ok (sys_vc ex_system) \<and> addrs_distinct (sys_vc ex_system)"
  by (rule system_invariant [OF ex_sys_reach])

text \<open>C7. The Varnish controller refines a map from Services to the addresses of their instances and
  their configuration in canonical form: after any sequence of its operations the map is what the
  abstract operations, applied in the same order, make of the empty one.\<close>

theorem controller_refines:
  assumes "vc_run ADM ops vc"
  shows "abs_vc vc = fold abs_op ops Map.empty"
  using vc_run_refines [OF assms] by simp

theorem controller_refines_witness:
  "abs_vc ex_vc = [''ns/varnish'' \<mapsto> \<lparr>av_addrs = {''10.0.0.1:6081''}, av_cfg = None\<rparr>]"
  using controller_refines [OF ex_run] ex_adm_addr by (simp add: abs_get_def abs_empty_def)

text \<open>C8. The queue of the worker of a namespace never holds an object of another namespace.\<close>

theorem namespaces_isolated:
  assumes "workqueue Q pend proc accepts" and "keys_local keyf split"
    and "sys_reach ADM keyf split Q S"
  shows "queues_local pend (sys_queues S)"
  by (rule workqueue.sys_reach_local [OF assms(1,3,2)])

theorem namespaces_isolated_witness: "queues_local (\<lambda>q. mset (ff_waiting q)) (sys_queues ex_system)"
  by (rule namespaces_isolated [OF fifo.workqueue_axioms ex_keys ex_sys_reach])

text \<open>C9. One iteration of a worker loses no work: the queue afterwards holds what it held, without
  the item taken, with what its handler has added, and with the item again exactly when the handler
  has failed.\<close>

theorem worker_loses_nothing:
  assumes "workqueue Q pend proc accepts" and "q_Get Q q = Some (item, q1)" and "accepts q"
    and "dispatch W keyf item (st\<lparr>ws_queue := []\<rparr>) = (r, st1)"
    and "worker_next W keyf Q (q, st) = Ok (q', st')"
  shows "pend q' = pend q - {#item#} + mset (map ISync (ws_queue st1))
      + (if r = Ok () then {#} else {#item#})
    \<and> proc q' = proc q \<and> ws_vc st' = ws_vc st1 \<and> r \<noteq> Panic"
  using workqueue.worker_next_pend [OF assms] by simp

theorem worker_loses_nothing_witness:
  "mset (ff_waiting (ex_queue [])) = mset (ff_waiting (ex_queue [ex_item])) - {#ex_item#}
     \<and> mset (ff_processing (ex_queue [])) = mset (ff_processing (ex_queue [ex_item]))"
proof -
  have q: "ex_state\<lparr>ws_queue := []\<rparr> = ex_state" and w: "ws_queue ex_state = []"
    by (simp_all add: ex_state_def)
  have "\<not> ff_down (ex_queue [ex_item])" by (simp add: ex_queue_def)
  from worker_loses_nothing [OF fifo.workqueue_axioms ex_get_item this, of ex_worker ex_keyf ex_state,
      unfolded q, OF ex_dispatch ex_work] w
  show ?thesis by simp
qed



text \<open>C11. A change is worked off.  In any endless run of a worker infinitely many iterations do not
  succeed: those whose handler fails, and those that wait for an item from outside.  A handler that
  succeeds only adds items of a lower rank than its own, so that the items it adds, and those that
  their handlers add, come to an end, whatever the listers and the other workers do meanwhile.\<close>

theorem cascade_ends:
  assumes "workqueue Q pend proc accepts"
  shows "infinite {i. \<not> iteration keyf Q True (f i) (f (Suc i))}"
  unfolding infinite_nat_iff_unbounded_le
  using workqueue.no_endless_success [OF assms, of _ keyf f] by blast

theorem cascade_ends_witness:
  "iteration ex_keyf fifo True (ex_queue [ex_item], ex_state) (ex_queue [], ex_state)
     \<and> \<not> iteration ex_keyf fifo True (ex_queue [ex_item], ex_state) (ex_queue [ex_item], ex_state)"
proof
  have "ex_state\<lparr>ws_queue := []\<rparr> = ex_state" by (simp add: ex_state_def)
  with iter [OF ex_get_item _ ex_work] ex_dispatch
  show "iteration ex_keyf fifo True (ex_queue [ex_item], ex_state) (ex_queue [], ex_state)"
    by fastforce
  from cascade_ends [OF fifo.workqueue_axioms, of ex_keyf "\<lambda>_. (ex_queue [ex_item], ex_state)"]
  show "\<not> iteration ex_keyf fifo True (ex_queue [ex_item], ex_state) (ex_queue [ex_item], ex_state)"
    by auto
qed

text \<open>C12. The controller can be stopped.  \<open>Stop\<close> shuts down the main queue and the queues of all workers,
  and whatever others add, and whatever the handlers return, the loop of a worker and the loop of the
  router end when their queue has been shut down, at the latest with the iteration at hand.\<close>

theorem loops_stop:
  assumes "workqueue Q pend proc accepts"
    and "\<And>S. q_ShuttingDown Q (fst (env k S))" and "\<And>qs. q_ShuttingDown Q (nq_Queue (renv k qs))"
  shows "(\<exists>r. work Ws keyf Q env 0 S = Some r
          \<and> (\<forall>q st. r = Ok (q, st) \<longrightarrow> q_ShuttingDown Q q))
     \<and> (\<exists>qs'. ns_Run keyf split Q renv 0 qs = Some qs' \<and> q_ShuttingDown Q (nq_Queue qs'))
     \<and> q_ShuttingDown Q (nq_Queue (ns_Stop Q qs))
     \<and> (\<forall>ns q. gm_get (nq_workers (ns_Stop Q qs)) ns = Some q \<longrightarrow> q_ShuttingDown Q q)"
  using workqueue.work_ends [OF assms(1), of env k 0, OF assms(2)]
    workqueue.ns_Run_ends [OF assms(1), of renv k 0, OF assms(3)]
    workqueue.ns_Stop_shuts [OF assms(1)] by blast

theorem loops_stop_witness:
  "\<exists>qs. ns_Run ex_keyf ex_split fifo (\<lambda>n. if n = 3 then ns_Stop fifo else (\<lambda>qs. qs)) 0 ex_added = Some qs
     \<and> ff_down (nq_Queue qs)"
proof -
  let ?env = "\<lambda>n. if n = 3 then map_prod (q_ShutDown fifo) (\<lambda>st. st) else (\<lambda>S. S)"
  let ?renv = "\<lambda>n. if n = 3 then ns_Stop fifo else (\<lambda>qs. qs)"
  have "q_ShuttingDown fifo (fst (?env 3 S))" for S :: "Fifo \<times> sim WState"
    by (simp add: fifo_def split: prod.split)
  moreover have "q_ShuttingDown fifo (nq_Queue (?renv 3 qs))" for qs
    by (simp add: fifo_def ns_Stop_def)
  ultimately show ?thesis
    using loops_stop [OF fifo.workqueue_axioms, of ?env 3 ?renv "\<lambda>_. ex_worker" ex_keyf
        "(ex_queue [], ex_state)" ex_split ex_added]
    by (simp add: fifo_def)
qed

section \<open>Varnish instances\<close>

text \<open>C13. A round of the monitor repairs: unless it reports a failed update, every instance of a
  Service that has a configuration afterwards has it loaded, with both labels.\<close>

theorem monitor_repairs:
  assumes "varnish_monitor ADM vcls at" and "monitor_svc ADM k vc = (evs, vc')"
    and "gm_get (vc_svcs vc) k = Some svc" and "vs_spec svc = Some sp"
    and "vc_ok vc" and "distinct (map vi_addr (vs_instances svc))"
    and "(EvtError, k, updateErr) \<notin> set evs"
  shows "\<exists>svc'. gm_get (vc_svcs vc') k = Some svc' \<and> vs_cfgLoaded svc'
     \<and> map vi_addr (vs_instances svc') = map vi_addr (vs_instances svc)
     \<and> list_all (\<lambda>i. configured (configName (vm_spec sp)) (vcls (vi_addr i) (vc_world vc')))
         (vs_instances svc')"
  using varnish_monitor.monitor_svc_repairs [OF assms(1-4,6,7)] assms(5)
  by (simp add: list_all_iff vc_ok_def)

theorem monitor_repairs_witness:
  "\<exists>svc'. gm_get (vc_svcs (snd (monitor_svc sim_admin ''ns/varnish'' (ex_pending [ex_inst])))) ''ns/varnish''
       = Some svc' \<and> vs_cfgLoaded svc' \<and> map vi_addr (vs_instances svc') = [''10.0.0.1:6081'']
     \<and> list_all (\<lambda>i. configured (configName ex_spec)
           (sim_vcls (vi_addr i)
             (vc_world (snd (monitor_svc sim_admin ''ns/varnish'' (ex_pending [ex_inst]))))))
         (vs_instances svc')"
  using monitor_repairs [OF simm.varnish_monitor_axioms surjective_pairing ex_pending_simps(1,3)
      ex_pending_ok _ ex_monitor]
  by simp

text \<open>C14. The check of the instances of a Service loads nothing, touches no instance of another
  Service, and removes no entry of a VCL list but cold configurations of the controller: an entry
  stays if no entry of its name is one.\<close>

theorem monitor_discards_only_cold:
  assumes "varnish_monitor ADM vcls at"
    and "check_loop ADM heap k insts w = (ok, evs, insts', w')"
  shows "(x \<notin> vi_addr ` set insts \<longrightarrow> vcls x w' = vcls x w)
     \<and> set (vcls x w') \<subseteq> set (vcls x w)
     \<and> (v \<in> set (vcls x w) \<and> list_all (\<lambda>u. vd_Name u = vd_Name v \<longrightarrow> \<not> discardable u) (vcls x w)
          \<longrightarrow> v \<in> set (vcls x w'))"
  using varnish_monitor.check_loop_kept [OF assms, of x v] by (auto simp: kept_by_def list_all_iff)

theorem monitor_discards_only_cold_witness:
  "ex_boot \<in> set (sim_vcls ''10.0.0.1:6081'' (ex_sim [ex_boot]))
     \<and> sim_vcls ''10.0.0.2:6081'' (ex_sim [ex_boot]) = sim_vcls ''10.0.0.2:6081'' (ex_sim [ex_old, ex_boot])"
proof -
  note p = monitor_discards_only_cold [OF simm.varnish_monitor_axioms ex_sweep]
  have "list_all (\<lambda>u. vd_Name u = vd_Name ex_boot \<longrightarrow> \<not> discardable u)
      (sim_vcls ''10.0.0.1:6081'' (ex_sim [ex_old, ex_boot]))"
    by (simp add: ex_sim_def sim_vcls_def ex_old_def ex_boot_def discardable_def HasPrefix_def)
  then have "ex_boot \<in> set (sim_vcls ''10.0.0.1:6081'' (ex_sim [ex_boot]))"
    using p [of "''10.0.0.1:6081''" ex_boot] by (simp add: ex_sim_def sim_vcls_def)
  with p [of "''10.0.0.2:6081''" ex_boot] show ?thesis by simp
qed

text \<open>C15. No event of the monitor is lost or sent to the wrong Service: if the Service is known to the
  lister, Kubernetes gets one Event for each event of the round, in the same order and with the same
  reason, of type Normal for information and Warning for warnings and errors.\<close>

theorem monitor_events_delivered:
  assumes "monitor_svc ADM k vc = (evs, vc')"
    and "l_splitKey L k = Some (ns, name)" and "l_svc_Get L ns name = Inr svc"
  shows "generate_all L evs = map (\<lambda>e. (svc, event_type_of (fst e), snd (snd e))) evs"
  by (rule generate_all_known [OF assms(2,3) monitor_svc_about [OF assms(1)]])

theorem monitor_events_delivered_witness:
  "generate_all ex_listers (fst (monitor_svc sim_admin ''ns/varnish'' (ex_pending [ex_no_secret])))
     = map (\<lambda>e. (ex_svc, event_type_of (fst e), snd (snd e)))
         (fst (monitor_svc sim_admin ''ns/varnish'' (ex_pending [ex_no_secret])))"
  using monitor_events_delivered [OF surjective_pairing, of ex_listers "''ns/varnish''" "''ns''"
      "''varnish''" ex_svc]
  by simp

text \<open>C16. When an update of a Service fails at some instances, every other instance has the
  configuration all the same, and the configuration does not count as loaded.\<close>

theorem update_partial_failure:
  assumes "varnish_admin ADM vcls at"
    and "updateVarnishSvc ADM k vc = (Some (AdmErrs errs), vc')"
    and "gm_get (vc_svcs vc) k = Some svc" and "distinct (map vi_addr (vs_instances svc))"
  shows "\<exists>svc' sp. gm_get (vc_svcs vc') k = Some svc' \<and> \<not> vs_cfgLoaded svc' \<and> errs \<noteq> []
     \<and> vs_spec svc = Some sp
     \<and> map vi_addr (vs_instances svc') = map vi_addr (vs_instances svc)
     \<and> list_all (\<lambda>i. vi_addr i \<in> fst ` set errs
           \<or> configured (configName (vm_spec sp)) (vcls (vi_addr i) (vc_world vc')))
         (vs_instances svc)"
  using assms(2)
proof (cases rule: updateVarnishSvc_cases)
  case (5 svc0 sp src errs0 insts w)
  then have e: "errs0 = errs" "errs \<noteq> []" and s: "svc0 = svc"
    using assms(3) by (auto simp: errs_result_def split: if_split_asm)
  note l = 5(5) [unfolded e s]
  have "map vi_addr insts = map vi_addr (vs_instances svc)"
    using inst_loop_keeps [OF l keeps_update] by simp
  moreover have "list_all (\<lambda>i. vi_addr i \<in> fst ` set errs
      \<or> configured (configName (vm_spec sp)) (vcls (vi_addr i) w)) (vs_instances svc)"
    using varnish_admin.inst_loop_configured [OF assms(1) l assms(4)] by (auto simp: list_all_iff)
  ultimately show ?thesis using 5 e s by (simp add: list_all_iff)
qed (simp_all add: assms(3))

theorem update_partial_failure_witness:
  "\<exists>svc'. gm_get (vc_svcs (snd (updateVarnishSvc sim_admin ''ns/varnish''
        (ex_pending [ex_inst, ex_no_secret])))) ''ns/varnish'' = Some svc' \<and> \<not> vs_cfgLoaded svc'
     \<and> configured (configName ex_spec) (sim_vcls ''10.0.0.1:6081''
         (vc_world (snd (updateVarnishSvc sim_admin ''ns/varnish''
            (ex_pending [ex_inst, ex_no_secret])))))"
proof -
  have "updateVarnishSvc sim_admin ''ns/varnish'' (ex_pending [ex_inst, ex_no_secret])
      = (Some (AdmErrs [(''10.0.0.2:6081'', NoSecret)]), snd (updateVarnishSvc sim_admin ''ns/varnish''
           (ex_pending [ex_inst, ex_no_secret])))"
    using ex_pending_partial by (simp add: prod_eq_iff)
  from update_partial_failure [OF sim.varnish_admin_axioms this ex_pending_simps(1)]
  show ?thesis by auto
qed

text \<open>C17. After a synchronisation of a Varnish Service without error, the controller has exactly one
  instance for each address of its Endpoints that is ready, at the port for the administration of the
  subset, and every subset has such a port.\<close>

theorem service_addresses:
  assumes "syncVarnishSvc W svc st = (Ok (), st')" and "vc_reach (wk_admin W) (ws_vc st)"
    and "map_order_ok (wk_addr_order W)"
  shows "\<exists>endps vsvc. getServiceEndpoints (wk_listers W) svc = Ok endps
     \<and> gm_get (vc_svcs (ws_vc st')) (svc_key svc) = Some vsvc
     \<and> list_all (\<lambda>s. adm_port (es_Ports s) \<noteq> 0) (endp_Subsets endps)
     \<and> distinct (map vi_addr (vs_instances vsvc))
     \<and> set (map vi_addr (vs_instances vsvc))
        = {adm_addr \<lparr>addr_IP = ip, addr_Port = adm_port (es_Ports s)\<rparr> | ip s.
             s \<in> set (endp_Subsets endps) \<and> ip \<in> set (es_Addresses s)}"
proof -
  from syncVarnishSvc_addresses [OF assms(1) vc_reach_ok [OF assms(2)] assms(3)]
  obtain endps addrs vsvc where e: "getServiceEndpoints (wk_listers W) svc = Ok endps"
    and a: "admin_addrs (svc_key svc) (endp_Subsets endps) = Ok addrs"
    and v: "gm_get (vc_svcs (ws_vc st')) (svc_key svc) = Some vsvc"
    and m: "mset (map vi_addr (vs_instances vsvc)) = mset (gm_keys (update_addrs addrs))" by metis
  from mset_eq_setD [OF m] mset_eq_imp_distinct_iff [OF m]
  have "set (map vi_addr (vs_instances vsvc)) = adm_addr ` set addrs"
    and "distinct (map vi_addr (vs_instances vsvc))"
    by (simp_all only: update_addrs_keys update_addrs_distinct)
  with e v a show ?thesis
    by (intro exI [of _ endps] exI [of _ vsvc]) (auto simp: admin_addrs_iff list_all_iff)
qed

lemma ex_sync_varnish: "syncVarnishSvc ex_worker ex_svc ex_state = (Ok (), ex_state\<lparr>ws_vc := ex_vc\<rparr>)"
  using ex_sync by (simp add: syncSvc_def isVarnishIngSvc_def)

theorem service_addresses_witness:
  "\<exists>endps vsvc. getServiceEndpoints ex_listers ex_svc = Ok endps
     \<and> gm_get (vc_svcs ex_vc) ''ns/varnish'' = Some vsvc
     \<and> set (map vi_addr (vs_instances vsvc))
        = {adm_addr \<lparr>addr_IP = ip, addr_Port = adm_port (es_Ports s)\<rparr> | ip s.
             s \<in> set (endp_Subsets endps) \<and> ip \<in> set (es_Addresses s)}"
  using service_addresses [OF ex_sync_varnish]
  by (simp add: ex_state_def reach_init ex_order svc_key_def) blast

section \<open>From resources to VCL\<close>









text \<open>C23. The specification built from Ingresses is well formed: every service is filed under its own
  name, every path of every rule and the default backend lead to a service of the map, every rule has
  a host, and all addresses of a service have one port.\<close>

theorem built_spec_well_formed:
  assumes "ings2VCLSpec L ings = Ok (spec, bcfgs)"
  shows "build_ok spec \<and> spec_ports_agree spec"
  using ings2VCLSpec_ok [OF assms] by (simp add: build_ok_ports)

theorem built_spec_well_formed_witness: "build_ok ex_spec \<and> spec_ports_agree ex_spec"
  using ex_built by (rule built_spec_well_formed)

text \<open>C24. Every symbol of the generated VCL that comes from a name of the cluster is legal and
  bounded: letters, digits, underscores and hyphens, at most 46 of them, with the prefix of the
  controller unless the name is empty.\<close>

theorem mangled_legal:
  "list_all vclLegal (mangle s) \<and> length (mangle s) \<le> maxSymLen
     \<and> (HasPrefix (mangle s) ''vk8s_'' \<longleftrightarrow> s \<noteq> [])"
proof (cases "s = []")
  case True
  then show ?thesis by (simp add: mangle_def HasPrefix_def)
next
  case False
  then show ?thesis by (simp add: mangle_legal mangle_length mangle_prefix)
qed

text \<open>C25. The text compared with the credentials of a request decodes to the user and the password
  of the Secret, and cannot end the string or the quotation it stands in: it holds only characters
  of the base64 alphabet.\<close>

theorem credentials_roundtrip:
  "unbase64 (cred_text (user, pw)) = user @ '':'' @ pw \<and> list_all is_b64 (cred_text (user, pw))
     \<and> CHR 0x22 \<notin> set (cred_text (user, pw)) \<and> CHR 0x5C \<notin> set (cred_text (user, pw))"
proof -
  have "\<not> is_b64 CHR 0x5C" by code_simp
  then have "CHR 0x5C \<notin> set (cred_text (user, pw))"
    using base64_alphabet [of "user @ '':'' @ pw"] by (auto simp: cred_text_def list_all_iff)
  then show ?thesis by (simp add: cred_text_def unbase64_base64 base64_alphabet base64_no_quote)
qed

section \<open>Canonical form and name\<close>



text \<open>C27. The name of a configuration is a legal VCL name of at most 47 characters with the prefix by
  which the monitor knows it, it is none of the labels and fixed configurations, and it is the same
  for two specifications exactly when the hashes of their canonical forms are.\<close>

theorem config_name_form:
  "HasPrefix (configName s) ingressPrefix \<and> length (configName s) \<le> 47
     \<and> list_all vclLegal (configName s)
     \<and> configName s \<notin> {regularLabel, readinessLabel, readyCfg, notAvailCfg}
     \<and> (configName s = configName t \<longleftrightarrow>
          sha512_224 (Spec_stream (Canonical s)) = sha512_224 (Spec_stream (Canonical t)))"
proof -
  have "list_all vclLegal (DeepHash (Canonical s))"
    using DeepHash_alnum [of "Canonical s"]
    by (rule list.pred_mono_strong) (auto simp: is_alnum_def vclLegal_def)
  moreover have "list_all vclLegal ingressPrefix" by code_simp
  ultimately have "list_all vclLegal (configName s)" by (simp add: configName_eq)
  then show ?thesis
    using configName_length [of s] configName_not_label [of s]
    by (simp add: configName_eq HasPrefix_def DeepHash_eq_iff)
qed

section \<open>The process\<close>



text \<open>C29. The controller that \<open>NewIngressController\<close> makes reads the caches of the informers that it runs and
  that call it: its listers are those of its six informers, each of which has its callbacks.  The
  informers of VarnishConfigs and BackendConfigs are two, list and watch these resources in the namespace
  of the option \<open>-namespace\<close> (all, if it is empty) with the options of the caller, and however the
  factory is used later, it runs each at most once.\<close>

theorem informers_wired:
  assumes "informer_factory kf known"
    and "NewIngressController L Q kf K (factory_new (main_vcrInformerFactory ns resync)) = (Inr ic, K', S')"
    and "I = ic_informers ic"
  shows "ic_listers ic = I
     \<and> set (ic_handlers ic) = {in_ing I, in_svc I, in_endp I, in_secr I, in_vcfg I, in_bcfg I}
     \<and> in_vcfg I \<noteq> in_bcfg I
     \<and> si_ListFunc (fs_objs S' ! in_vcfg I) opts = varnishConfigs_List ns opts
     \<and> si_WatchFunc (fs_objs S' ! in_vcfg I) opts = varnishConfigs_Watch ns opts
     \<and> si_ListFunc (fs_objs S' ! in_bcfg I) opts = backendConfigs_List ns opts
     \<and> si_WatchFunc (fs_objs S' ! in_bcfg I) opts = backendConfigs_Watch ns opts
     \<and> (\<forall>T. \<not> factory_step\<^sup>*\<^sup>* S' T \<or> distinct (map fst (fs_runs T)))"
proof -
  note made = NewIngressController_made [OF assms(1,2)]
  note main = main_informers [OF made(2)]
  have "distinct (map fst (fs_runs T))" if "factory_step\<^sup>*\<^sup>* S' T" for T
    using factory_ok_steps [OF that main(5)] by (simp add: factory_ok_def)
  then show ?thesis using made main by (auto simp: AddEventHandlers_def assms(3))
qed

theorem informers_wired_witness:
  "\<exists>(I :: infrmrs) opts S'. snd (snd (NewIngressController list_scheme fifo ex_kube ()
        (factory_new (main_vcrInformerFactory ''ns'' 0)))) = S'
     \<and> rq_Timeout (si_ListFunc (fs_objs S' ! in_vcfg I) opts) = Some 5000000000
     \<and> rq_Namespace (si_ListFunc (fs_objs S' ! in_vcfg I) opts) = ''ns''"
proof -
  let ?o = "\<lparr>lo_TimeoutSeconds = Some 5, lo_Watch = False, lo_query = []\<rparr>"
  obtain r K S' where n: "NewIngressController list_scheme fifo ex_kube ()
      (factory_new (main_vcrInformerFactory ''ns'' 0)) = (r, K, S')" by (rule prod_cases3)
  have "\<nexists>e. r = Inl e"
  proof
    assume "\<exists>e. r = Inl e"
    then obtain e where "r = Inl e" ..
    with n have "fst (NewIngressController list_scheme fifo ex_kube ()
        (factory_new (main_vcrInformerFactory ''ns'' 0))) = Inl e" by simp
    then show False unfolding NewIngressController_error by (simp add: list_scheme_def)
  qed
  then obtain ic where "r = Inr ic" by (cases r) auto
  from informers_wired [OF ex_kube n [unfolded this] refl, of ?o] n show ?thesis
    by (intro exI [of _ "ic_informers ic"] exI [of _ ?o] exI [of _ S'])
      (simp add: varnishConfigs_List_def request_def opts_timeout_def)
qed

text \<open>C30. No metric is lost: whatever addresses and queues metrics are made for, in any order (a metric of a
  queue once), every metric that the code gets, and every one that it makes at the start, is exported by
  the registry, although the results of the registration are ignored.\<close>

theorem metrics_exported:
  assumes "registry Register exported" and "exported r = {}"
    and "list_all (\<lambda>c. ascii (call_label c)) cs" and "distinct (concat (map call_key cs))"
    and "calls Register cs (metrics_start Register r) = (ms, S)"
  shows "ms \<union> set plain_list \<subseteq> exported (mt_registry S)"
proof -
  have "ms \<subseteq> exported (mt_registry S)
      \<and> exported (mt_registry (metrics_start Register r)) \<subseteq> exported (mt_registry S)"
    using registry.calls_exported [OF assms(1) registry.start_ok(1) [OF assms(1,2)] assms(3,4) _ assms(5)]
    by simp
  with registry.start_ok(2) [OF assms(1,2)] show ?thesis by blast
qed

theorem metrics_exported_witness:
  "\<exists>ms S. calls keep_Register [CallQueue Depth ''ns'', CallInstance ''10.0.0.1:6081'',
         CallInstance ''10.0.0.2:6081'', CallInstance ''10.0.0.1:6081''] (metrics_start keep_Register []) = (ms, S)
     \<and> ms \<union> set plain_list \<subseteq> set (mt_registry S)"
proof -
  obtain ms S where c: "calls keep_Register [CallQueue Depth ''ns'', CallInstance ''10.0.0.1:6081'',
         CallInstance ''10.0.0.2:6081'', CallInstance ''10.0.0.1:6081''] (metrics_start keep_Register []) = (ms, S)"
    by (meson surj_pair)
  from metrics_exported [OF keep.registry_axioms _ _ _ this] have "ms \<union> set plain_list \<subseteq> set (mt_registry S)"
    by (simp add: ascii_def)
  with c show ?thesis by blast
qed

text \<open>C31. Deep copies share nothing: \<open>DeepCopyObject\<close> of a VarnishConfig, of a BackendConfig and of their lists
  gives an object that is read like the original, and from then on neither sees what is written to the
  memory of the other.  (\<open>om\<close>, \<open>lm\<close>: the metadata of objects and lists, whose deep copies \<open>mc\<close> and \<open>lc\<close>
  are functions of \<open>apimachinery\<close>.)\<close>

theorem deep_copies_independent:
  assumes "copies om mc" and "copies lm lc"
  shows "deep_copier (TPtr (VarnishConfig_type om)) (VarnishConfig_DeepCopyObject mc)
     \<and> deep_copier (TPtr (BackendConfig_type om)) (BackendConfig_DeepCopyObject mc)
     \<and> deep_copier (TPtr (VarnishConfigList_type om lm)) (VarnishConfigList_DeepCopyObject mc lc)
     \<and> deep_copier (TPtr (BackendConfigList_type om lm)) (BackendConfigList_DeepCopyObject mc lc)"
  using object_copies [OF assms] by (simp add: copies_deep)

theorem deep_copies_independent_witness:
  "deep_copier (TPtr (VarnishConfig_type TPrim)) (VarnishConfig_DeepCopyObject shallow)
     \<and> deep_copier (TPtr (BackendConfig_type TPrim)) (BackendConfig_DeepCopyObject shallow)
     \<and> BackendConfig_DeepCopyObject shallow
         [Prim (SInt 5), Struct [(''TypeMeta'', Struct []), (''ObjectMeta'', Prim (SStr ''bcfg'')),
            (''Spec'', Struct [(''Services'', Slice None), (''MaxConnections'', Ptr (Some 0))])]] (Ptr (Some 1))
       = (Ptr (Some 3),
          [Prim (SInt 5), Struct [(''TypeMeta'', Struct []), (''ObjectMeta'', Prim (SStr ''bcfg'')),
             (''Spec'', Struct [(''Services'', Slice None), (''MaxConnections'', Ptr (Some 0))])],
           Prim (SInt 5), Struct [(''TypeMeta'', Struct []), (''ObjectMeta'', Prim (SStr ''bcfg'')),
             (''Spec'', Struct [(''Services'', Slice None), (''MaxConnections'', Ptr (Some 2))])]])"
  using deep_copies_independent [OF copies_prim copies_prim]
  by (simp add: BackendConfig_DeepCopyObject_def BackendConfig_DeepCopy_def BackendConfig_DeepCopyInto_def
      BackendConfigSpec_DeepCopyInto_def copy_struct_def copy_ptr_def copy_slice_def shallow_def)

text \<open>C32. Whatever operation of the interfaces of VarnishConfigs and BackendConfigs is called, the fake client
  records exactly one action, and this is the call that the real client, with the configuration of
  \<open>setConfigDefaults\<close>, requests of the API server: the same verb, group, version, resource, namespace,
  name, subresources and object.\<close>

theorem fake_mirrors_client:
  assumes "action_recorder F actions"
  shows "\<exists>a b. actions (FakeVarnishConfigs_op F ns vop w) = actions w @ [a]
     \<and> Some (action_call a) = request_call (setConfigDefaults ua c) (varnishConfigs_op ns vop)
     \<and> actions (FakeBackendConfigs_op F ns bop w) = actions w @ [b]
     \<and> Some (action_call b) = request_call (setConfigDefaults ua c) (backendConfigs_op ns bop)"
  using action_recorder.varnishConfigs_recorded [OF assms, of ns vop w ua c]
    action_recorder.backendConfigs_recorded [OF assms, of ns bop w ua c] by blast

theorem fake_mirrors_client_witness:
  "\<exists>a. FakeVarnishConfigs_op bare_fake ''ns'' (OpUpdate empty_VarnishConfig) [] = [a]
     \<and> ac_verb (action_call a) = AUpdate \<and> ac_namespace (action_call a) = ''ns''
     \<and> gvr_Resource (ac_resource (action_call a)) = ''varnishconfigs''"
proof -
  let ?c = "\<lparr>cf_RateLimiter = None, cf_QPS = (), cf_Burst = 0, cf_UserAgent = [], cf_GroupVersion = None,
      cf_APIPath = [], cf_WithoutConversion = False\<rparr> :: (unit, unit) Config"
  from fake_mirrors_client [OF bare.action_recorder_axioms, of "''ns''" "OpUpdate empty_VarnishConfig" "[]"
      "[]" ?c "OpWatch \<lparr>lo_TimeoutSeconds = None, lo_Watch = False, lo_query = []\<rparr>"]
  obtain a where "FakeVarnishConfigs_op bare_fake ''ns'' (OpUpdate empty_VarnishConfig) [] = [a]"
    and a: "Some (action_call a)
      = request_call (setConfigDefaults [] ?c) (varnishConfigs_op ''ns'' (OpUpdate empty_VarnishConfig))"
    by auto
  moreover from a have "action_call a
      = the (request_call (setConfigDefaults [] ?c) (varnishConfigs_op ''ns'' (OpUpdate empty_VarnishConfig)))"
    by (metis option.sel)
  ultimately show ?thesis
    by (simp add: request_call_def setConfigDefaults_def varnishConfigs_Update_def request_def)
qed

section \<open>Where the code differs from its purpose\<close>

text \<open>C33. A negated equality of one value or of a count is generated with both \<open>!\<close> and \<open>!=\<close>, so that the
  condition holds exactly when it should not.\<close>

theorem not_equal_inverted:
  assumes "condition_valid rc" and "c = configReqCondition rc" and "negated_twice c" and "eq_is_match E c"
  shows "render_disp_cond i 0 c = Ok (''! '' @ cond_Comparand c @ '' != '' @ operand_text (cond_operand c))
     \<and> (vexpr_holds E (cond_expr i 0 c) \<longleftrightarrow> \<not> documented E c)"
proof -
  have "render_disp_cond i 0 c = Ok (vexpr_text (cond_expr i 0 c))"
    using render_disp_cond_text [of c i 0] valid_renderable [OF assms(1)] assms(2)
    by (simp add: opt_text_def)
  then show ?thesis
    using condition_meaning [OF assms(1,2,4), of i 0] assms(3)
    by (simp add: negated_twice_def cond_expr_def cond_base_def)
qed

theorem not_equal_inverted_witness:
  "render_disp_cond 0 0 (ex_cond ''not-equal'') = Ok ''! req.method != \"PUT\"''
     \<and> vexpr_holds ex_request (cond_expr 0 0 (ex_cond ''not-equal''))
     \<and> \<not> documented ex_request (ex_cond ''not-equal'')"
  using not_equal_inverted [OF ex_rcond_valid [of "''not-equal''"] ex_cond_def, of ex_request 0]
  by (simp add: ex_cond_not_equal ex_cond_match ex_cond_simps)

text \<open>C34. The paths of a host are matched in the order of their texts, not in the order of the Ingress: of two
  paths of which one begins with the other, the shorter is added first to the matcher of the host.  As
  the first match decides, it takes the requests of the longer.\<close>

theorem shorter_path_shadows:
  assumes "ings2VCLSpec L ings = Ok (spec, bcfgs)" and "GetSrc spec = Ok src"
    and "(ns, rule) \<in> set (ing_rules ings)"
    and "Option.bind (path_backend (rule_paths rule) p) (backend_target L ns) = Some s"
    and "Option.bind (path_backend (rule_paths rule) (p @ c # q)) (backend_target L ns) = Some t"
  shows "list_ex (\<lambda>r. rule_Host r = ir_Host rule
     \<and> in_order (path_line r (p, s)) (path_line r (p @ c # q, t)) src) (sp_Rules spec)"
  using paths_in_order [OF assms] by (simp add: list_ex_iff)

theorem shorter_path_shadows_witness:
  "\<exists>spec src. ings2VCLSpec ex_listers [ex_paths] = Ok (spec, []) \<and> GetSrc spec = Ok src
     \<and> map ip_Path (rule_paths ex_rule) = [''/coffee/special'', ''/coffee'']
     \<and> list_ex (\<lambda>r. in_order (path_line r (''/coffee'', ex_backend))
           (path_line r (''/coffee/special'', ex_backend)) src) (sp_Rules spec)"
proof -
  obtain spec src where s: "ings2VCLSpec ex_listers [ex_paths] = Ok (spec, [])" "GetSrc spec = Ok src"
    using ex_paths_src by blast
  have "list_ex (\<lambda>r. in_order (path_line r (''/coffee'', ex_backend))
      (path_line r (''/coffee/special'', ex_backend)) src) (sp_Rules spec)"
    using shorter_path_shadows [OF s ex_paths_rule(1), of "''/coffee''" ex_backend "CHR ''/''" "''special''" ex_backend]
    by (auto simp: ex_paths_rule ex_paths_target list_ex_iff)
  moreover have "map ip_Path (rule_paths ex_rule) = [''/coffee/special'', ''/coffee'']"
    by (simp add: ex_rule_def ex_paths_def rule_paths_def)
  ultimately show ?thesis using s by (intro exI [of _ spec] exI [of _ src]) simp
qed

text \<open>C35. Two races of the shutdown.  A signal that comes while the router has taken an object of a new
  namespace can lead to a state in which nothing ends the process: the worker is started after its
  peers' queues were shut down.  And the process can end with status 0 before \<open>vc.Quit\<close> was called,
  because \<open>Run\<close> returns from \<open>main\<close> while \<open>handleTermination\<close> is still busy.\<close>

theorem shutdown_races:
  "lc_steps lc_init lc_hung \<and> \<not> (\<exists>S'. lc_steps lc_hung S' \<and> lc_exit S' \<noteq> None)
   \<and> lc_steps lc_init lc_unquit \<and> lc_exit lc_unquit = Some 0 \<and> \<not> lc_quit lc_unquit"
proof -
  have h: "lc_steps lc_init lc_hung" using lc_running lc_hung by (rule rtranclp_trans)
  moreover have "lc_steps lc_init lc_unquit" using lc_running lc_waiting lc_unquit by (meson rtranclp_trans)
  moreover have "\<not> (\<exists>S'. lc_steps lc_hung S' \<and> lc_exit S' \<noteq> None)"
    using stuck_steps [OF _ lc_ok_steps [OF h lc_ok_init] lc_hung_stuck] by (auto simp: stuck_def)
  ultimately show ?thesis by (simp add: lc_unquit_def lc_waiting_def lc_running_def lc_init_def)
qed

text \<open>C36. The name is blind to the kind of an ACL: the blacklist and the whitelist with the same
  addresses produce different VCL under one name, so that the change is never loaded.  It is blind
  to the reason of a synthetic response in the same way.\<close>

theorem name_blind_to_whitelist:
  "configName (zero_Spec\<lparr>sp_ACLs := [acl\<lparr>acl_Whitelist := True\<rparr>]\<rparr>)
     = configName (zero_Spec\<lparr>sp_ACLs := [acl\<lparr>acl_Whitelist := False\<rparr>]\<rparr>)
   \<and> GetSrc (zero_Spec\<lparr>sp_ACLs := [acl\<lparr>acl_Whitelist := True\<rparr>]\<rparr>)
       \<noteq> GetSrc (zero_Spec\<lparr>sp_ACLs := [acl\<lparr>acl_Whitelist := False\<rparr>]\<rparr>)
   \<and> configName (set_reasons f s) = configName s"
proof -
  let ?s = "\<lambda>b. zero_Spec\<lparr>sp_ACLs := [acl\<lparr>acl_Whitelist := b\<rparr>]\<rparr>"
  have name: "configName s = configName t" if "Spec_stream (Canonical s) = Spec_stream (Canonical t)"
    for s t
    using DeepHash_stream_eq [OF that] by (simp add: configName_def)
  have "?s b = set_whitelists (\<lambda>_. b) (zero_Spec\<lparr>sp_ACLs := [acl]\<rparr>)" for b
    by (simp add: set_whitelists_def)
  then have "configName (?s True) = configName (?s False)"
    by (intro name) (simp add: stream_set_whitelists)
  moreover have "GetSrc (?s True) \<noteq> GetSrc (?s False)"
  proof -
    have "GetSrc (?s b) = Ok (render_ingress (?s b) @ render_acls (?s b))" for b
      by (simp add: GetSrc_def zero_Spec_def zero_ShardCluster_def)
    moreover have "render_ingress (?s b) = render_ingress zero_Spec" for b
      by (simp add: render_ingress_def render_routing_def render_default_def)
    moreover have "length (render_acls (?s True)) = Suc (length (render_acls (?s False)))"
      by (simp add: render_acls_def render_acl_decl_def render_acl_check_def hasXFF_def opt_text_def
          Let_def)
    moreover from this have "render_acls (?s True) \<noteq> render_acls (?s False)"
      by (intro notI) simp
    ultimately show ?thesis by simp
  qed
  moreover have "configName (set_reasons f s) = configName s" by (rule name) (rule stream_set_reasons)
  ultimately show ?thesis by blast
qed

text \<open>C37. Deleting a Varnish Service removes it exactly when its instances could not be told: after a
  deletion without error the Service is still there, with its configuration and instances.\<close>

theorem deleted_service_stays:
  assumes "DeleteVarnishSvc ADM k vc = (e, vc')" and "vc_ok vc"
    and "gm_get (vc_svcs vc) k = Some svc"
  shows "e = None \<longleftrightarrow> gm_get (vc_svcs vc') k \<noteq> None"
proof (cases e)
  case None
  with DeleteVarnishSvc_kept [of ADM k vc vc' svc] assms show ?thesis by auto
next
  case (Some x)
  with DeleteVarnishSvc_removed [of ADM k vc x vc'] assms show ?thesis by simp
qed

theorem deleted_service_stays_witness:
  "gm_get (vc_svcs (snd (DeleteVarnishSvc sim_admin ''ns/varnish'' (ex_pending [ex_inst])))) ''ns/varnish''
     \<noteq> None"
proof -
  have "fst (DeleteVarnishSvc sim_admin ''ns/varnish'' (ex_pending [ex_inst])) = None"
    by (simp add: DeleteVarnishSvc_def removeVarnishInstances_def not_available_def setCfgLabel_def
        sim_admin_def sim_Dial_def ex_world_def sim_cmd_def Let_def)
  then show ?thesis
    using deleted_service_stays [OF surjective_pairing ex_pending_ok ex_pending_simps(1)] by simp
qed

text \<open>C38. Once a loaded Service has been set not ready, the next question whether it has some
  configuration dereferences nil: the specification is gone but the Service still counts as loaded.\<close>

theorem not_ready_then_panic:
  assumes "SetNotReady ADM k vc = (e, vc')" and "gm_get (vc_svcs vc) k = Some svc"
    and "vs_cfgLoaded svc"
  shows "HasConfig k spec im vm bm vc' = Panic"
  by (rule SetNotReady_HasConfig [OF assms])

theorem not_ready_then_panic_witness:
  "HasConfig ''ns/varnish'' ex_spec [] zero_Meta [] (snd (SetNotReady sim_admin ''ns/varnish'' ex_loaded))
     = Panic"
  by (rule not_ready_then_panic [OF surjective_pairing ex_loaded_simps(1,3)])

text \<open>C39. When some VarnishConfig of the namespace has self-sharding, a synchronisation of a Varnish
  Service does not load the configuration at instances that join it, but leaves that to the Ingresses it puts
  into the queue.  If the configuration of the Service is the same as before, as it is when the
  VarnishConfig is for another Service, these find it loaded: they succeed without a command to the
  new instances.\<close>

theorem new_instances_overlooked:
  assumes "varnish_admin (wk_admin W) vcls at" and "map_order_ok (wk_addr_order W)"
    and "syncVarnishSvc W svc st = (Ok (), st')" and "isVarnishInVCLSpec W"
    and "l_ing_ns_List (wk_listers W) (wk_namespace W) = Inr ings" and "ing \<in> set ings"
    and "getVarnishSvcForIng (wk_listers W) (wk_namespace W) ing = Ok (Some svc)"
    and "ing_Namespace ing = ks_Namespace svc"
    and "serves vcls (svc_key svc) cfg (ws_vc st)" and "config_good cfg"
    and "getServiceEndpoints (wk_listers W) svc = Ok endps"
    and "s \<in> set (endp_Subsets endps)" and "ip \<in> set (es_Addresses s)"
    and "a = adm_addr \<lparr>addr_IP = ip, addr_Port = adm_port (es_Ports s)\<rparr>"
  shows "a \<in> set (svc_addrs (svc_key svc) (ws_vc st'))
     \<and> (\<exists>st''. install_config W (svc_key svc) cfg st' = (Ok (), st'')
          \<and> vcls a (vc_world (ws_vc st'')) = vcls a (vc_world (ws_vc st)))"
  by (rule varnish_admin.joined_instances_overlooked [OF assms(1,3) refl assms(2,4,7,8,5,6,9-14)])

theorem new_instances_overlooked_witness:
  "let st' = snd (syncVarnishSvc ex_scaled ex_svc ex_installed);
       a = adm_addr \<lparr>addr_IP = ''10.0.0.2'', addr_Port = 6081\<rparr>
   in a \<in> set (svc_addrs ''ns/varnish'' (ws_vc st'))
     \<and> (\<exists>st''. install_config ex_scaled ''ns/varnish'' ex_cfg st' = (Ok (), st'')
          \<and> sim_vcls a (vc_world (ws_vc st'')) = sim_vcls a (vc_world (ws_vc ex_installed)))"
proof -
  let ?s = "hd (endp_Subsets ex_two_endps)"
  have s: "syncVarnishSvc ex_scaled ex_svc ex_installed
      = (Ok (), snd (syncVarnishSvc ex_scaled ex_svc ex_installed))"
    using ex_scaled_sync by (simp add: prod_eq_iff)
  have e: "?s \<in> set (endp_Subsets ex_two_endps)" "''10.0.0.2'' \<in> set (es_Addresses ?s)"
    "adm_port (es_Ports ?s) = 6081"
    by (simp_all add: ex_two_endps_def adm_port_def)
  show ?thesis
    using new_instances_overlooked [OF _ _ s ex_scaled_sharding _ _ _ _ _ ex_good _ e(1,2) refl,
        of sim_vcls sim_at "[ex_ing]" ex_ing]
    by (simp add: sim.varnish_admin_axioms ex_order ex_scaled_ing ex_serves svc_key_def e(3))
qed



end
